(* ===== verification/Chity_Base.thy ===== *)
theory Chity_Base
  imports Main "HOL-Library.Word" "HOL-Library.Log_Nat"
begin

text \<open>
  Prelude of the development: the fixed-width integer types of \<^verbatim>\<open>server/include/common.h\<close>, the
  IEEE single-precision arithmetic the hash table's load factor uses (\<^verbatim>\<open>f32\<close>), the
  return values the handlers share, and the list, map and word lemmas that every component uses.

  Conventions of all theories: a C pointer that may be \<^verbatim>\<open>NULL\<close> is an option; a pointer
  to an object the server owns is an address into an explicit store; \<^verbatim>\<open>malloc\<close> and
  \<^verbatim>\<open>calloc\<close> succeed (the code does not check them either, except where a branch says so);
  log output (\<^verbatim>\<open>debug\<close>, \<^verbatim>\<open>warn\<close>, \<^verbatim>\<open>error\<close> and the like) is not modelled.
\<close>

unbundle bit_operations_syntax

section \<open>C types\<close>

type_synonym u8 = "8 word"
type_synonym u16 = "16 word"
type_synonym u32 = "32 word"
type_synonym u64 = "64 word"
type_synonym i32 = "32 word"

named_theorems ght_simps "unfolding rules of the hash table"
named_theorems ws_simps "unfolding rules of the WebSocket framing"
named_theorems http_simps "unfolding rules of the HTTP messages"
named_theorems server_simps "unfolding rules of the server object store"
named_theorems pipeline_simps "unfolding rules of the database pipeline"

section \<open>Single-precision division\<close>

text \<open>
  \<open>rne_div x y\<close> is the quotient of two naturals rounded to the nearest integer, ties to
  even: the rounding of IEEE arithmetic in its default mode.
\<close>

definition rne_div :: "nat \<Rightarrow> nat \<Rightarrow> nat" where
  "rne_div x y =
     (let q = x div y; r = x mod y
      in if 2 * r < y then q
         else if y < 2 * r then Suc q
         else if even q then q else Suc q)"

text \<open>
  A non-negative single is kept as a natural number scaled by \<open>2 ^ 88\<close>; every quotient of two
  64-bit numbers rounds to a multiple of \<open>2 ^ - 88\<close>, so nothing is lost. \<open>f32_of_nat\<close> is the
  conversion of a 64-bit integer, \<open>f32_div n d\<close> the correctly rounded quotient: with
  \<open>b\<close> bits in the integer part of \<open>2 ^ 64 * n / d\<close> its 24-bit mantissa has weight \<open>2 ^ b\<close>.
\<close>

type_synonym f32 = nat

definition f32_of_nat :: "nat \<Rightarrow> nat" where
  "f32_of_nat n =
     (let b = floorlog 2 n
      in if b \<le> 24 then n else rne_div n (2 ^ (b - 24)) * 2 ^ (b - 24))"

definition f32_div :: "nat \<Rightarrow> nat \<Rightarrow> f32" where
  "f32_div n d =
     (if n = 0 then 0
      else let b = floorlog 2 (n * 2 ^ 64 div d)
           in rne_div (n * 2 ^ 88) (d * 2 ^ b) * 2 ^ b)"

text \<open>The constants 0.7 and 0.2 converted to single precision.\<close>

definition f32_0_7 :: f32 where
  "f32_0_7 = 11744051 * 2 ^ 64"

definition f32_0_2 :: f32 where
  "f32_0_2 = 13421773 * 2 ^ 62"

lemma rne_div_le:
  assumes "0 < y" and "2 * x < (2 * k + 1) * y"
  shows "rne_div x y \<le> k"
proof -
  let ?q = "x div y" and ?r = "x mod y"
  have x: "x = ?q * y + ?r" and r: "?r < y"
    using assms(1) by simp_all
  have le: "?q \<le> k"
  proof (rule ccontr)
    assume "\<not> ?q \<le> k"
    then have "(k + 1) * y \<le> ?q * y" by (intro mult_right_mono) auto
    with x have "(k + 1) * y \<le> x" by linarith
    with assms show False by (simp add: algebra_simps)
  qed
  have "2 * ?r < y" if "?q = k"
  proof -
    have "(2 * k + 1) * y = 2 * (?q * y) + y" using that by (simp add: algebra_simps)
    with assms(2) x show ?thesis by linarith
  qed
  then show ?thesis
    using le by (cases "?q = k") (auto simp: rne_div_def Let_def)
qed

lemma rne_div_ge:
  assumes "0 < y" and "2 * k * y < 2 * x + y"
  shows "k \<le> rne_div x y"
proof -
  let ?q = "x div y" and ?r = "x mod y"
  have x: "x = ?q * y + ?r" and r: "?r < y"
    using assms(1) by simp_all
  have lt: "k < ?q + 2"
  proof (rule ccontr)
    assume "\<not> k < ?q + 2"
    then have "(?q + 2) * y \<le> k * y" by (intro mult_right_mono) auto
    moreover have "(?q + 2) * y = ?q * y + 2 * y" by (simp add: algebra_simps)
    ultimately have "x + y < k * y" using x r by linarith
    with assms(2) show False by (simp add: algebra_simps)
  qed
  have "y < 2 * ?r" if "k = Suc ?q"
  proof -
    have "2 * k * y = 2 * (?q * y) + 2 * y" using that by (simp add: algebra_simps)
    with assms(2) x show ?thesis by linarith
  qed
  then show ?thesis
    using lt by (cases "k = Suc ?q") (auto simp: rne_div_def Let_def)
qed

lemma floorlog_bounds:
  assumes "0 < (x::nat)"
  shows "2 ^ (floorlog 2 x - 1) \<le> x" and "x < 2 ^ floorlog 2 x"
  using floorlog_bounds [of x 2] assms by simp_all

lemma f32_of_nat_exact: "n < 2 ^ 24 \<Longrightarrow> f32_of_nat n = n"
  using floorlog_le_iff [of 2 n 24] by (simp add: f32_of_nat_def)

text \<open>The window of the mantissa: with \<open>b\<close> as in the definition, \<open>2 ^ 64 * n / d\<close> has \<open>b\<close> bits.\<close>

lemma f32_window:
  fixes n d :: nat
  assumes "0 < n" "0 < d" "d \<le> 2 ^ 64" and b: "b = floorlog 2 (n * 2 ^ 64 div d)"
  shows "0 < b" and "d * 2 ^ (b - 1) \<le> n * 2 ^ 64" and "n * 2 ^ 64 < d * 2 ^ b"
proof -
  let ?k = "n * 2 ^ 64 div d"
  have "d * 1 \<le> n * 2 ^ 64" using assms(1,3) by (simp add: Suc_leI le_trans [OF assms(3)])
  then have k: "0 < ?k" using assms(2) by (simp add: div_greater_zero_iff)
  then show "0 < b" using b by (simp add: floorlog_def)
  have "2 ^ (b - 1) \<le> ?k" "?k < 2 ^ b"
    using floorlog_bounds [OF k] b by simp_all
  then show "d * 2 ^ (b - 1) \<le> n * 2 ^ 64" "n * 2 ^ 64 < d * 2 ^ b"
    using assms(2)
    by (simp_all add: less_eq_div_iff_mult_less_eq div_less_iff_less_mult mult.commute)
qed

text \<open>
  Bounds on the rounded quotient, relative to a binade \<open>[2 ^ (e - 65), 2 ^ (e - 64))\<close>. The three
  cases of a comparison with a constant of that binade: the quotient lies below it, in it
  (where the mantissa of the constant decides) or above it.
\<close>

lemma f32_div_unfold:
  "0 < n \<Longrightarrow> b = floorlog 2 (n * 2 ^ 64 div d) \<Longrightarrow>
    f32_div n d = rne_div (n * 2 ^ 88) (d * 2 ^ b) * 2 ^ b"
  by (simp add: f32_div_def Let_def)

lemma f32_div_upper:
  fixes n d :: nat
  assumes "0 < n" "0 < d" "d \<le> 2 ^ 64" and b: "b = floorlog 2 (n * 2 ^ 64 div d)"
  shows "f32_div n d \<le> 2 ^ (24 + b)"
proof -
  note w = f32_window [OF assms]
  have "2 * (n * 2 ^ 88) < (2 * 2 ^ 24 + 1) * (d * 2 ^ b)"
    using w(3) by simp
  then have "rne_div (n * 2 ^ 88) (d * 2 ^ b) \<le> 2 ^ 24"
    using assms(2) by (intro rne_div_le) simp_all
  then have "rne_div (n * 2 ^ 88) (d * 2 ^ b) * 2 ^ b \<le> 2 ^ 24 * 2 ^ b"
    by (rule mult_le_mono1)
  then show ?thesis
    using f32_div_unfold [OF assms(1) b] by (simp add: power_add)
qed

lemma f32_div_lower:
  fixes n d :: nat
  assumes "0 < n" "0 < d" "d \<le> 2 ^ 64" and b: "b = floorlog 2 (n * 2 ^ 64 div d)"
  shows "2 ^ (23 + b) \<le> f32_div n d"
proof -
  note w = f32_window [OF assms]
  obtain c where c: "b = Suc c" using w(1) by (cases b) auto
  have key: "2 * 2 ^ 23 * (2 * A) < 2 * (n * 2 ^ 88) + 2 * A"
    if "A \<le> n * 2 ^ 64" "0 < A" for A
    using that by simp
  have "2 * 2 ^ 23 * (d * 2 ^ b) < 2 * (n * 2 ^ 88) + d * 2 ^ b"
    using key [of "d * 2 ^ c"] w(2) assms(2) by (simp add: c mult.left_commute)
  then have "2 ^ 23 \<le> rne_div (n * 2 ^ 88) (d * 2 ^ b)"
    using assms(2) by (intro rne_div_ge) simp_all
  then have "2 ^ 23 * 2 ^ b \<le> rne_div (n * 2 ^ 88) (d * 2 ^ b) * 2 ^ b"
    by (rule mult_le_mono1)
  then show ?thesis
    using f32_div_unfold [OF assms(1) b] by (simp add: power_add)
qed

lemma f32_div_in_binade:
  fixes n d k :: nat
  assumes "0 < n" "0 < d" "d \<le> 2 ^ 64" and b: "b = floorlog 2 (n * 2 ^ 64 div d)"
  shows "2 * (n * 2 ^ 88) < (2 * k + 1) * (d * 2 ^ b) \<Longrightarrow> f32_div n d \<le> k * 2 ^ b"
    and "2 * k * (d * 2 ^ b) < 2 * (n * 2 ^ 88) + d * 2 ^ b \<Longrightarrow> k * 2 ^ b \<le> f32_div n d"
  using f32_div_unfold [OF assms(1) b] assms(2)
  by (auto intro!: mult_le_mono1 rne_div_le rne_div_ge)

lemma f32_quotient_below:
  fixes n d :: nat
  assumes "0 < n" "0 < d" "d \<le> 2 ^ 64" and "n * 2 ^ 64 < d * 2 ^ e"
  shows "floorlog 2 (n * 2 ^ 64 div d) \<le> e"
proof (rule ccontr)
  let ?b = "floorlog 2 (n * 2 ^ 64 div d)"
  assume "\<not> ?b \<le> e"
  then have "e \<le> ?b - 1" by simp
  then have "d * 2 ^ e \<le> d * 2 ^ (?b - 1)" by (intro mult_le_mono2 power_increasing) simp_all
  with f32_window(2) [OF assms(1-3) refl] assms(4) show False by linarith
qed

lemma f32_quotient_above:
  fixes n d :: nat
  assumes "0 < n" "0 < d" "d \<le> 2 ^ 64" and "d * 2 ^ e \<le> n * 2 ^ 64"
  shows "e < floorlog 2 (n * 2 ^ 64 div d)"
proof (rule ccontr)
  let ?b = "floorlog 2 (n * 2 ^ 64 div d)"
  assume "\<not> e < ?b"
  then have "d * 2 ^ ?b \<le> d * 2 ^ e" by (intro mult_le_mono2 power_increasing) simp_all
  with f32_window(3) [OF assms(1-3) refl] assms(4) show False by linarith
qed

text \<open>
  For tables of fewer than \<open>2 ^ 22\<close> slots the single-precision comparisons with 0.7 and 0.2
  decide exactly \<open>10 * n > 7 * d\<close> and \<open>5 * n < d\<close>.
\<close>

lemma f32_over_0_7:
  assumes "0 < d" "d < 2 ^ 22"
  shows "f32_0_7 < f32_div n d \<longleftrightarrow> 7 * d < 10 * n"
proof (cases "n = 0")
  case True
  then show ?thesis by (simp add: f32_div_def f32_0_7_def)
next
  case False
  then have n: "0 < n" by simp
  have d: "d \<le> 2 ^ 64" using assms(2) by simp
  let ?b = "floorlog 2 (n * 2 ^ 64 div d)"
  note pre = n assms(1) d
  show ?thesis
  proof (cases "7 * d < 10 * n")
    case True
    then have "d * 2 ^ 63 \<le> n * 2 ^ 64" by simp
    then have ge: "64 \<le> ?b" using f32_quotient_above [OF pre] by fastforce
    have "f32_0_7 < f32_div n d"
    proof (cases "?b = 64")
      case True
      have "2 * 11744052 * (d * 2 ^ ?b) < 2 * (n * 2 ^ 88) + d * 2 ^ ?b"
        using \<open>7 * d < 10 * n\<close> assms(2) unfolding True by simp
      from f32_div_in_binade(2) [OF pre refl this] show ?thesis
        unfolding True by (simp add: f32_0_7_def)
    next
      case False
      then have "2 ^ (23 + 65) \<le> (2::nat) ^ (23 + ?b)"
        using ge by (intro power_increasing) simp_all
      with f32_div_lower [OF pre refl] have "2 ^ 88 \<le> f32_div n d" by simp
      then show ?thesis by (simp add: f32_0_7_def)
    qed
    with True show ?thesis by simp
  next
    case False
    then have "n * 2 ^ 64 < d * 2 ^ 64" using assms(1) by simp
    then have le: "?b \<le> 64" by (rule f32_quotient_below [OF pre])
    have "f32_div n d \<le> f32_0_7"
    proof (cases "?b = 64")
      case True
      have "2 * (n * 2 ^ 88) < (2 * 11744051 + 1) * (d * 2 ^ ?b)"
        using False assms unfolding True by simp
      from f32_div_in_binade(1) [OF pre refl this] show ?thesis
        unfolding True by (simp add: f32_0_7_def)
    next
      case False
      then have "(2::nat) ^ (24 + ?b) \<le> 2 ^ (24 + 63)"
        using le by (intro power_increasing) simp_all
      with f32_div_upper [OF pre refl] have "f32_div n d \<le> 2 ^ 87" by simp
      then show ?thesis by (simp add: f32_0_7_def)
    qed
    with False show ?thesis by simp
  qed
qed

lemma f32_under_0_2:
  assumes "0 < d" "d < 2 ^ 22"
  shows "f32_div n d < f32_0_2 \<longleftrightarrow> 5 * n < d"
proof (cases "n = 0")
  case True
  then show ?thesis using assms by (simp add: f32_div_def f32_0_2_def)
next
  case False
  then have n: "0 < n" by simp
  have d: "d \<le> 2 ^ 64" using assms(2) by simp
  let ?b = "floorlog 2 (n * 2 ^ 64 div d)"
  note pre = n assms(1) d
  show ?thesis
  proof (cases "5 * n < d")
    case True
    then have "n * 2 ^ 64 < d * 2 ^ 62" by simp
    then have le: "?b \<le> 62" by (rule f32_quotient_below [OF pre])
    have "f32_div n d < f32_0_2"
    proof (cases "?b = 62")
      case True
      have "2 * (n * 2 ^ 88) < (2 * 13421772 + 1) * (d * 2 ^ ?b)"
        using \<open>5 * n < d\<close> assms(2) unfolding True by simp
      from f32_div_in_binade(1) [OF pre refl this] show ?thesis
        unfolding True by (simp add: f32_0_2_def)
    next
      case False
      then have "(2::nat) ^ (24 + ?b) \<le> 2 ^ (24 + 61)"
        using le by (intro power_increasing) simp_all
      with f32_div_upper [OF pre refl] have "f32_div n d \<le> 2 ^ 85" by simp
      then show ?thesis by (simp add: f32_0_2_def)
    qed
    with True show ?thesis by simp
  next
    case False
    then have "d * 2 ^ 61 \<le> n * 2 ^ 64" by simp
    then have ge: "62 \<le> ?b" using f32_quotient_above [OF pre] by fastforce
    have "f32_0_2 \<le> f32_div n d"
    proof (cases "?b = 62")
      case True
      have "2 * 13421773 * (d * 2 ^ ?b) < 2 * (n * 2 ^ 88) + d * 2 ^ ?b"
        using False assms unfolding True by simp
      from f32_div_in_binade(2) [OF pre refl this] show ?thesis
        unfolding True by (simp add: f32_0_2_def)
    next
      case False
      then have "2 ^ (23 + 63) \<le> (2::nat) ^ (23 + ?b)"
        using ge by (intro power_increasing) simp_all
      with f32_div_lower [OF pre refl] have "2 ^ 86 \<le> f32_div n d" by simp
      then show ?thesis by (simp add: f32_0_2_def)
    qed
    with False show ?thesis by simp
  qed
qed

end
