(* ===== verification/Keyed_Table.thy ===== *)
theory Keyed_Table
  imports Chity_Base
begin

text \<open>
  The interface of a table of server objects, as its clients (clients by address, users by id,
  sessions by id, upload tokens, chat commands) use it: insertion that refuses a key it already
  has, lookup, and deletion. Deletion is specified the way the provider can promise it: the key
  is gone and nothing new appears, but other keys may be lost with it; \<open>exact_table\<close> adds
  the deletions that lose nothing else. The laws about sequences of operations are proved here
  once, for every provider.
\<close>

datatype ('k, 'v) table_op = Table_insert 'k "'v option" | Table_del 'k

definition table_step ::
  "('t \<Rightarrow> 'k \<Rightarrow> 'v option \<Rightarrow> 't \<times> bool) \<Rightarrow> ('t \<Rightarrow> 'k \<Rightarrow> 't \<times> bool \<times> 'v list) \<Rightarrow> ('k, 'v) table_op \<Rightarrow> 't \<Rightarrow> 't" where
  "table_step ins del op t =
     (case op of Table_insert k v \<Rightarrow> fst (ins t k v) | Table_del k \<Rightarrow> fst (del t k))"

text \<open>The abstract table: a partial map.\<close>

definition map_step :: "('k, 'v) table_op \<Rightarrow> ('k \<rightharpoonup> 'v) \<Rightarrow> ('k \<rightharpoonup> 'v)" where
  "map_step op m =
     (case op of
        Table_insert k v \<Rightarrow> (if v = None \<or> m k \<noteq> None then m else m(k := v))
      | Table_del k \<Rightarrow> m(k := None))"

fun op_key :: "('k, 'v) table_op \<Rightarrow> 'k" where
  "op_key (Table_insert k v) = k"
| "op_key (Table_del k) = k"

locale keyed_table =
  fixes tinsert :: "'t \<Rightarrow> 'k \<Rightarrow> 'v option \<Rightarrow> 't \<times> bool"
    and tget :: "'t \<Rightarrow> 'k \<Rightarrow> 'v option"
    and tdel :: "'t \<Rightarrow> 'k \<Rightarrow> 't \<times> bool \<times> 'v list"
    and inv :: "'t \<Rightarrow> bool"
    and room :: "'t \<Rightarrow> nat \<Rightarrow> bool"
    and key_ok :: "'k \<Rightarrow> bool"
  assumes insert_new: "\<lbrakk>inv t; key_ok k; tget t k = None; room t (Suc n)\<rbrakk> \<Longrightarrow>
      \<exists>t'. tinsert t k (Some v) = (t', True) \<and> inv t' \<and> tget t' = (tget t)(k \<mapsto> v) \<and> room t' n"
    and insert_old: "\<lbrakk>inv t; key_ok k; tget t k \<noteq> None\<rbrakk> \<Longrightarrow> tinsert t k (Some v) = (t, False)"
    and insert_null: "tinsert t k None = (t, False)"
    and del_absent: "\<lbrakk>inv t; key_ok k; tget t k = None\<rbrakk> \<Longrightarrow> tdel t k = (t, False, [])"
    and del_present: "\<lbrakk>inv t; key_ok k; tget t k = Some v; room t n\<rbrakk> \<Longrightarrow>
      \<exists>t' fr. tdel t k = (t', True, fr) \<and> inv t' \<and> tget t' k = None \<and> tget t' \<subseteq>\<^sub>m tget t \<and> room t' n"
    and room_less: "room t (Suc n) \<Longrightarrow> room t n"
begin

text \<open>One operation: the invariant, the room that is left, and what lookups may change.\<close>

lemma step_keeps:
  assumes "inv t" "key_ok (op_key op)" "room t (Suc n)"
  shows "inv (table_step tinsert tdel op t)" and "room (table_step tinsert tdel op t) n"
    and "k \<noteq> op_key op \<Longrightarrow> tget (table_step tinsert tdel op t) k = Some v \<Longrightarrow> tget t k = Some v"
proof -
  have "inv (table_step tinsert tdel op t) \<and> room (table_step tinsert tdel op t) n \<and>
    (k \<noteq> op_key op \<longrightarrow> tget (table_step tinsert tdel op t) k = Some v \<longrightarrow> tget t k = Some v)"
  proof (cases op)
    case (Table_insert k' v')
    show ?thesis
    proof (cases "v' = None \<or> tget t k' \<noteq> None")
      case True
      then have "tinsert t k' v' = (t, False)"
        using assms Table_insert insert_old insert_null by (cases v') auto
      then show ?thesis using assms Table_insert by (simp add: table_step_def room_less)
    next
      case False
      then obtain d where d: "v' = Some d" by auto
      from False have "tget t k' = None" by simp
      then obtain t' where "tinsert t k' (Some d) = (t', True)" "inv t'"
        "tget t' = (tget t)(k' \<mapsto> d)" "room t' n"
        using insert_new assms Table_insert by fastforce
      then show ?thesis using Table_insert d by (simp add: table_step_def)
    qed
  next
    case (Table_del k')
    show ?thesis
    proof (cases "tget t k'")
      case None
      then show ?thesis using assms Table_del del_absent by (simp add: table_step_def room_less)
    next
      case (Some w)
      with assms Table_del room_less obtain t' fr where "tdel t k' = (t', True, fr)" "inv t'"
        "tget t' \<subseteq>\<^sub>m tget t" "room t' n"
        using del_present [of t k' w n] by auto
      then show ?thesis using Table_del by (auto simp: table_step_def map_le_def dom_def)
    qed
  qed
  then show "inv (table_step tinsert tdel op t)" "room (table_step tinsert tdel op t) n"
    "k \<noteq> op_key op \<Longrightarrow> tget (table_step tinsert tdel op t) k = Some v \<Longrightarrow> tget t k = Some v"
    by blast+
qed

lemma run_keeps:
  assumes "inv t" "\<forall>op\<in>set ops. key_ok (op_key op)" "room t (length ops)"
  shows "inv (fold (table_step tinsert tdel) ops t)"
  using assms by (induction ops arbitrary: t) (simp_all add: step_keeps)

text \<open>
  A key that is not in the table is never found by a later lookup unless it is inserted, whatever
  happens to the other keys.
\<close>

lemma absent_until_inserted:
  assumes "inv t" "tget t k = None" "room t (length ops)"
    and "\<forall>op\<in>set ops. key_ok (op_key op) \<and> (\<forall>v. op \<noteq> Table_insert k v)"
  shows "tget (fold (table_step tinsert tdel) ops t) k = None"
  using assms
proof (induction ops arbitrary: t)
  case Nil
  then show ?case by simp
next
  case (Cons op ops)
  let ?t = "table_step tinsert tdel op t"
  have pre: "inv t" "key_ok (op_key op)" "room t (Suc (length ops))" using Cons.prems by simp_all
  have "tget ?t k = None"
  proof (cases "k = op_key op")
    case True
    with Cons.prems(4) have "op = Table_del k" by (cases op) auto
    then show ?thesis using pre Cons.prems(2) del_absent by (simp add: table_step_def)
  next
    case False
    then show ?thesis using step_keeps(3) [OF pre False] Cons.prems(2)
      by (metis not_None_eq)
  qed
  with Cons.IH [of ?t] Cons.prems step_keeps(1,2) [OF pre] show ?case by simp
qed

lemma deleted_stays_gone:
  assumes "inv t" "key_ok k" "room t (length ops)"
    and "\<forall>op\<in>set ops. key_ok (op_key op) \<and> (\<forall>v. op \<noteq> Table_insert k v)"
  shows "tget (fold (table_step tinsert tdel) ops (fst (tdel t k))) k = None"
proof (cases "tget t k")
  case None
  then show ?thesis using absent_until_inserted [OF assms(1) None assms(3,4)] del_absent assms(1,2)
    by simp
next
  case (Some v)
  then obtain t' fr where "tdel t k = (t', True, fr)" "inv t'" "tget t' k = None" "room t' (length ops)"
    using del_present assms by blast
  then show ?thesis using absent_until_inserted assms(4) by simp
qed

text \<open>Inserting a list of new, distinct keys succeeds for each and adds exactly them.\<close>

lemma insert_all:
  assumes "inv t" "distinct (map fst ps)" "\<forall>k\<in>fst ` set ps. key_ok k \<and> tget t k = None"
    and "room t (length ps)"
  shows "inv (fold (\<lambda>(k, v) t. fst (tinsert t k (Some v))) ps t)"
    and "tget (fold (\<lambda>(k, v) t. fst (tinsert t k (Some v))) ps t) = tget t ++ map_of ps"
proof -
  have "inv (fold (\<lambda>(k, v) t. fst (tinsert t k (Some v))) ps t) \<and>
    tget (fold (\<lambda>(k, v) t. fst (tinsert t k (Some v))) ps t) = tget t ++ map_of ps"
    using assms
  proof (induction ps arbitrary: t)
    case Nil
    then show ?case by simp
  next
    case (Cons p ps)
    obtain k v where p: "p = (k, v)" by fastforce
    have "key_ok k" "tget t k = None" "room t (Suc (length ps))" using Cons.prems p by simp_all
    with insert_new Cons.prems(1) obtain t' where t': "tinsert t k (Some v) = (t', True)" "inv t'"
      "tget t' = (tget t)(k \<mapsto> v)" "room t' (length ps)"
      by blast
    have k: "k \<notin> fst ` set ps" using Cons.prems(2) p by simp
    then have new: "\<forall>k'\<in>fst ` set ps. key_ok k' \<and> tget t' k' = None"
      using Cons.prems(3) t'(3) by auto
    have d: "distinct (map fst ps)" using Cons.prems(2) p by simp
    have "tget t' ++ map_of ps = tget t ++ map_of (p # ps)"
      using k p t'(3) by (simp add: map_add_upd_left dom_map_of_conv_image_fst)
    then show ?case using Cons.IH [OF t'(2) d new t'(4)] p t'(1)
      by (simp del: map_of.simps fun_upd_apply)
  qed
  then show "inv (fold (\<lambda>(k, v) t. fst (tinsert t k (Some v))) ps t)"
    "tget (fold (\<lambda>(k, v) t. fst (tinsert t k (Some v))) ps t) = tget t ++ map_of ps"
    by blast+
qed

end

text \<open>Deletions that lose no other key.\<close>

locale exact_table = keyed_table tinsert tget tdel inv room key_ok
  for tinsert :: "'t \<Rightarrow> 'k \<Rightarrow> 'v option \<Rightarrow> 't \<times> bool"
    and tget :: "'t \<Rightarrow> 'k \<Rightarrow> 'v option"
    and tdel :: "'t \<Rightarrow> 'k \<Rightarrow> 't \<times> bool \<times> 'v list"
    and inv :: "'t \<Rightarrow> bool"
    and room :: "'t \<Rightarrow> nat \<Rightarrow> bool"
    and key_ok :: "'k \<Rightarrow> bool" +
  fixes safe :: "'t \<Rightarrow> 'k \<Rightarrow> bool"
  assumes del_safe: "\<lbrakk>inv t; key_ok k; safe t k; tget t k = Some v\<rbrakk> \<Longrightarrow>
      tget (fst (tdel t k)) = (tget t)(k := None)"
begin

lemma step_refines:
  assumes "inv t" "key_ok (op_key op)" "room t (Suc n)"
    and "\<And>k. op = Table_del k \<Longrightarrow> tget t k \<noteq> None \<Longrightarrow> safe t k"
  shows "tget (table_step tinsert tdel op t) = map_step op (tget t)"
proof (cases op)
  case (Table_insert k v)
  show ?thesis
  proof (cases "v = None \<or> tget t k \<noteq> None")
    case True
    then have "tinsert t k v = (t, False)"
      using assms Table_insert insert_old insert_null by (cases v) auto
    with True Table_insert show ?thesis by (auto simp: table_step_def map_step_def)
  next
    case False
    then obtain d where d: "v = Some d" by auto
    from False have "tget t k = None" by simp
    with insert_new assms Table_insert obtain t' where "tinsert t k (Some d) = (t', True)"
      "tget t' = (tget t)(k \<mapsto> d)"
      by fastforce
    with Table_insert d \<open>tget t k = None\<close> show ?thesis by (simp add: table_step_def map_step_def)
  qed
next
  case (Table_del k)
  show ?thesis
  proof (cases "tget t k")
    case None
    then have "(tget t)(k := None) = tget t" by auto
    with None show ?thesis using assms Table_del del_absent by (simp add: table_step_def map_step_def)
  next
    case (Some v)
    then show ?thesis using assms Table_del del_safe by (simp add: table_step_def map_step_def)
  qed
qed

end

end
