(* ===== verification/Server_Ht.thy ===== *)
theory Server_Ht
  imports Keyed_Table
begin

text \<open>
  The generic hash table of \<^verbatim>\<open>server/src/server_ht.c\<close> (state of
  \<^verbatim>\<open>server/include/server_ht.h\<close>): chained buckets whose first bucket lives in the
  array and whose further buckets live in the heap, resized by load factor.

  A slot is the pair of its array bucket and the list of heap buckets reached from it by
  \<^verbatim>\<open>next\<close>. A \<^verbatim>\<open>NULL\<close> data pointer is \<^term>\<open>None\<close>; a zeroed bucket has key 0 and data
  \<^term>\<open>None\<close>. The element count is a 64-bit word because its decrement can wrap; the number of
  slots is a natural number (the array of that many 32-byte buckets has to fit in memory).
  Locking is not modelled: every exported operation runs under the table's mutex from its
  first to its last access, so an operation is one atomic step.
\<close>

section \<open>State\<close>

record 'v ght_bucket =
  bkey :: u64
  bdata :: "'v option"
  inheap :: int

type_synonym 'v ght_slot = "'v ght_bucket \<times> 'v ght_bucket list"

record 'v server_ght =
  ght_table :: "'v ght_slot list"
  ght_size :: nat
  min_size :: nat
  ght_count :: u64
  ignore_resize :: bool
  has_free :: bool
  load :: f32
  max_load :: f32
  min_load :: f32

definition empty_bucket :: "'v ght_bucket" where
  "empty_bucket = \<lparr>bkey = 0, bdata = None, inheap = 0\<rparr>"

definition empty_slot :: "'v ght_slot" where
  "empty_slot = (empty_bucket, [])"

text \<open>
  Where \<^verbatim>\<open>ght_del_bucket\<close> finds its bucket: the array bucket of a slot, or a heap bucket
  that the caller has already unlinked from its chain.
\<close>

datatype 'v bucket_ref = Array_bucket nat | Heap_bucket "'v ght_bucket"

section \<open>Operations\<close>

definition ght_hash :: "'v server_ght \<Rightarrow> u64 \<Rightarrow> nat" where
  "ght_hash ht key = unat key mod ght_size ht"

definition ght_calc_load :: "'v server_ght \<Rightarrow> 'v server_ght" where
  "ght_calc_load ht =
     ht\<lparr>load := f32_div (f32_of_nat (unat (ght_count ht))) (f32_of_nat (ght_size ht))\<rparr>"

definition ght_inc :: "'v server_ght \<Rightarrow> 'v server_ght" where
  "ght_inc ht = ght_calc_load (ht\<lparr>ght_count := ght_count ht + 1\<rparr>)"

definition ght_dec :: "'v server_ght \<Rightarrow> 'v server_ght" where
  "ght_dec ht = ght_calc_load (ht\<lparr>ght_count := ght_count ht - 1\<rparr>)"

definition set_slot :: "'v server_ght \<Rightarrow> nat \<Rightarrow> 'v ght_slot \<Rightarrow> 'v server_ght" where
  "set_slot ht i sl = ht\<lparr>ght_table := (ght_table ht)[i := sl]\<rparr>"

text \<open>\<^verbatim>\<open>data\<close> is never \<^verbatim>\<open>NULL\<close> here: both callers have checked it.\<close>

definition ght_insert :: "'v server_ght \<Rightarrow> u64 \<Rightarrow> 'v \<Rightarrow> 'v server_ght \<times> bool" where
  "ght_insert ht key data =
     (let idx = ght_hash ht key;
          (bucket, chain) = ght_table ht ! idx
      in if bkey bucket = key then (ht, False)
         else if bdata bucket \<noteq> None then
           (if list_ex (\<lambda>b. bkey b = key) chain then (ht, False)
            else (ght_inc (set_slot ht idx
                    (bucket, chain @ [\<lparr>bkey = key, bdata = Some data, inheap = -1\<rparr>])), True))
         else (ght_inc (set_slot ht idx
                 (bucket\<lparr>bkey := key, bdata := Some data\<rparr>, chain)), True))"

text \<open>The loop of \<^verbatim>\<open>ght_resize\<close>: every bucket of the old table that has data is re-inserted.\<close>

fun reinsert_all :: "'v server_ght \<Rightarrow> 'v ght_bucket list \<Rightarrow> 'v server_ght" where
  "reinsert_all ht [] = ht"
| "reinsert_all ht (b # bs) =
     (case bdata b of
        None \<Rightarrow> reinsert_all ht bs
      | Some d \<Rightarrow> reinsert_all (fst (ght_insert ht (bkey b) d)) bs)"

definition slot_buckets :: "'v ght_slot \<Rightarrow> 'v ght_bucket list" where
  "slot_buckets sl = fst sl # snd sl"

definition all_buckets :: "'v server_ght \<Rightarrow> 'v ght_bucket list" where
  "all_buckets ht = concat (map slot_buckets (ght_table ht))"

definition ght_resize :: "'v server_ght \<Rightarrow> nat \<Rightarrow> 'v server_ght" where
  "ght_resize ht new_size0 =
     (let new_size = (if new_size0 < min_size ht then min_size ht else new_size0)
      in if new_size = ght_size ht \<or> ignore_resize ht then ht
         else reinsert_all
                (ht\<lparr>ght_size := new_size, ght_table := replicate new_size empty_slot,
                    ght_count := 0\<rparr>)
                (all_buckets ht))"

definition ght_check_load :: "'v server_ght \<Rightarrow> 'v server_ght" where
  "ght_check_load ht =
     (if max_load ht < load ht then ght_resize ht (ght_size ht * 2)
      else if load ht < min_load ht then ght_resize ht (ght_size ht div 2)
      else ht)"

text \<open>The list is the data handed to the table's free callback.\<close>

definition freed :: "'v server_ght \<Rightarrow> 'v option \<Rightarrow> 'v list" where
  "freed ht d = (if has_free ht then (case d of None \<Rightarrow> [] | Some v \<Rightarrow> [v]) else [])"

definition ght_del_bucket :: "'v server_ght \<Rightarrow> 'v bucket_ref \<Rightarrow> 'v server_ght \<times> 'v list" where
  "ght_del_bucket ht r =
     (case r of
        Array_bucket idx \<Rightarrow>
          (let (bucket, chain) = ght_table ht ! idx;
               ht' = (case chain of
                        next # rest \<Rightarrow>
                          set_slot ht idx
                            (if inheap bucket = 0 then next\<lparr>inheap := 0\<rparr> else next, rest)
                      | [] \<Rightarrow>
                          if inheap bucket = -1 then ht
                          else set_slot ht idx empty_slot)
           in (ght_check_load (ght_dec ht'), freed ht (bdata bucket)))
      | Heap_bucket bucket \<Rightarrow> (ght_check_load (ght_dec ht), freed ht (bdata bucket)))"

definition server_ght_init :: "nat \<Rightarrow> bool \<Rightarrow> 'v server_ght option" where
  "server_ght_init initial_size free_callback =
     (if initial_size = 0 then None
      else Some \<lparr>ght_table = replicate initial_size empty_slot, ght_size = initial_size,
                 min_size = initial_size, ght_count = 0, ignore_resize = False,
                 has_free = free_callback, load = 0, max_load = f32_0_7, min_load = f32_0_2\<rparr>)"

text \<open>
  \<^verbatim>\<open>server_ght_hashstr\<close> on the characters before the terminating NUL; \<^verbatim>\<open>*str\<close> is a
  signed 8-bit \<^verbatim>\<open>char\<close> that is sign-extended when it is added to the 64-bit hash.
\<close>

definition server_ght_hashstr :: "string \<Rightarrow> u64" where
  "server_ght_hashstr str =
     foldl (\<lambda>hash c. (push_bit 5 hash + hash) + scast (of_char c :: u8)) 5381 str"

definition server_ght_insert :: "'v server_ght \<Rightarrow> u64 \<Rightarrow> 'v option \<Rightarrow> 'v server_ght \<times> bool" where
  "server_ght_insert ht key data =
     (case data of
        None \<Rightarrow> (ht, False)
      | Some d \<Rightarrow>
          (let (ht', ret) = ght_insert ht key d
           in if ret then (ght_check_load ht', True) else (ht', False)))"

definition server_ght_get :: "'v server_ght \<Rightarrow> u64 \<Rightarrow> 'v option" where
  "server_ght_get ht key =
     (let (bucket, chain) = ght_table ht ! ght_hash ht key
      in if bdata bucket = None then None
         else if bkey bucket = key then bdata bucket
         else (case find (\<lambda>b. bkey b = key) chain of None \<Rightarrow> None | Some b \<Rightarrow> bdata b))"

text \<open>
  The search of \<^verbatim>\<open>server_ght_del\<close> along the heap buckets: the buckets before the match
  (which stay linked; the last of them gets \<^verbatim>\<open>next = NULL\<close>) and the match itself.
\<close>

fun split_chain :: "u64 \<Rightarrow> 'v ght_bucket list \<Rightarrow> ('v ght_bucket list \<times> 'v ght_bucket) option" where
  "split_chain key [] = None"
| "split_chain key (b # bs) =
     (if bkey b = key then Some ([], b)
      else (case split_chain key bs of None \<Rightarrow> None | Some (pre, m) \<Rightarrow> Some (b # pre, m)))"

definition server_ght_del :: "'v server_ght \<Rightarrow> u64 \<Rightarrow> 'v server_ght \<times> bool \<times> 'v list" where
  "server_ght_del ht key =
     (let idx = ght_hash ht key;
          (bucket, chain) = ght_table ht ! idx
      in if bkey bucket = key then
           (let (ht', fr) = ght_del_bucket ht (Array_bucket idx) in (ht', True, fr))
         else (case split_chain key chain of
                 None \<Rightarrow> (ht, False, [])
               | Some (pre, m) \<Rightarrow>
                   (let (ht', fr) =
                      ght_del_bucket (set_slot ht idx (bucket, pre)) (Heap_bucket m)
                    in (ht', True, fr))))"

text \<open>
  \<^verbatim>\<open>server_ght_clear\<close> frees the heap buckets and hands the data to the callback, but it
  does not clear the array: its buckets keep key, data and \<^verbatim>\<open>next\<close> (the latter now
  dangling), which is why the table is unchanged here.
\<close>

definition live_prefix :: "'v ght_slot \<Rightarrow> 'v ght_bucket list" where
  "live_prefix sl = takeWhile (\<lambda>b. bdata b \<noteq> None) (slot_buckets sl)"

definition ght_foreach :: "'v server_ght \<Rightarrow> 'v list" where
  "ght_foreach ht = map (the \<circ> bdata) (concat (map live_prefix (ght_table ht)))"

definition server_ght_clear :: "'v server_ght \<Rightarrow> 'v server_ght \<times> 'v list" where
  "server_ght_clear ht =
     (ht\<lparr>ght_count := 0, load := 0\<rparr>, if has_free ht then ght_foreach ht else [])"

text \<open>\<^verbatim>\<open>table == NULL\<close> (a table that was never initialised) is the empty list of slots.\<close>

definition server_ght_destroy :: "'v server_ght \<Rightarrow> 'v list" where
  "server_ght_destroy ht = (if ght_table ht = [] then [] else snd (server_ght_clear ht))"

section \<open>Abstraction and invariant\<close>

text \<open>
  The pairs of a bucket list that are live (have data), and the invariant of a table: a slot is
  either zeroed or has data in every bucket, its keys are distinct, not 0 and hash to it, and
  the array and heap marks are right. \<open>ght_ok\<close> bounds the number of live elements by
  the count; \<open>ght_exact\<close> says that they agree.
\<close>

definition pairs :: "'v ght_bucket list \<Rightarrow> (u64 \<times> 'v) list" where
  "pairs bs = map (\<lambda>b. (bkey b, the (bdata b))) (filter (\<lambda>b. bdata b \<noteq> None) bs)"

definition slot_ok :: "nat \<Rightarrow> nat \<Rightarrow> 'v ght_slot \<Rightarrow> bool" where
  "slot_ok n i sl \<longleftrightarrow>
     (bdata (fst sl) = None \<longrightarrow> sl = empty_slot) \<and>
     inheap (fst sl) = 0 \<and>
     list_all (\<lambda>b. bdata b \<noteq> None \<and> inheap b = -1) (snd sl) \<and>
     distinct (map fst (pairs (slot_buckets sl))) \<and>
     list_all (\<lambda>(k, _). k \<noteq> 0 \<and> unat k mod n = i) (pairs (slot_buckets sl))"

definition live_count :: "'v server_ght \<Rightarrow> nat" where
  "live_count ht = length (pairs (all_buckets ht))"

definition ght_ok :: "'v server_ght \<Rightarrow> bool" where
  "ght_ok ht \<longleftrightarrow>
     0 < min_size ht \<and> min_size ht \<le> ght_size ht \<and> length (ght_table ht) = ght_size ht \<and>
     (\<forall>i<ght_size ht. slot_ok (ght_size ht) i (ght_table ht ! i)) \<and>
     live_count ht \<le> unat (ght_count ht)"

definition ght_exact :: "'v server_ght \<Rightarrow> bool" where
  "ght_exact ht \<longleftrightarrow> ght_ok ht \<and> live_count ht = unat (ght_count ht)"

definition ght_room :: "'v server_ght \<Rightarrow> bool" where
  "ght_room ht \<longleftrightarrow> ght_count ht \<noteq> - 1"

lemma pairs_simps [simp]:
  "pairs [] = []"
  "pairs (b # bs) = (case bdata b of None \<Rightarrow> pairs bs | Some d \<Rightarrow> (bkey b, d) # pairs bs)"
  "pairs (bs @ cs) = pairs bs @ pairs cs"
  by (simp_all add: pairs_def split: option.split)

lemma pairs_concat: "pairs (concat bss) = concat (map pairs bss)"
  by (induction bss) simp_all

lemma slot_buckets_simps [simp]:
  "slot_buckets (b, c) = b # c"
  "slot_buckets empty_slot = [empty_bucket]"
  "bdata empty_bucket = None" "bkey empty_bucket = 0" "inheap empty_bucket = 0"
  "fst empty_slot = empty_bucket" "snd empty_slot = []"
  by (simp_all add: slot_buckets_def empty_slot_def empty_bucket_def)

lemma slot_ok_empty [simp]: "slot_ok n i empty_slot"
  by (simp add: slot_ok_def)

lemma ght_okD:
  assumes "ght_ok ht"
  shows "0 < ght_size ht" "0 < min_size ht" "min_size ht \<le> ght_size ht"
    "length (ght_table ht) = ght_size ht" "live_count ht \<le> unat (ght_count ht)"
    "i < ght_size ht \<Longrightarrow> slot_ok (ght_size ht) i (ght_table ht ! i)"
  using assms by (auto simp: ght_ok_def)

lemma ght_hash_less: "ght_ok ht \<Longrightarrow> ght_hash ht k < ght_size ht"
  by (simp add: ght_hash_def ght_okD)

lemma ght_ok_slot:
  "ght_ok ht \<Longrightarrow> slot_ok (ght_size ht) (ght_hash ht k) (ght_table ht ! ght_hash ht k)"
  by (simp add: ght_okD ght_hash_less)

text \<open>On the heap chain of a sound slot the code's search is a lookup in the pairs.\<close>

lemma find_pairs:
  "list_all (\<lambda>b. bdata b \<noteq> None \<and> inheap b = -1) c \<Longrightarrow>
    (case find (\<lambda>b. bkey b = k) c of None \<Rightarrow> None | Some b \<Rightarrow> bdata b) = map_of (pairs c) k"
  by (induction c) auto

lemma list_ex_pairs:
  "list_all (\<lambda>b. bdata b \<noteq> None \<and> inheap b = -1) c \<Longrightarrow>
    list_ex (\<lambda>b. bkey b = k) c \<longleftrightarrow> map_of (pairs c) k \<noteq> None"
  by (induction c) auto

lemma get_slot:
  assumes "ght_ok ht"
  shows "server_ght_get ht k = map_of (pairs (slot_buckets (ght_table ht ! ght_hash ht k))) k"
proof -
  obtain b c where bc: "ght_table ht ! ght_hash ht k = (b, c)" by fastforce
  with ght_ok_slot [OF assms, of k] have ok: "slot_ok (ght_size ht) (ght_hash ht k) (b, c)"
    by simp
  show ?thesis
    using ok by (auto simp: server_ght_get_def bc slot_ok_def empty_slot_def find_pairs)
qed

lemma get_0: "ght_ok ht \<Longrightarrow> server_ght_get ht 0 = None"
  using ght_ok_slot [of ht 0]
  by (auto simp: get_slot slot_ok_def list_all_iff map_of_eq_None_iff)

lemma live_count_sum:
  "live_count ht = (\<Sum>sl\<leftarrow>ght_table ht. length (pairs (slot_buckets sl)))"
  by (simp add: live_count_def all_buckets_def pairs_concat length_concat o_def)

lemma live_count_set_slot:
  assumes "i < length (ght_table ht)"
  shows "live_count (set_slot ht i sl) + length (pairs (slot_buckets (ght_table ht ! i)))
    = live_count ht + length (pairs (slot_buckets sl))"
proof -
  have "length (pairs (slot_buckets (ght_table ht ! i))) \<le> live_count ht"
    unfolding live_count_sum
    using elem_le_sum_list [of i "map (\<lambda>sl. length (pairs (slot_buckets sl))) (ght_table ht)"] assms
    by simp
  then show ?thesis
    using assms by (simp add: live_count_sum set_slot_def map_update sum_list_update)
qed

section \<open>Insertion\<close>

lemma set_slot_sel [simp]:
  "ght_table (set_slot ht i sl) = (ght_table ht)[i := sl]"
  "ght_size (set_slot ht i sl) = ght_size ht" "min_size (set_slot ht i sl) = min_size ht"
  "ght_count (set_slot ht i sl) = ght_count ht" "has_free (set_slot ht i sl) = has_free ht"
  "ignore_resize (set_slot ht i sl) = ignore_resize ht"
  "max_load (set_slot ht i sl) = max_load ht" "min_load (set_slot ht i sl) = min_load ht"
  by (simp_all add: set_slot_def)

lemma ght_inc_sel [simp]:
  "ght_table (ght_inc ht) = ght_table ht" "ght_size (ght_inc ht) = ght_size ht"
  "min_size (ght_inc ht) = min_size ht" "ght_count (ght_inc ht) = ght_count ht + 1"
  "ignore_resize (ght_inc ht) = ignore_resize ht" "has_free (ght_inc ht) = has_free ht"
  "max_load (ght_inc ht) = max_load ht" "min_load (ght_inc ht) = min_load ht"
  by (simp_all add: ght_inc_def ght_calc_load_def)

lemma ght_dec_sel [simp]:
  "ght_table (ght_dec ht) = ght_table ht" "ght_size (ght_dec ht) = ght_size ht"
  "min_size (ght_dec ht) = min_size ht" "ght_count (ght_dec ht) = ght_count ht - 1"
  "ignore_resize (ght_dec ht) = ignore_resize ht" "has_free (ght_dec ht) = has_free ht"
  "max_load (ght_dec ht) = max_load ht" "min_load (ght_dec ht) = min_load ht"
  by (simp_all add: ght_dec_def ght_calc_load_def)

lemma live_count_cong: "ght_table ht = ght_table ht' \<Longrightarrow> live_count ht = live_count ht'"
  by (simp add: live_count_def all_buckets_def)

lemma live_count_inc_dec [simp]:
  "live_count (ght_inc ht) = live_count ht" "live_count (ght_dec ht) = live_count ht"
  by (rule live_count_cong, simp)+

lemma ght_hash_cong: "ght_size ht = ght_size ht' \<Longrightarrow> ght_hash ht k = ght_hash ht' k"
  by (simp add: ght_hash_def)

lemma unat_inc: "(x::u64) \<noteq> - 1 \<Longrightarrow> unat (x + 1) = Suc (unat x)"
  by (metis add.commute eq_neg_iff_add_eq_0 unatSuc)

lemma unat_max: "unat (- 1 :: u64) = 18446744073709551615"
  by (simp add: unsigned_minus_1_eq_mask mask_eq_exp_minus_1)

lemma unat_dec: "(x::u64) \<noteq> 0 \<Longrightarrow> unat (x - 1) = unat x - 1"
  by (simp add: unat_minus_one)

definition same_params :: "'v server_ght \<Rightarrow> 'v server_ght \<Rightarrow> bool" where
  "same_params ht ht' \<longleftrightarrow>
     min_size ht' = min_size ht \<and> ignore_resize ht' = ignore_resize ht \<and>
     has_free ht' = has_free ht \<and> max_load ht' = max_load ht \<and> min_load ht' = min_load ht"

lemma same_params_refl [simp]: "same_params ht ht"
  by (simp add: same_params_def)

lemma same_params_trans: "same_params a b \<Longrightarrow> same_params b c \<Longrightarrow> same_params a c"
  by (simp add: same_params_def)

text \<open>
  The slot that \<^verbatim>\<open>ght_insert\<close> writes, when it writes one: a sound slot with one more pair at
  its end.
\<close>

lemma insert_slot_ok:
  assumes ok: "slot_ok n i (b, c)" and "k \<noteq> 0" "unat k mod n = i"
    and new: "map_of (pairs (b # c)) k = None"
    and sl: "sl = (if bdata b \<noteq> None
                   then (b, c @ [\<lparr>bkey = k, bdata = Some d, inheap = -1\<rparr>])
                   else (b\<lparr>bkey := k, bdata := Some d\<rparr>, c))"
  shows "slot_ok n i sl" and "pairs (slot_buckets sl) = pairs (b # c) @ [(k, d)]"
  using assms
  by (auto simp: slot_ok_def empty_slot_def list_all_iff map_of_eq_None_iff split: option.splits)

text \<open>Replacing one slot by a sound one, and changing the count, keeps the table sound.\<close>

lemma ght_ok_set_slot:
  assumes ok: "ght_ok ht" and i: "i < ght_size ht" and sl: "slot_ok (ght_size ht) i sl"
    and t: "ght_table ht' = (ght_table ht)[i := sl]" "ght_size ht' = ght_size ht"
      "min_size ht' = min_size ht"
    and c: "live_count ht' \<le> unat (ght_count ht')"
  shows "ght_ok ht'"
  using assms by (auto simp: ght_ok_def nth_list_update)

lemma get_set_slot:
  assumes ok: "ght_ok ht" and ok': "ght_ok ht'" and i: "i = ght_hash ht k"
    and t: "ght_table ht' = (ght_table ht)[i := sl]" "ght_size ht' = ght_size ht"
  shows "server_ght_get ht' k' =
    (if ght_hash ht k' = i then map_of (pairs (slot_buckets sl)) k' else server_ght_get ht k')"
proof -
  have h: "ght_hash ht' k' = ght_hash ht k'" using t(2) by (rule ght_hash_cong)
  have i': "i < length (ght_table ht)" using ok i by (simp add: ght_okD ght_hash_less)
  show ?thesis
    using i' by (simp add: get_slot [OF ok'] get_slot [OF ok] h t(1))
qed

lemma ght_insert_present:
  assumes "ght_ok ht" "k \<noteq> 0" "server_ght_get ht k \<noteq> None"
  shows "ght_insert ht k d = (ht, False)"
proof -
  obtain b c where bc: "ght_table ht ! ght_hash ht k = (b, c)" by fastforce
  have ok: "slot_ok (ght_size ht) (ght_hash ht k) (b, c)"
    using ght_ok_slot [OF assms(1), of k] bc by simp
  have "map_of (pairs (b # c)) k \<noteq> None"
    using assms(3) get_slot [OF assms(1), of k] by (simp add: bc)
  with ok assms(2) show ?thesis
    by (auto simp: ght_insert_def bc Let_def slot_ok_def empty_slot_def list_ex_pairs
        split: option.splits)
qed

lemma ght_insert_absent:
  assumes ok: "ght_ok ht" and k: "k \<noteq> 0" and new: "server_ght_get ht k = None"
    and room: "ght_room ht"
  obtains ht' where "ght_insert ht k d = (ht', True)" "ght_ok ht'"
    "server_ght_get ht' = (server_ght_get ht)(k \<mapsto> d)"
    "ght_count ht' = ght_count ht + 1" "live_count ht' = Suc (live_count ht)"
    "ght_size ht' = ght_size ht" "same_params ht ht'"
    "load ht' = f32_div (f32_of_nat (unat (ght_count ht'))) (f32_of_nat (ght_size ht'))"
proof -
  let ?i = "ght_hash ht k"
  obtain b c where bc: "ght_table ht ! ?i = (b, c)" by fastforce
  define sl where sl_def: "sl = (if bdata b \<noteq> None
             then (b, c @ [\<lparr>bkey = k, bdata = Some d, inheap = -1\<rparr>])
             else (b\<lparr>bkey := k, bdata := Some d\<rparr>, c))"
  let ?h = "ght_inc (set_slot ht ?i sl)"
  have i: "?i < ght_size ht" using ok by (rule ght_hash_less)
  have bok: "slot_ok (ght_size ht) ?i (b, c)" using ght_ok_slot [OF ok, of k] bc by simp
  have none: "map_of (pairs (b # c)) k = None" using new get_slot [OF ok, of k] by (simp add: bc)
  have "unat k mod ght_size ht = ?i" by (simp add: ght_hash_def)
  note sl = insert_slot_ok [OF bok k this none sl_def]
  have e: "ght_insert ht k d = (?h, True)"
    using none k bok
    by (auto simp: ght_insert_def bc Let_def slot_ok_def list_ex_pairs empty_slot_def sl_def
        split: option.splits if_splits)
  have "live_count (set_slot ht ?i sl) = Suc (live_count ht)"
    using live_count_set_slot [of ?i ht sl] i ok sl(2) by (simp add: ght_okD bc)
  then have lc: "live_count ?h = Suc (live_count ht)" by simp
  have cnt: "unat (ght_count ?h) = Suc (unat (ght_count ht))"
    using room by (simp add: ght_room_def unat_inc)
  have ok': "ght_ok ?h"
    by (rule ght_ok_set_slot [OF ok i sl(1)]) (use lc cnt ok in \<open>simp_all add: ght_okD\<close>)
  have "server_ght_get ?h k' = ((server_ght_get ht)(k \<mapsto> d)) k'" for k'
  proof (cases "ght_hash ht k' = ?i")
    case True
    then have "server_ght_get ht k' = map_of (pairs (b # c)) k'"
      using get_slot [OF ok, of k'] bc by simp
    moreover have "server_ght_get ?h k' = map_of (pairs (slot_buckets sl)) k'"
      using get_set_slot [where sl = sl and k' = k', OF ok ok' refl] True by simp
    ultimately show ?thesis using none sl(2) by (auto simp: map_add_def split: option.splits)
  next
    case False
    then have "server_ght_get ?h k' = server_ght_get ht k'"
      using get_set_slot [where sl = sl and k' = k', OF ok ok' refl] by simp
    with False show ?thesis by auto
  qed
  then have "server_ght_get ?h = (server_ght_get ht)(k \<mapsto> d)" by (rule ext)
  then show thesis
    using that [OF e ok'] lc by (simp add: ght_inc_def ght_calc_load_def same_params_def)
qed

section \<open>Resizing\<close>

lemma reinsert_all_spec:
  assumes "ght_ok ht" and "distinct (map fst (pairs bs))"
    and "\<And>k d. (k, d) \<in> set (pairs bs) \<Longrightarrow> k \<noteq> 0 \<and> server_ght_get ht k = None"
    and "unat (ght_count ht) + length (pairs bs) < 2 ^ 64"
  shows "ght_ok (reinsert_all ht bs)"
    and "server_ght_get (reinsert_all ht bs) = server_ght_get ht ++ map_of (pairs bs)"
    and "unat (ght_count (reinsert_all ht bs)) = unat (ght_count ht) + length (pairs bs)"
    and "live_count (reinsert_all ht bs) = live_count ht + length (pairs bs)"
    and "ght_size (reinsert_all ht bs) = ght_size ht"
    and "same_params ht (reinsert_all ht bs)"
proof -
  have "ght_ok (reinsert_all ht bs) \<and>
    server_ght_get (reinsert_all ht bs) = server_ght_get ht ++ map_of (pairs bs) \<and>
    unat (ght_count (reinsert_all ht bs)) = unat (ght_count ht) + length (pairs bs) \<and>
    live_count (reinsert_all ht bs) = live_count ht + length (pairs bs) \<and>
    ght_size (reinsert_all ht bs) = ght_size ht \<and> same_params ht (reinsert_all ht bs)"
    using assms
  proof (induction ht bs rule: reinsert_all.induct)
    case (1 ht)
    then show ?case by simp
  next
    case (2 ht b bs)
    show ?case
    proof (cases "bdata b")
      case None
      with 2 show ?thesis by simp
    next
      case (Some d)
      let ?k = "bkey b"
      have prem: "?k \<noteq> 0" "server_ght_get ht ?k = None" using "2.prems"(3) [of ?k d] Some by auto
      have room: "ght_room ht"
        using "2.prems"(4) Some by (auto simp: ght_room_def unat_max)
      obtain h where h: "ght_insert ht ?k d = (h, True)" "ght_ok h"
        "server_ght_get h = (server_ght_get ht)(?k \<mapsto> d)" "ght_count h = ght_count ht + 1"
        "live_count h = Suc (live_count ht)" "ght_size h = ght_size ht" "same_params ht h"
        using ght_insert_absent [OF "2.prems"(1) prem room, of d]
        by blast
      have cnt: "unat (ght_count h) = Suc (unat (ght_count ht))"
        using h(4) room by (simp add: ght_room_def unat_inc)
      have fresh: "k \<noteq> 0 \<and> server_ght_get h k = None" if "(k, e) \<in> set (pairs bs)" for k e
      proof -
        have "k \<noteq> ?k" using that "2.prems"(2) Some by force
        moreover have "k \<noteq> 0 \<and> server_ght_get ht k = None"
          using "2.prems"(3) [of k e] that Some by simp
        ultimately show ?thesis by (simp add: h(3))
      qed
      have notin: "?k \<notin> dom (map_of (pairs bs))"
        using "2.prems"(2) Some by (simp add: dom_map_of_conv_image_fst)
      have upd: "server_ght_get h ++ map_of (pairs bs) =
        server_ght_get ht ++ map_of ((?k, d) # pairs bs)"
        using notin by (auto simp: h(3) map_add_def fun_eq_iff split: option.splits)
      have e: "reinsert_all ht (b # bs) = reinsert_all h bs" using Some h(1) by simp
      have p: "pairs (b # bs) = (?k, d) # pairs bs" using Some by simp
      have "ght_ok (reinsert_all h bs) \<and>
        server_ght_get (reinsert_all h bs) = server_ght_get h ++ map_of (pairs bs) \<and>
        unat (ght_count (reinsert_all h bs)) = unat (ght_count h) + length (pairs bs) \<and>
        live_count (reinsert_all h bs) = live_count h + length (pairs bs) \<and>
        ght_size (reinsert_all h bs) = ght_size h \<and> same_params h (reinsert_all h bs)"
        using "2.IH"(2) [OF Some] "2.prems" fresh cnt Some h(1,2) by simp
      then show ?thesis
        unfolding e p upd [symmetric] using h(5-7) cnt same_params_trans [of ht h] by simp
    qed
  qed
  then show "ght_ok (reinsert_all ht bs)"
    "server_ght_get (reinsert_all ht bs) = server_ght_get ht ++ map_of (pairs bs)"
    "unat (ght_count (reinsert_all ht bs)) = unat (ght_count ht) + length (pairs bs)"
    "live_count (reinsert_all ht bs) = live_count ht + length (pairs bs)"
    "ght_size (reinsert_all ht bs) = ght_size ht" "same_params ht (reinsert_all ht bs)"
    by simp_all
qed

text \<open>
  Keys of different slots hash differently, so the pairs of the whole table form one map, and
  that map is the lookup.
\<close>

lemma slot_keys:
  assumes "ght_ok ht" "i < ght_size ht" "(k, d) \<in> set (pairs (slot_buckets (ght_table ht ! i)))"
  shows "k \<noteq> 0" "ght_hash ht k = i"
  using ght_okD(6) [OF assms(1,2)] assms(3)
  by (auto simp: slot_ok_def list_all_iff ght_hash_def)

lemma pairs_all_buckets:
  "pairs (all_buckets ht) = concat (map (\<lambda>sl. pairs (slot_buckets sl)) (ght_table ht))"
  by (simp add: all_buckets_def pairs_concat o_def)

lemma set_pairs_all:
  assumes "ght_ok ht"
  shows "(k, d) \<in> set (pairs (all_buckets ht)) \<longleftrightarrow>
    (k, d) \<in> set (pairs (slot_buckets (ght_table ht ! ght_hash ht k)))"
proof
  assume "(k, d) \<in> set (pairs (all_buckets ht))"
  then have "\<exists>sl\<in>set (ght_table ht). (k, d) \<in> set (pairs (slot_buckets sl))"
    unfolding pairs_all_buckets by simp
  then obtain i where "i < ght_size ht" "(k, d) \<in> set (pairs (slot_buckets (ght_table ht ! i)))"
    using ght_okD(4) [OF assms] by (metis in_set_conv_nth)
  with slot_keys(2) [OF assms this]
  show "(k, d) \<in> set (pairs (slot_buckets (ght_table ht ! ght_hash ht k)))" by simp
next
  assume "(k, d) \<in> set (pairs (slot_buckets (ght_table ht ! ght_hash ht k)))"
  moreover have "ght_table ht ! ght_hash ht k \<in> set (ght_table ht)"
    using assms ght_hash_less [OF assms] by (simp add: ght_okD(4))
  ultimately show "(k, d) \<in> set (pairs (all_buckets ht))"
    unfolding pairs_all_buckets by auto
qed

lemma distinct_concat_nth:
  assumes "\<And>i. i < length xss \<Longrightarrow> distinct (xss ! i)"
    and "\<And>i j x. i < length xss \<Longrightarrow> j < length xss \<Longrightarrow> x \<in> set (xss ! i) \<Longrightarrow> x \<in> set (xss ! j) \<Longrightarrow> i = j"
  shows "distinct (concat xss)"
  using assms
proof (induction xss)
  case Nil
  then show ?case by simp
next
  case (Cons xs xss)
  have "distinct (concat xss)"
  proof (rule Cons.IH)
    show "distinct (xss ! i)" if "i < length xss" for i
      using Cons.prems(1) [of "Suc i"] that by simp
    show "i = j" if "i < length xss" "j < length xss" "x \<in> set (xss ! i)" "x \<in> set (xss ! j)" for i j x
      using Cons.prems(2) [of "Suc i" "Suc j" x] that by simp
  qed
  moreover have "set xs \<inter> set (concat xss) = {}"
    using Cons.prems(2) [of 0 "Suc j" for j] by (fastforce simp: in_set_conv_nth [of _ xss])
  moreover have "distinct xs" using Cons.prems(1) [of 0] by simp
  ultimately show ?case by simp
qed

lemma distinct_all_keys:
  assumes "ght_ok ht"
  shows "distinct (map fst (pairs (all_buckets ht)))"
  unfolding pairs_all_buckets map_concat map_map
proof (rule distinct_concat_nth, goal_cases)
  case (1 i)
  then show ?case using assms ght_okD(6) [OF assms, of i] by (simp add: ght_okD slot_ok_def)
next
  case (2 i j x)
  have len: "length (ght_table ht) = ght_size ht" using assms by (rule ght_okD(4))
  have "ght_hash ht x = l" if "l < ght_size ht"
    "x \<in> set (map (map fst \<circ> (\<lambda>sl. pairs (slot_buckets sl))) (ght_table ht) ! l)" for l
  proof -
    have "x \<in> fst ` set (pairs (slot_buckets (ght_table ht ! l)))" using that len by simp
    then obtain d where "(x, d) \<in> set (pairs (slot_buckets (ght_table ht ! l)))" by fastforce
    with slot_keys(2) [OF assms that(1)] show ?thesis .
  qed
  from this [of i] this [of j] show ?case using 2 len by simp
qed

lemma get_all:
  assumes "ght_ok ht"
  shows "server_ght_get ht k = map_of (pairs (all_buckets ht)) k"
proof -
  let ?sl = "pairs (slot_buckets (ght_table ht ! ght_hash ht k))"
  have d: "distinct (map fst ?sl)" using ght_ok_slot [OF assms] by (simp add: slot_ok_def)
  have "map_of ?sl k = Some v \<longleftrightarrow> map_of (pairs (all_buckets ht)) k = Some v" for v
    using d distinct_all_keys [OF assms] set_pairs_all [OF assms] by simp
  then show ?thesis
    by (metis get_slot [OF assms] not_None_eq)
qed

lemma live_keys: "ght_ok ht \<Longrightarrow> (k, d) \<in> set (pairs (all_buckets ht)) \<Longrightarrow> k \<noteq> 0"
  using slot_keys(1) [of ht "ght_hash ht k" k d] set_pairs_all [of ht k d] ght_hash_less by blast

lemma get_empty_table:
  assumes "ght_ok ht" "ght_table ht = replicate n empty_slot"
  shows "server_ght_get ht = Map.empty"
proof
  fix k
  have "ght_hash ht k < n"
    using ght_hash_less [OF assms(1)] ght_okD(4) [OF assms(1)] assms(2) by simp
  then show "server_ght_get ht k = None" by (simp add: get_slot [OF assms(1)] assms(2))
qed

lemma ght_resize_spec:
  assumes ok: "ght_ok ht"
  shows "ght_ok (ght_resize ht n)" and "server_ght_get (ght_resize ht n) = server_ght_get ht"
    and "same_params ht (ght_resize ht n)" and "live_count (ght_resize ht n) = live_count ht"
    and "unat (ght_count (ght_resize ht n)) \<le> unat (ght_count ht)"
    and "ght_exact ht \<Longrightarrow> ght_exact (ght_resize ht n)"
    and "ght_size (ght_resize ht n) =
      (if ignore_resize ht then ght_size ht else max (min_size ht) n)"
proof -
  let ?n = "if n < min_size ht then min_size ht else n"
  let ?e = "ht\<lparr>ght_size := ?n, ght_table := replicate ?n empty_slot, ght_count := 0\<rparr>"
  let ?bs = "all_buckets ht"
  let ?same = "?n = ght_size ht \<or> ignore_resize ht"
  have "live_count ?e = 0" by (simp add: live_count_sum sum_list_replicate)
  then have eok: "ght_ok ?e" using ok by (auto simp: ght_ok_def)
  have eget: "server_ght_get ?e = Map.empty" by (rule get_empty_table [OF eok]) simp
  have lt: "length (pairs ?bs) < 2 ^ 64"
    using ght_okD(5) [OF ok] unsigned_less [of "ght_count ht", where ?'a = nat] by (simp add: live_count_def)
  have pre: "k \<noteq> 0 \<and> server_ght_get ?e k = None" if "(k, d) \<in> set (pairs ?bs)" for k d
    using live_keys [OF ok that] eget by simp
  have bound: "unat (ght_count ?e) + length (pairs ?bs) < 2 ^ 64" using lt by simp
  note r = reinsert_all_spec [OF eok distinct_all_keys [OF ok] pre bound]
  have get: "server_ght_get (reinsert_all ?e ?bs) = server_ght_get ht"
    using r(2) get_all [OF ok] by (simp add: eget fun_eq_iff)
  have par: "same_params ht (reinsert_all ?e ?bs)" using r(6) by (simp add: same_params_def)
  have lc: "live_count (reinsert_all ?e ?bs) = live_count ht"
    using r(4) \<open>live_count ?e = 0\<close> by (simp add: live_count_def)
  have cnt: "unat (ght_count (reinsert_all ?e ?bs)) = live_count ht"
    using r(3) by (simp add: live_count_def)
  have e: "ght_resize ht n = (if ?same then ht else reinsert_all ?e ?bs)"
    by (simp add: ght_resize_def Let_def)
  show "ght_ok (ght_resize ht n)" using e ok r(1) by simp
  show "server_ght_get (ght_resize ht n) = server_ght_get ht" using e get by simp
  show "same_params ht (ght_resize ht n)" using e par by simp
  show "live_count (ght_resize ht n) = live_count ht" using e lc by simp
  show "unat (ght_count (ght_resize ht n)) \<le> unat (ght_count ht)"
    using e cnt ght_okD(5) [OF ok] by simp
  show "ght_exact (ght_resize ht n)" if "ght_exact ht"
    using that e r(1) lc cnt by (simp add: ght_exact_def)
  show "ght_size (ght_resize ht n) = (if ignore_resize ht then ght_size ht else max (min_size ht) n)"
    using e r(5) by auto
qed

lemma ght_check_load_spec:
  assumes ok: "ght_ok ht"
  shows "ght_ok (ght_check_load ht)" and "server_ght_get (ght_check_load ht) = server_ght_get ht"
    and "same_params ht (ght_check_load ht)" and "live_count (ght_check_load ht) = live_count ht"
    and "unat (ght_count (ght_check_load ht)) \<le> unat (ght_count ht)"
    and "ght_exact ht \<Longrightarrow> ght_exact (ght_check_load ht)"
  using ght_resize_spec [OF ok] ok by (auto simp: ght_check_load_def)

section \<open>Deletion\<close>

lemma split_chain_Some:
  "split_chain k c = Some (pre, m) \<Longrightarrow>
    \<exists>post. c = pre @ m # post \<and> bkey m = k \<and> (\<forall>b\<in>set pre. bkey b \<noteq> k)"
proof (induction c arbitrary: pre)
  case Nil
  then show ?case by simp
next
  case (Cons b c)
  show ?case
  proof (cases "bkey b = k")
    case True
    with Cons.prems show ?thesis by auto
  next
    case False
    with Cons.prems obtain pre' where pre': "split_chain k c = Some (pre', m)" "pre = b # pre'"
      by (auto split: option.splits)
    from Cons.IH [OF this(1)] pre'(2) False show ?thesis by auto
  qed
qed

lemma split_chain_None: "split_chain k c = None \<longleftrightarrow> (\<forall>b\<in>set c. bkey b \<noteq> k)"
  by (induction c) (auto split: option.splits)

lemma pairs_key: "(k, d) \<in> set (pairs bs) \<Longrightarrow> \<exists>b\<in>set bs. bkey b = k"
  by (auto simp: pairs_def)

text \<open>
  Every deletion replaces the slot of the key by a sound one with fewer pairs, decrements the
  count and adjusts the size.
\<close>

lemma del_step:
  assumes ok: "ght_ok ht" and i: "i = ght_hash ht k"
    and sl: "slot_ok (ght_size ht) i sl"
    and less: "length (pairs (slot_buckets sl)) < length (pairs (slot_buckets (ght_table ht ! i)))"
  defines "ht1 \<equiv> ght_dec (set_slot ht i sl)"
  shows "ght_ok (ght_check_load ht1)"
    and "server_ght_get (ght_check_load ht1) k' =
      (if ght_hash ht k' = i then map_of (pairs (slot_buckets sl)) k' else server_ght_get ht k')"
    and "same_params ht (ght_check_load ht1)"
    and "Suc (length (pairs (slot_buckets sl))) = length (pairs (slot_buckets (ght_table ht ! i)))
      \<Longrightarrow> ght_exact ht \<Longrightarrow> ght_exact (ght_check_load ht1)"
    and "unat (ght_count (ght_check_load ht1)) \<le> unat (ght_count ht)"
proof -
  have i': "i < ght_size ht" using ok i by (simp add: ght_hash_less)
  have lc: "live_count ht1 + length (pairs (slot_buckets (ght_table ht ! i)))
    = live_count ht + length (pairs (slot_buckets sl))"
    using live_count_set_slot [of i ht sl] i' ok
    by (simp add: ght_okD ht1_def)
  have pos: "ght_count ht \<noteq> 0"
    using lc less ght_okD(5) [OF ok] by (auto simp: not_le)
  have cnt: "unat (ght_count ht1) = unat (ght_count ht) - 1"
    using pos by (simp add: ht1_def unat_dec)
  have ok1: "ght_ok ht1"
    by (rule ght_ok_set_slot [OF ok i' sl])
      (use lc less cnt ght_okD(5) [OF ok] in \<open>simp_all add: ht1_def\<close>)
  have get1: "server_ght_get ht1 k' =
    (if ght_hash ht k' = i then map_of (pairs (slot_buckets sl)) k' else server_ght_get ht k')"
    by (rule get_set_slot [OF ok ok1 i]) (simp_all add: ht1_def)
  have ex1: "ght_exact ht1" if "ght_exact ht"
    "Suc (length (pairs (slot_buckets sl))) = length (pairs (slot_buckets (ght_table ht ! i)))"
    using that ok1 lc cnt by (auto simp: ght_exact_def)
  have "same_params ht ht1" by (simp add: ht1_def same_params_def)
  then show "ght_ok (ght_check_load ht1)" "same_params ht (ght_check_load ht1)"
    "server_ght_get (ght_check_load ht1) k' =
      (if ght_hash ht k' = i then map_of (pairs (slot_buckets sl)) k' else server_ght_get ht k')"
    using ght_check_load_spec [OF ok1] get1 by (auto intro: same_params_trans)
  show "unat (ght_count (ght_check_load ht1)) \<le> unat (ght_count ht)"
    using ght_check_load_spec(5) [OF ok1] cnt by simp
  show "ght_exact (ght_check_load ht1)"
    if "Suc (length (pairs (slot_buckets sl))) = length (pairs (slot_buckets (ght_table ht ! i)))"
      "ght_exact ht"
    using ght_check_load_spec(6) [OF ok1] ex1 that by simp
qed

text \<open>
  The slot that deletion leaves behind: without the array bucket, or cut off at the matching
  heap bucket.
\<close>

definition slot_without :: "u64 \<Rightarrow> 'v ght_slot \<Rightarrow> 'v ght_slot" where
  "slot_without k sl =
     (if bkey (fst sl) = k
      then (case snd sl of [] \<Rightarrow> empty_slot | next # rest \<Rightarrow> (next\<lparr>inheap := 0\<rparr>, rest))
      else (case split_chain k (snd sl) of None \<Rightarrow> sl | Some (pre, _) \<Rightarrow> (fst sl, pre)))"

text \<open>No heap bucket follows the one that holds the key.\<close>

definition del_safe :: "'v server_ght \<Rightarrow> u64 \<Rightarrow> bool" where
  "del_safe ht k =
     (let sl = ght_table ht ! ght_hash ht k
      in bkey (fst sl) = k \<or> (snd sl \<noteq> [] \<and> bkey (last (snd sl)) = k))"

lemma slot_without_ok:
  assumes ok: "slot_ok n i sl" and k: "map_of (pairs (slot_buckets sl)) k \<noteq> None"
  shows "slot_ok n i (slot_without k sl)"
    and "length (pairs (slot_buckets (slot_without k sl))) < length (pairs (slot_buckets sl))"
    and "set (pairs (slot_buckets (slot_without k sl))) \<subseteq> set (pairs (slot_buckets sl))"
    and "k \<notin> fst ` set (pairs (slot_buckets (slot_without k sl)))"
proof -
  obtain b c where sl: "sl = (b, c)" by fastforce
  have c: "list_all (\<lambda>b. bdata b \<noteq> None \<and> inheap b = -1) c" using ok by (simp add: sl slot_ok_def)
  have b: "bdata b \<noteq> None" using ok k by (auto simp: sl slot_ok_def empty_slot_def)
  have "slot_ok n i (slot_without k sl) \<and>
    length (pairs (slot_buckets (slot_without k sl))) < length (pairs (slot_buckets sl)) \<and>
    set (pairs (slot_buckets (slot_without k sl))) \<subseteq> set (pairs (slot_buckets sl)) \<and>
    k \<notin> fst ` set (pairs (slot_buckets (slot_without k sl)))"
  proof (cases "bkey b = k")
    case True
    then show ?thesis
      using ok b c
      by (cases c) (auto simp: sl slot_without_def slot_ok_def split: option.splits)
  next
    case False
    have "\<exists>x\<in>set c. bkey x = k"
      using k False b by (auto simp: sl dest!: map_of_SomeD pairs_key)
    then obtain pre m where sp: "split_chain k c = Some (pre, m)"
      by (metis not_None_eq split_chain_None surj_pair)
    then obtain post where post: "c = pre @ m # post" "bkey m = k" "\<forall>b\<in>set pre. bkey b \<noteq> k"
      using split_chain_Some by blast
    with c obtain d where "bdata m = Some d" by auto
    then show ?thesis
      using ok b post False sp pairs_key [of k _ pre]
      by (auto simp: sl slot_without_def slot_ok_def split: option.splits)
  qed
  then show "slot_ok n i (slot_without k sl)"
    "length (pairs (slot_buckets (slot_without k sl))) < length (pairs (slot_buckets sl))"
    "set (pairs (slot_buckets (slot_without k sl))) \<subseteq> set (pairs (slot_buckets sl))"
    "k \<notin> fst ` set (pairs (slot_buckets (slot_without k sl)))"
    by blast+
qed

lemma server_ght_del_absent:
  assumes ok: "ght_ok ht" and "k \<noteq> 0" "server_ght_get ht k = None"
  shows "server_ght_del ht k = (ht, False, [])"
proof -
  obtain b c where bc: "ght_table ht ! ght_hash ht k = (b, c)" by fastforce
  have "slot_ok (ght_size ht) (ght_hash ht k) (b, c)"
    using ght_ok_slot [OF ok, of k] bc by simp
  moreover have "map_of (pairs (b # c)) k = None"
    using assms(3) get_slot [OF ok, of k] by (simp add: bc)
  ultimately have "bkey b \<noteq> k \<and> (\<forall>x\<in>set c. bkey x \<noteq> k)"
    using assms(2)
    by (auto simp: slot_ok_def empty_slot_def list_all_iff pairs_def map_of_eq_None_iff image_image
        split: option.splits)
  then show ?thesis
    using split_chain_None [of k c] by (simp add: server_ght_del_def bc)
qed

text \<open>
  Deleting a key that is in the table writes the slot of \<open>slot_without\<close> and hands the
  data of the key to the free callback.
\<close>

lemma server_ght_del_present:
  assumes ok: "ght_ok ht" and get: "server_ght_get ht k = Some d"
  defines "i \<equiv> ght_hash ht k"
  shows "server_ght_del ht k =
    (ght_check_load (ght_dec (set_slot ht i (slot_without k (ght_table ht ! i)))), True,
     if has_free ht then [d] else [])"
proof -
  obtain b c where bc: "ght_table ht ! i = (b, c)" by fastforce
  have sok: "slot_ok (ght_size ht) i (b, c)"
    using ght_ok_slot [OF ok, of k] bc by (simp add: i_def)
  have m: "map_of (pairs (b # c)) k = Some d"
    using get get_slot [OF ok, of k] bc by (simp add: i_def)
  have b: "bdata b \<noteq> None" "inheap b = 0"
    using sok m by (auto simp: slot_ok_def empty_slot_def)
  show ?thesis
  proof (cases "bkey b = k")
    case True
    then have "bdata b = Some d" using m b by auto
    with True b show ?thesis
      by (auto simp: server_ght_del_def bc ght_del_bucket_def freed_def slot_without_def
          Let_def i_def [symmetric] split: list.splits)
  next
    case False
    have c: "list_all (\<lambda>b. bdata b \<noteq> None \<and> inheap b = -1) c" using sok by (simp add: slot_ok_def)
    have mc: "map_of (pairs c) k = Some d" using m False b by auto
    then have "\<exists>x\<in>set c. bkey x = k" by (blast dest: map_of_SomeD pairs_key)
    then obtain pre x where sp: "split_chain k c = Some (pre, x)"
      by (metis not_None_eq split_chain_None surj_pair)
    then obtain post where post: "c = pre @ x # post" "bkey x = k" "\<forall>b\<in>set pre. bkey b \<noteq> k"
      using split_chain_Some by blast
    have "bdata x = Some d"
      using mc post c pairs_key [of k _ pre]
      by (auto simp: map_add_def map_of_eq_None_iff split: option.splits dest!: map_of_SomeD)
    with False sp show ?thesis
      by (auto simp: server_ght_del_def bc ght_del_bucket_def freed_def slot_without_def
          Let_def i_def [symmetric] set_slot_def)
  qed
qed

text \<open>A safe deletion removes exactly one pair.\<close>

lemma slot_without_safe:
  assumes ok: "slot_ok n i sl" and k: "map_of (pairs (slot_buckets sl)) k = Some d"
    and safe: "bkey (fst sl) = k \<or> (snd sl \<noteq> [] \<and> bkey (last (snd sl)) = k)"
  shows "\<exists>xs ys. pairs (slot_buckets sl) = xs @ (k, d) # ys \<and>
    pairs (slot_buckets (slot_without k sl)) = xs @ ys"
proof -
  obtain b c where sl: "sl = (b, c)" by fastforce
  obtain e where e: "bdata b = Some e" using ok k by (auto simp: sl slot_ok_def empty_slot_def)
  show ?thesis
  proof (cases "bkey b = k")
    case True
    with e k have "e = d" by (simp add: sl)
    moreover have "pairs (slot_buckets (slot_without k sl)) = pairs c"
      using True by (cases c) (auto simp: sl slot_without_def split: option.splits)
    ultimately have "pairs (slot_buckets sl) = [] @ (k, d) # pairs c \<and>
      pairs (slot_buckets (slot_without k sl)) = [] @ pairs c"
      using True e by (simp add: sl)
    then show ?thesis by blast
  next
    case False
    then have last: "c \<noteq> []" "bkey (last c) = k" using safe by (simp_all add: sl)
    then obtain pre m where sp: "split_chain k c = Some (pre, m)"
      by (metis last_in_set not_None_eq split_chain_None surj_pair)
    then obtain post where post: "c = pre @ m # post" "bkey m = k" "\<forall>b\<in>set pre. bkey b \<noteq> k"
      using split_chain_Some by blast
    have data: "bdata x \<noteq> None" if "x \<in> set c" for x
      using ok that by (auto simp: sl slot_ok_def list_all_iff)
    have "post = []"
    proof (rule ccontr)
      assume ne: "post \<noteq> []"
      then have "last c = last post" "last post \<in> set post" using post(1) by simp_all
      then have "(k, the (bdata (last c))) \<in> set (pairs post)"
        using last(2) data [of "last c"] post(1) by (force simp: pairs_def)
      moreover have "bdata m \<noteq> None" using data [of m] post(1) by simp
      ultimately have "\<not> distinct (map fst (pairs (m # post)))"
        using post(2) by (force split: option.splits)
      moreover have "pairs (b # c) = pairs (b # pre) @ pairs (m # post)"
        using post(1) e by simp
      ultimately show False using ok by (simp add: sl slot_ok_def del: pairs_simps)
    qed
    obtain e' where e': "bdata m = Some e'" using data [of m] post(1) by auto
    have "pairs (b # c) = pairs (b # pre) @ [(k, e')]"
      using post(1,2) e' \<open>post = []\<close> e by simp
    moreover from this have "(k, e') \<in> set (pairs (slot_buckets sl))" by (simp add: sl del: pairs_simps)
    then have "e' = d"
      using k ok map_of_is_SomeI [of "pairs (slot_buckets sl)" k e'] by (simp add: slot_ok_def)
    ultimately have "pairs (slot_buckets sl) = pairs (b # pre) @ (k, d) # [] \<and>
      pairs (slot_buckets (slot_without k sl)) = pairs (b # pre) @ []"
      using False sp by (simp add: sl slot_without_def)
    then show ?thesis by blast
  qed
qed

lemma map_of_remove1:
  "distinct (map fst (xs @ (k, d) # ys)) \<Longrightarrow> map_of (xs @ ys) = (map_of (xs @ (k, d) # ys))(k := None)"
proof (induction xs)
  case Nil
  then show ?case by (auto simp: fun_eq_iff map_of_eq_None_iff)
next
  case (Cons p xs)
  then show ?case by (cases p) (force simp: fun_upd_twist)
qed

lemma server_ght_del_spec:
  assumes ok: "ght_ok ht" and get: "server_ght_get ht k = Some d"
  obtains ht' where "server_ght_del ht k = (ht', True, if has_free ht then [d] else [])"
    and "ght_ok ht'" and "same_params ht ht'" and "server_ght_get ht' k = None"
    and "unat (ght_count ht') \<le> unat (ght_count ht)"
    and "server_ght_get ht' \<subseteq>\<^sub>m server_ght_get ht"
    and "\<And>k'. ght_hash ht k' \<noteq> ght_hash ht k \<Longrightarrow> server_ght_get ht' k' = server_ght_get ht k'"
    and "del_safe ht k \<Longrightarrow> server_ght_get ht' = (server_ght_get ht)(k := None)"
    and "del_safe ht k \<Longrightarrow> ght_exact ht \<Longrightarrow> ght_exact ht'"
proof -
  define i where "i = ght_hash ht k"
  define sl where "sl = ght_table ht ! i"
  define ht' where "ht' = ght_check_load (ght_dec (set_slot ht i (slot_without k sl)))"
  have sok: "slot_ok (ght_size ht) i sl" using ght_ok_slot [OF ok, of k] by (simp add: i_def sl_def)
  have m: "map_of (pairs (slot_buckets sl)) k \<noteq> None"
    using get get_slot [OF ok, of k] by (simp add: i_def sl_def)
  note w = slot_without_ok [OF sok m]
  have less: "length (pairs (slot_buckets (slot_without k sl)))
    < length (pairs (slot_buckets (ght_table ht ! i)))" using w(2) by (simp add: sl_def)
  note st = del_step [OF ok i_def w(1) less, folded ht'_def]
  have d0: "distinct (map fst (pairs (slot_buckets sl)))" using sok by (simp add: slot_ok_def)
  have d1: "distinct (map fst (pairs (slot_buckets (slot_without k sl))))"
    using w(1) by (simp add: slot_ok_def)
  have sub: "map_of (pairs (slot_buckets (slot_without k sl))) \<subseteq>\<^sub>m map_of (pairs (slot_buckets sl))"
    using w(3) d0 d1 by (auto simp: map_le_def dom_def)
  have gi: "server_ght_get ht k' = map_of (pairs (slot_buckets sl)) k'" if "ght_hash ht k' = i" for k'
    using that get_slot [OF ok, of k'] by (simp add: sl_def)
  have r1: "server_ght_get ht' k = None"
    using st(2) w(4) by (simp add: i_def [symmetric] map_of_eq_None_iff)
  have r2: "server_ght_get ht' \<subseteq>\<^sub>m server_ght_get ht"
    using sub st(2) gi by (auto simp: map_le_def dom_def)
  have r3: "server_ght_get ht' k' = server_ght_get ht k'" if "ght_hash ht k' \<noteq> ght_hash ht k" for k'
    using that st(2) by (simp add: i_def)
  have safe: "map_of (pairs (slot_buckets (slot_without k sl))) =
      (map_of (pairs (slot_buckets sl)))(k := None) \<and>
    Suc (length (pairs (slot_buckets (slot_without k sl)))) = length (pairs (slot_buckets sl))"
    if "del_safe ht k"
  proof -
    have "map_of (pairs (slot_buckets sl)) k = Some d" using get gi [of k] by (simp add: i_def)
    moreover have "bkey (fst sl) = k \<or> (snd sl \<noteq> [] \<and> bkey (last (snd sl)) = k)"
      using that by (simp add: del_safe_def sl_def i_def Let_def)
    ultimately obtain xs ys where xy: "pairs (slot_buckets sl) = xs @ (k, d) # ys"
      "pairs (slot_buckets (slot_without k sl)) = xs @ ys"
      using slot_without_safe [OF sok] by blast
    with d0 map_of_remove1 [of xs k d ys] show ?thesis by simp
  qed
  have r4: "server_ght_get ht' = (server_ght_get ht)(k := None)" if "del_safe ht k"
  proof
    show "server_ght_get ht' k' = ((server_ght_get ht)(k := None)) k'" for k'
      using safe [OF that] st(2) [of k'] gi [of k'] by (auto simp: i_def)
  qed
  have r5: "ght_exact ht'" if "del_safe ht k" "ght_exact ht"
    using st(4) safe [OF that(1)] that(2) by (simp add: sl_def)
  have "server_ght_del ht k = (ht', True, if has_free ht then [d] else [])"
    using server_ght_del_present [OF ok get] by (simp add: ht'_def i_def sl_def)
  then show thesis
    using that st(1,3,5) r1 r2 r3 r4 r5 by blast
qed

section \<open>The exported insertion and the load factor\<close>

lemma server_ght_insert_absent:
  assumes ok: "ght_ok ht" and k: "k \<noteq> 0" "server_ght_get ht k = None" and room: "ght_room ht"
  obtains ht' where "server_ght_insert ht k (Some d) = (ht', True)" "ght_ok ht'"
    "server_ght_get ht' = (server_ght_get ht)(k \<mapsto> d)" "same_params ht ht'"
    "live_count ht' = Suc (live_count ht)" "unat (ght_count ht') \<le> Suc (unat (ght_count ht))"
    "ght_exact ht \<Longrightarrow> ght_exact ht'"
proof -
  obtain h where h: "ght_insert ht k d = (h, True)" "ght_ok h"
    "server_ght_get h = (server_ght_get ht)(k \<mapsto> d)"
    "ght_count h = ght_count ht + 1" "live_count h = Suc (live_count ht)" "same_params ht h"
    using ght_insert_absent [OF ok k room, of d] by blast
  have cnt: "unat (ght_count h) = Suc (unat (ght_count ht))"
    using h(4) room by (simp add: ght_room_def unat_inc)
  note c = ght_check_load_spec [OF h(2)]
  have "server_ght_insert ht k (Some d) = (ght_check_load h, True)"
    by (simp add: server_ght_insert_def h(1))
  moreover have "ght_exact (ght_check_load h)" if "ght_exact ht"
    using that c(6) h(2,5) cnt by (simp add: ght_exact_def)
  moreover have "same_params ht (ght_check_load h)" using c(3) h(6) same_params_trans by blast
  ultimately show thesis using that c(1,2,4,5) h(3,5) cnt by simp
qed

lemma server_ght_insert_present:
  "ght_ok ht \<Longrightarrow> k \<noteq> 0 \<Longrightarrow> server_ght_get ht k \<noteq> None \<Longrightarrow>
    server_ght_insert ht k (Some d) = (ht, False)"
  by (simp add: server_ght_insert_def ght_insert_present)

text \<open>
  A table with the default limits is never more than 70 percent full. The bound \<open>2 ^ 21\<close> on
  the number of slots keeps the single-precision comparison exact.
\<close>

definition default_limits :: "'v server_ght \<Rightarrow> bool" where
  "default_limits ht \<longleftrightarrow> max_load ht = f32_0_7 \<and> min_load ht = f32_0_2 \<and> \<not> ignore_resize ht"

definition load_bounded :: "'v server_ght \<Rightarrow> bool" where
  "load_bounded ht \<longleftrightarrow> 10 * unat (ght_count ht) \<le> 7 * ght_size ht"

lemma same_params_limits: "same_params ht ht' \<Longrightarrow> default_limits ht' = default_limits ht"
  by (simp add: default_limits_def same_params_def)

lemma half_full:
  "10 * c \<le> 7 * n + 10 \<Longrightarrow> 0 < n \<Longrightarrow> n * 2 \<le> n' \<Longrightarrow> c' \<le> c \<Longrightarrow> 10 * c' \<le> 7 * (n'::nat)"
proof (cases "n = 1")
  case True
  assume a: "10 * c \<le> 7 * n + 10" "n * 2 \<le> n'" "c' \<le> c"
  then have "c \<le> 1" using True by simp
  then show ?thesis using a True by linarith
next
  case False
  assume "10 * c \<le> 7 * n + 10" "0 < n" "n * 2 \<le> n'" "c' \<le> c"
  moreover from this False have "2 \<le> n" by simp
  ultimately show ?thesis by linarith
qed

lemma check_load_bounded:
  assumes ok: "ght_ok h" and lim: "default_limits h" and size: "ght_size h < 2 ^ 21"
    and ld: "load h = f32_div (f32_of_nat (unat (ght_count h))) (f32_of_nat (ght_size h))"
    and cnt: "10 * unat (ght_count h) \<le> 7 * ght_size h + 10"
  shows "load_bounded (ght_check_load h)"
proof -
  have s: "0 < ght_size h" "ght_size h < 2 ^ 22" using ok size by (simp_all add: ght_okD)
  have ld': "load h = f32_div (unat (ght_count h)) (ght_size h)"
    using ld cnt size by (simp add: f32_of_nat_exact)
  have lim': "max_load h = f32_0_7" "min_load h = f32_0_2" "\<not> ignore_resize h"
    using lim by (simp_all add: default_limits_def)
  note r = ght_resize_spec(5,7) [OF ok]
  note cmp = f32_over_0_7 [OF s, of "unat (ght_count h)"] f32_under_0_2 [OF s, of "unat (ght_count h)"]
  show ?thesis
  proof (cases "7 * ght_size h < 10 * unat (ght_count h)")
    case True
    then have "ght_check_load h = ght_resize h (ght_size h * 2)"
      using cmp(1) by (simp add: ght_check_load_def ld' lim')
    moreover have "ght_size h * 2 \<le> ght_size (ght_resize h (ght_size h * 2))"
      using r(2) [of "ght_size h * 2"] lim'(3) by simp
    ultimately show ?thesis using half_full [OF cnt s(1) _ r(1)]
      by (simp add: load_bounded_def)
  next
    case False
    show ?thesis
    proof (cases "5 * unat (ght_count h) < ght_size h")
      case True
      then have "ght_check_load h = ght_resize h (ght_size h div 2)"
        using cmp False by (simp add: ght_check_load_def ld' lim')
      moreover have "ght_size h div 2 \<le> ght_size (ght_resize h (ght_size h div 2))"
        using r(2) [of "ght_size h div 2"] lim'(3) by simp
      ultimately show ?thesis using r(1) [of "ght_size h div 2"] True
        by (simp add: load_bounded_def)
    next
      case False2: False
      then have "ght_check_load h = h" using cmp False by (simp add: ght_check_load_def ld' lim')
      then show ?thesis using False by (simp add: load_bounded_def)
    qed
  qed
qed

lemma insert_load_bounded:
  assumes ok: "ght_ok ht" and lim: "default_limits ht" and size: "ght_size ht < 2 ^ 21"
    and b: "load_bounded ht" and k: "k \<noteq> 0"
  shows "load_bounded (fst (server_ght_insert ht k v))"
proof (cases "v = None \<or> server_ght_get ht k \<noteq> None")
  case True
  then show ?thesis
    using b k server_ght_insert_present [OF ok, of k]
    by (cases v) (auto simp: server_ght_insert_def [of _ _ None])
next
  case False
  then obtain d where d: "v = Some d" by auto
  have "unat (ght_count ht) < 2 ^ 21" using b size by (simp add: load_bounded_def)
  then have room: "ght_room ht" by (auto simp: ght_room_def unat_max)
  from False have "server_ght_get ht k = None" by simp
  with ok k room obtain h where h: "ght_insert ht k d = (h, True)" "ght_ok h"
    "ght_count h = ght_count ht + 1" "ght_size h = ght_size ht" "same_params ht h"
    "load h = f32_div (f32_of_nat (unat (ght_count h))) (f32_of_nat (ght_size h))"
    by (elim ght_insert_absent [of ht k d])
  have "unat (ght_count h) = Suc (unat (ght_count ht))"
    using h(3) room by (simp add: ght_room_def unat_inc)
  then have "load_bounded (ght_check_load h)"
    using check_load_bounded [OF h(2) _ _ h(6)] same_params_limits [OF h(5)] lim size h(4) b
    by (simp add: load_bounded_def)
  then show ?thesis by (simp add: server_ght_insert_def d h(1))
qed

lemma del_load_bounded:
  assumes ok: "ght_ok ht" and lim: "default_limits ht" and size: "ght_size ht < 2 ^ 21"
    and b: "load_bounded ht" and k: "k \<noteq> 0"
  shows "load_bounded (fst (server_ght_del ht k))"
proof (cases "server_ght_get ht k")
  case None
  then show ?thesis using server_ght_del_absent [OF ok k] b by simp
next
  case (Some d)
  define i where "i = ght_hash ht k"
  define sl where "sl = ght_table ht ! i"
  define h where "h = ght_dec (set_slot ht i (slot_without k sl))"
  have i: "i < ght_size ht" using ok by (simp add: i_def ght_hash_less)
  have sok: "slot_ok (ght_size ht) i sl" using ght_ok_slot [OF ok, of k] by (simp add: i_def sl_def)
  have m: "map_of (pairs (slot_buckets sl)) k \<noteq> None"
    using Some get_slot [OF ok, of k] by (simp add: i_def sl_def)
  note w = slot_without_ok [OF sok m]
  have lc: "live_count h + length (pairs (slot_buckets sl))
    = live_count ht + length (pairs (slot_buckets (slot_without k sl)))"
    using live_count_set_slot [of i ht "slot_without k sl"] i ok
    by (simp add: ght_okD sl_def h_def)
  have pos: "ght_count ht \<noteq> 0" using lc w(2) ght_okD(5) [OF ok] by auto
  then have cnt: "unat (ght_count h) = unat (ght_count ht) - 1" by (simp add: h_def unat_dec)
  have hok: "ght_ok h"
    by (rule ght_ok_set_slot [OF ok i w(1)])
      (use lc w(2) cnt ght_okD(5) [OF ok] in \<open>simp_all add: h_def\<close>)
  have "load_bounded (ght_check_load h)"
  proof (rule check_load_bounded [OF hok])
    show "default_limits h" using lim by (simp add: h_def default_limits_def)
    show "ght_size h < 2 ^ 21" using size by (simp add: h_def)
    show "load h = f32_div (f32_of_nat (unat (ght_count h))) (f32_of_nat (ght_size h))"
      by (simp add: h_def ght_dec_def ght_calc_load_def)
    show "10 * unat (ght_count h) \<le> 7 * ght_size h + 10"
      using b cnt by (simp add: load_bounded_def h_def)
  qed
  then show ?thesis
    using server_ght_del_present [OF ok Some] by (simp add: h_def sl_def i_def)
qed

section \<open>The table interface\<close>

definition ght_room_for :: "'v server_ght \<Rightarrow> nat \<Rightarrow> bool" where
  "ght_room_for ht n \<longleftrightarrow> unat (ght_count ht) + n < 2 ^ 64"

lemma room_for_room: "ght_room_for ht (Suc n) \<Longrightarrow> ght_room ht"
  by (auto simp: ght_room_for_def ght_room_def unat_max)

interpretation ght: keyed_table server_ght_insert server_ght_get server_ght_del ght_ok
  ght_room_for "\<lambda>k. k \<noteq> 0"
proof (unfold_locales, goal_cases)
  case (1 t k n v)
  from 1(4) have room: "ght_room t" by (rule room_for_room)
  obtain t' where "server_ght_insert t k (Some v) = (t', True)" "ght_ok t'"
    "server_ght_get t' = (server_ght_get t)(k \<mapsto> v)"
    "unat (ght_count t') \<le> Suc (unat (ght_count t))"
    using server_ght_insert_absent [OF 1(1,2,3) room, of v] by blast
  then show ?case using 1(4) by (auto simp: ght_room_for_def)
next
  case (5 t k v n)
  obtain t' where "server_ght_del t k = (t', True, if has_free t then [v] else [])" "ght_ok t'"
    "server_ght_get t' k = None" "server_ght_get t' \<subseteq>\<^sub>m server_ght_get t"
    "unat (ght_count t') \<le> unat (ght_count t)"
    using server_ght_del_spec [OF 5(1,3)] by blast
  then show ?case using 5(4) by (auto simp: ght_room_for_def)
next
  case (2 t k v)
  then show ?case by (rule server_ght_insert_present)
qed (simp_all add: server_ght_insert_def server_ght_del_absent ght_room_for_def)

interpretation ght_exact: exact_table server_ght_insert server_ght_get server_ght_del ght_ok
  ght_room_for "\<lambda>k. k \<noteq> 0" del_safe
proof unfold_locales
  fix t :: "'a server_ght" and k v
  assume "ght_ok t" "del_safe t k" "server_ght_get t k = Some v"
  then show "server_ght_get (fst (server_ght_del t k)) = (server_ght_get t)(k := None)"
    using server_ght_del_spec [of t k v] by (metis fst_conv)
qed

section \<open>Properties\<close>

text \<open>
  C6. Insertion into a sound table: a fresh non-zero key is added and found with its data, every
  other lookup is unchanged, and a key that is present (or a \<^verbatim>\<open>NULL\<close> datum) is refused and
  changes nothing; the invariant is kept whether or not the table was resized.
\<close>

theorem server_ght_insert_lookup:
  assumes "ght_ok ht" "k \<noteq> 0" "ght_room ht"
  shows "ght_ok (fst (server_ght_insert ht k v)) \<and>
    snd (server_ght_insert ht k v) = (v \<noteq> None \<and> server_ght_get ht k = None) \<and>
    server_ght_get (fst (server_ght_insert ht k v)) = map_step (Table_insert k v) (server_ght_get ht) \<and>
    (server_ght_get ht k \<noteq> None \<longrightarrow> fst (server_ght_insert ht k v) = ht)"
proof (cases "v = None \<or> server_ght_get ht k \<noteq> None")
  case True
  then have "server_ght_insert ht k v = (ht, False)"
    using server_ght_insert_present [OF assms(1,2)] by (cases v) (auto simp: ght.insert_null)
  with True assms show ?thesis by (auto simp: map_step_def)
next
  case False
  then obtain d where d: "v = Some d" "server_ght_get ht k = None" by auto
  obtain ht' where "server_ght_insert ht k (Some d) = (ht', True)" "ght_ok ht'"
    "server_ght_get ht' = (server_ght_get ht)(k \<mapsto> d)"
    using server_ght_insert_absent [OF assms(1,2) d(2) assms(3), of d] by blast
  with d show ?thesis by (simp add: map_step_def)
qed

definition demo_table :: "nat server_ght" where
  "demo_table =
     \<lparr>ght_table =
        [(empty_bucket, []),
         (\<lparr>bkey = 1, bdata = Some 10, inheap = 0\<rparr>,
          [\<lparr>bkey = 5, bdata = Some 50, inheap = -1\<rparr>, \<lparr>bkey = 9, bdata = Some 90, inheap = -1\<rparr>]),
         (empty_bucket, []), (empty_bucket, [])],
      ght_size = 4, min_size = 4, ght_count = 3, ignore_resize = False, has_free = True,
      load = f32_div 3 4, max_load = f32_0_7, min_load = f32_0_2\<rparr>"

lemma less_4: "(i::nat) < 4 \<longleftrightarrow> i = 0 \<or> i = 1 \<or> i = 2 \<or> i = 3"
  by auto

lemma all_less_4: "(\<forall>i<4. P (i::nat)) \<longleftrightarrow> P 0 \<and> P 1 \<and> P 2 \<and> P 3"
  by (auto simp: less_4)

lemma demo_table_ok: "ght_exact demo_table"
  by (auto simp: ght_exact_def ght_ok_def demo_table_def less_4 slot_ok_def live_count_def
      all_buckets_def empty_slot_def)

lemma demo_table_get:
  "server_ght_get demo_table 1 = Some 10" "server_ght_get demo_table 5 = Some 50"
  "server_ght_get demo_table 9 = Some 90" "server_ght_get demo_table 2 = None"
  "ght_room demo_table"
  by (simp_all add: server_ght_get_def demo_table_def ght_hash_def ght_room_def)

theorem server_ght_insert_lookup_witness:
  "server_ght_get (fst (server_ght_insert demo_table 2 (Some 20))) 2 = Some 20 \<and>
   fst (server_ght_insert demo_table 9 (Some 91)) = demo_table"
  using server_ght_insert_lookup [of demo_table 2 "Some 20"]
    server_ght_insert_lookup [of demo_table 9 "Some 91"] demo_table_ok demo_table_get
  by (simp add: ght_exact_def map_step_def)

text \<open>
  C7. Resizing a sound table to any size keeps it sound and changes no lookup and no element
  count, whatever the old and new slots of the keys are.
\<close>

theorem ght_resize_transparent:
  assumes "ght_ok ht"
  shows "ght_ok (ght_resize ht n) \<and> server_ght_get (ght_resize ht n) = server_ght_get ht \<and>
    live_count (ght_resize ht n) = live_count ht \<and>
    (\<not> ignore_resize ht \<longrightarrow> ght_size (ght_resize ht n) = max (min_size ht) n)"
  using ght_resize_spec [OF assms] by simp

theorem ght_resize_transparent_witness:
  "server_ght_get (ght_resize demo_table 8) 9 = Some 90 \<and> ght_size (ght_resize demo_table 8) = 8"
  using ght_resize_transparent [of demo_table 8] demo_table_ok demo_table_get
  by (simp add: ght_exact_def demo_table_def)

text \<open>
  C8. A deleted key stays gone: after \<^verbatim>\<open>server_ght_del\<close>, no sequence of insertions and
  deletions of non-zero keys that does not insert the key again makes a lookup find it, across
  all the resizes that the sequence causes.
\<close>

theorem server_ght_deleted_stays_gone:
  assumes "ght_ok ht" "k \<noteq> 0" "ght_room_for ht (length ops)"
    and "\<forall>op\<in>set ops. op_key op \<noteq> 0 \<and> (\<forall>v. op \<noteq> Table_insert k v)"
  shows "server_ght_get
    (fold (table_step server_ght_insert server_ght_del) ops (fst (server_ght_del ht k))) k = None"
  using assms by (rule ght.deleted_stays_gone)

theorem server_ght_deleted_stays_gone_witness:
  "server_ght_get
    (fold (table_step server_ght_insert server_ght_del)
      [Table_insert 2 (Some 7), Table_del 1, Table_insert 13 (Some 8)]
      (fst (server_ght_del demo_table 5))) 5 = None"
  by (rule server_ght_deleted_stays_gone)
    (use demo_table_ok in \<open>simp_all add: ght_exact_def ght_room_for_def demo_table_def\<close>)

text \<open>
  C9. Deletion implements map deletion when no heap bucket follows the one it unlinks: exactly
  the key is removed, the element count stays exact, and the free callback gets the datum once.
\<close>

theorem server_ght_del_refines:
  assumes "ght_exact ht" "k \<noteq> 0" "server_ght_get ht k \<noteq> None \<longrightarrow> del_safe ht k"
  shows "ght_exact (fst (server_ght_del ht k)) \<and>
    server_ght_get (fst (server_ght_del ht k)) = map_step (Table_del k) (server_ght_get ht) \<and>
    fst (snd (server_ght_del ht k)) = (server_ght_get ht k \<noteq> None) \<and>
    snd (snd (server_ght_del ht k)) = freed ht (server_ght_get ht k)"
proof (cases "server_ght_get ht k")
  case None
  moreover from this have "(server_ght_get ht)(k := None) = server_ght_get ht" by auto
  moreover have "ght_ok ht" using assms(1) by (simp add: ght_exact_def)
  ultimately show ?thesis
    using server_ght_del_absent [of ht k] assms by (simp add: map_step_def freed_def)
next
  case (Some d)
  have "ght_ok ht" using assms(1) by (simp add: ght_exact_def)
  from this Some show ?thesis
    by (rule server_ght_del_spec) (use Some assms in \<open>auto simp: map_step_def freed_def\<close>)
qed

theorem server_ght_del_refines_witness:
  "server_ght_get (fst (server_ght_del demo_table 9)) 5 = Some 50 \<and>
   server_ght_get (fst (server_ght_del demo_table 9)) 9 = None \<and>
   snd (snd (server_ght_del demo_table 9)) = [90]"
  using server_ght_del_refines [of demo_table 9] demo_table_ok demo_table_get
  by (simp add: map_step_def freed_def del_safe_def demo_table_def ght_hash_def)

lemma split_chain_append:
  "\<forall>b\<in>set pre. bkey b \<noteq> k \<Longrightarrow> bkey m = k \<Longrightarrow> split_chain k (pre @ m # post) = Some (pre, m)"
  by (induction pre) auto

lemma chain_facts:
  assumes ok: "slot_ok n i (b, pre @ m # post)" and x: "x \<in> set post"
  shows "bkey m \<noteq> 0" "bkey b \<noteq> bkey m" "\<forall>y\<in>set pre. bkey y \<noteq> bkey m"
    "unat (bkey m) mod n = i" "unat (bkey x) mod n = i" "bdata x \<noteq> None" "bkey x \<noteq> bkey m"
    "map_of (pairs (b # pre @ m # post)) (bkey x) = bdata x"
    "map_of (pairs (b # pre @ m # post)) (bkey m) \<noteq> None"
    "map_of (pairs (b # pre)) (bkey x) = None"
proof -
  have key: "(bkey y, the (bdata y)) \<in> set (pairs ys)" if "y \<in> set ys" "bdata y \<noteq> None" for y ys
    using that by (auto simp: pairs_def)
  have c: "bdata y \<noteq> None" if "y \<in> set pre \<union> {m} \<union> set post" for y
    using ok that by (auto simp: slot_ok_def list_all_iff)
  have b: "bdata b \<noteq> None" using ok by (auto simp: slot_ok_def empty_slot_def)
  let ?all = "pairs (b # pre @ m # post)"
  have parts: "?all = (bkey b, the (bdata b)) # pairs pre @ (bkey m, the (bdata m)) # pairs post"
    using b c [of m] by auto
  have d: "distinct (map fst ?all)" and all: "\<forall>p\<in>set ?all. fst p \<noteq> 0 \<and> unat (fst p) mod n = i"
    using ok by (auto simp: slot_ok_def list_all_iff simp del: pairs_simps)
  have kx: "(bkey x, the (bdata x)) \<in> set (pairs post)" using key [OF x] c [of x] x by blast
  have ky: "bkey y \<in> fst ` set (pairs pre)" if "y \<in> set pre" for y
    using key [OF that] c that by (force intro: rev_image_eqI)
  have fx: "bkey x \<in> fst ` set (pairs post)" using kx by (force intro: rev_image_eqI)
  note d' = d [unfolded parts] and all' = all [unfolded parts]
  show "bkey m \<noteq> 0" "unat (bkey m) mod n = i" "bkey b \<noteq> bkey m" using d' all' by auto
  have "bkey m \<notin> fst ` set (pairs pre)" using d' by auto
  then show "\<forall>y\<in>set pre. bkey y \<noteq> bkey m" using ky by metis
  show "unat (bkey x) mod n = i" 
    using bspec [OF all', of "(bkey x, the (bdata x))"] kx by simp
  show "bdata x \<noteq> None" using c x by simp
  have "bkey m \<notin> fst ` set (pairs post)" using d' by simp
  then show "bkey x \<noteq> bkey m" using fx by metis
  show "map_of ?all (bkey x) = bdata x"
  proof -
    have "(bkey x, the (bdata x)) \<in> set ?all" unfolding parts using kx by simp
    then show ?thesis using map_of_is_SomeI [OF d] \<open>bdata x \<noteq> None\<close> by auto
  qed
  have "bkey m \<in> fst ` set ?all" unfolding parts by simp
  then show "map_of ?all (bkey m) \<noteq> None" unfolding map_of_eq_None_iff by simp
  have "fst ` set ((bkey b, the (bdata b)) # pairs pre) \<inter> fst ` set (pairs post) = {}"
    using d' by auto
  then have "map_of ((bkey b, the (bdata b)) # pairs pre) (bkey x) = None"
    unfolding map_of_eq_None_iff using fx by blast
  then show "map_of (pairs (b # pre)) (bkey x) = None" using b by auto
qed

text \<open>
  C10. Deleting a heap bucket cuts its chain: every key behind the deleted one is lost with it,
  although only one key was deleted (\<^verbatim>\<open>prev->next = NULL\<close> drops the rest of the list).
\<close>

theorem server_ght_del_loses_tail:
  assumes "ght_ok ht" "ght_table ht ! ght_hash ht k = (b, pre @ m # post)"
    and "bkey m = k" "x \<in> set post"
  shows "server_ght_get ht (bkey x) = bdata x \<and> bdata x \<noteq> None \<and> bkey x \<noteq> k \<and>
    server_ght_get (fst (server_ght_del ht k)) (bkey x) = None"
proof -
  define i where "i = ght_hash ht k"
  have sok: "slot_ok (ght_size ht) i (b, pre @ m # post)"
    using ght_ok_slot [OF assms(1), of k] assms(2) by (simp add: i_def)
  note f = chain_facts [OF sok assms(4), unfolded assms(3)]
  have hx: "ght_hash ht (bkey x) = i" using f(5) by (simp add: ght_hash_def)
  have gx: "server_ght_get ht (bkey x) = bdata x"
    using get_slot [OF assms(1), of "bkey x"] hx assms(2) f(8)
    by (simp add: i_def del: pairs_simps)
  have gk: "server_ght_get ht k \<noteq> None"
    using get_slot [OF assms(1), of k] assms(2) f(9) by (simp del: pairs_simps)
  have w: "slot_without k (ght_table ht ! i) = (b, pre)"
    using split_chain_append [OF f(3) assms(3)] f(2) assms(2) by (simp add: slot_without_def i_def)
  have tab: "map_of (pairs (slot_buckets (ght_table ht ! i))) k \<noteq> None"
    using f(9) assms(2) by (simp add: i_def del: pairs_simps)
  have sok': "slot_ok (ght_size ht) i (ght_table ht ! i)" using sok assms(2) by (simp add: i_def)
  note wo = slot_without_ok(1,2) [OF sok' tab, unfolded w]
  obtain d where "server_ght_get ht k = Some d" using gk by auto
  then have "server_ght_get (fst (server_ght_del ht k)) (bkey x) = map_of (pairs (b # pre)) (bkey x)"
    using server_ght_del_present [OF assms(1), of k d] del_step(2) [OF assms(1) i_def wo, of "bkey x"] hx w
    by (simp add: i_def del: pairs_simps)
  with gx f show ?thesis by simp
qed

theorem server_ght_del_loses_tail_witness:
  "server_ght_get demo_table 9 = Some 90 \<and>
   server_ght_get (fst (server_ght_del demo_table 5)) 9 = None"
  using server_ght_del_loses_tail [of demo_table 5 "\<lparr>bkey = 1, bdata = Some 10, inheap = 0\<rparr>" "[]"
      "\<lparr>bkey = 5, bdata = Some 50, inheap = -1\<rparr>" "[\<lparr>bkey = 9, bdata = Some 90, inheap = -1\<rparr>]"
      "\<lparr>bkey = 9, bdata = Some 90, inheap = -1\<rparr>"] demo_table_ok
  by (simp add: ght_exact_def) (simp add: demo_table_def ght_hash_def)

text \<open>
  C11. The load factor: with the default limits and fewer than \<open>2 ^ 21\<close> slots, an insertion or a
  deletion leaves a table that is at most 70 percent full, the single-precision comparison of the
  code agreeing with the exact one.
\<close>

theorem server_ght_load_bounded:
  assumes "ght_ok ht" "default_limits ht" "ght_size ht < 2 ^ 21" "load_bounded ht"
    and "op_key op \<noteq> 0"
  shows "load_bounded (table_step server_ght_insert server_ght_del op ht)"
  using assms insert_load_bounded del_load_bounded
  by (cases op) (simp_all add: table_step_def)

theorem server_ght_load_bounded_witness:
  "load_bounded
    (table_step server_ght_insert server_ght_del (Table_insert 2 (Some 7))
      (demo_table\<lparr>ght_table := [empty_slot, empty_slot, empty_slot, empty_slot], ght_count := 0\<rparr>))"
  by (rule server_ght_load_bounded)
    (simp_all add: demo_table_def ght_ok_def all_less_4 live_count_def all_buckets_def
      default_limits_def load_bounded_def)

end
