(* ===== verification/Server_Util.thy ===== *)
theory Server_Util
  imports Chity_Base
begin

text \<open>
  The helpers of \<^verbatim>\<open>server/src/server_util.c\<close> on bytes and on NUL-terminated strings, and
  the C library functions the sources call on strings.

  A byte buffer is a list of \<^typ>\<open>u8\<close>. A character buffer that the code edits in place
  (\<^verbatim>\<open>strsplit\<close> writes NULs into it) is a list of characters that contains its NULs, and a
  pointer into it is an offset; the C string at an offset ends at the first NUL. A string that
  the code only reads is the list of its characters before the NUL.
\<close>

section \<open>Byte buffers\<close>

text \<open>\<^verbatim>\<open>memcpy (dst + off, src, n)\<close> with \<open>n = length src\<close>.\<close>

definition memcpy_at :: "'a list \<Rightarrow> nat \<Rightarrow> 'a list \<Rightarrow> 'a list" where
  "memcpy_at dst off src = take off dst @ src @ drop (off + length src) dst"

definition swpcpy :: "u8 list \<Rightarrow> u8 list \<Rightarrow> nat \<Rightarrow> u8 list" where
  "swpcpy dest src n = map (\<lambda>i. src ! (n - 1 - i)) [0..<n] @ drop n dest"

definition mask_buf :: "u8 list \<Rightarrow> nat \<Rightarrow> u8 list \<Rightarrow> nat \<Rightarrow> u8 list" where
  "mask_buf buf buf_len maskkey maskkey_len =
     map (\<lambda>i. buf ! i XOR maskkey ! (i mod maskkey_len)) [0..<buf_len] @ drop buf_len buf"

text \<open>
  The two loops of \<^verbatim>\<open>combine_buffers\<close>: the sum of the lengths, and the copying of each
  buffer at the running index.
\<close>

fun iov_size :: "'a list list \<Rightarrow> nat" where
  "iov_size [] = 0"
| "iov_size (iov # iovs) = length iov + iov_size iovs"

fun copy_iov :: "'a list \<Rightarrow> nat \<Rightarrow> 'a list list \<Rightarrow> 'a list" where
  "copy_iov buffer index [] = buffer"
| "copy_iov buffer index (iov # iovs) =
     copy_iov (memcpy_at buffer index iov) (index + length iov) iovs"

definition combine_buffers :: "u8 list list \<Rightarrow> nat \<Rightarrow> u8 list \<times> nat" where
  "combine_buffers iov n =
     (let size = iov_size (take n iov)
      in (copy_iov (replicate size 0) 0 (take n iov), size))"

section \<open>C strings\<close>

definition NUL :: char where
  "NUL = CHR 0x00"

definition cstr :: "string \<Rightarrow> nat \<Rightarrow> string" where
  "cstr buf p = takeWhile (\<lambda>c. c \<noteq> NUL) (drop p buf)"

text \<open>\<^verbatim>\<open>strstr\<close> on a NUL-free string: the offset of the first occurrence.\<close>

fun find_sub :: "string \<Rightarrow> string \<Rightarrow> nat option" where
  "find_sub [] needle = (if needle = [] then Some 0 else None)"
| "find_sub (c # hay) needle =
     (if take (length needle) (c # hay) = needle then Some 0
      else map_option Suc (find_sub hay needle))"

definition strstr :: "string \<Rightarrow> nat \<Rightarrow> string \<Rightarrow> nat option" where
  "strstr buf p needle = map_option (\<lambda>i. p + i) (find_sub (cstr buf p) needle)"

definition strncmp_eq :: "string \<Rightarrow> string \<Rightarrow> nat \<Rightarrow> bool" where
  "strncmp_eq a b n \<longleftrightarrow> take n a = take n b"

text \<open>\<^verbatim>\<open>strncpy (dst, src, n)\<close>: at most \<open>n\<close> characters, padded with NULs up to \<open>n\<close>.\<close>

definition strncpy :: "string \<Rightarrow> string \<Rightarrow> nat \<Rightarrow> string" where
  "strncpy dst src n = take n src @ replicate (n - length src) NUL @ drop n dst"

definition str_startwith :: "string option \<Rightarrow> string option \<Rightarrow> bool" where
  "str_startwith str start =
     (case (str, start) of
        (Some s, Some t) \<Rightarrow> strncmp_eq s t (length t)
      | _ \<Rightarrow> False)"

text \<open>
  \<^verbatim>\<open>strsplit (str, delm, &save)\<close>. The result is the edited buffer, the new save pointer and
  the returned pointer. \<^verbatim>\<open>buffer = NULL\<close> in the last-piece branch assigns a local variable, so
  the save pointer stays where it was.
\<close>

definition strsplit ::
  "string \<Rightarrow> nat option \<Rightarrow> string \<Rightarrow> nat option \<Rightarrow> string \<times> nat option \<times> nat option" where
  "strsplit buf str delm save =
     (let save1 = (case str of Some p \<Rightarrow> Some p | None \<Rightarrow> save)
      in case save1 of
           None \<Rightarrow> (buf, save1, None)
         | Some p \<Rightarrow>
             (case strstr buf p delm of
                None \<Rightarrow> (buf, Some p, if cstr buf p \<noteq> [] then Some p else None)
              | Some start \<Rightarrow>
                  (memcpy_at buf start (replicate (length delm) NUL),
                   Some (start + length delm), Some p)))"

text \<open>
  \<^verbatim>\<open>strtok_r\<close>-style \<^verbatim>\<open>strtok\<close>: skip delimiters, take the token, write a NUL over the
  delimiter that ends it.
\<close>

definition strtok :: "string \<Rightarrow> nat \<Rightarrow> string \<Rightarrow> string \<times> nat \<times> nat option" where
  "strtok buf p delims =
     (let start = p + length (takeWhile (\<lambda>c. c \<in> set delims) (cstr buf p));
          tok = takeWhile (\<lambda>c. c \<notin> set delims) (cstr buf start);
          stop = start + length tok
      in if cstr buf start = [] then (buf, start, None)
         else if cstr buf stop = [] then (buf, stop, Some start)
         else (buf[stop := NUL], Suc stop, Some start))"

section \<open>Number parsing\<close>

definition is_space :: "char \<Rightarrow> bool" where
  "is_space c \<longleftrightarrow> c = CHR '' '' \<or> (9 \<le> (of_char c :: nat) \<and> (of_char c :: nat) \<le> 13)"

definition digit_val :: "char \<Rightarrow> nat" where
  "digit_val c =
     (let n = (of_char c :: nat)
      in if 48 \<le> n \<and> n \<le> 57 then n - 48
         else if 97 \<le> n \<and> n \<le> 122 then n - 87
         else if 65 \<le> n \<and> n \<le> 90 then n - 55
         else 255)"

definition digits_of :: "nat \<Rightarrow> string \<Rightarrow> string" where
  "digits_of base s = takeWhile (\<lambda>c. digit_val c < base) s"

definition digits_value :: "nat \<Rightarrow> string \<Rightarrow> nat" where
  "digits_value base s = foldl (\<lambda>v c. v * base + digit_val c) 0 s"

definition strtoul_prefix :: "nat \<Rightarrow> string \<Rightarrow> string" where
  "strtoul_prefix base s =
     (case s of
        z # x # rest \<Rightarrow>
          if base = 16 \<and> z = CHR ''0'' \<and> (x = CHR ''x'' \<or> x = CHR ''X'') \<and> digits_of 16 rest \<noteq> []
          then rest else s
      | _ \<Rightarrow> s)"

text \<open>Base 0 takes the base from the digits: \<^verbatim>\<open>0x\<close> for 16, another leading 0 for 8, else 10.\<close>

fun strtoul_base :: "nat \<Rightarrow> string \<Rightarrow> nat" where
  "strtoul_base base (z # s) =
     (if base \<noteq> 0 then base
      else if z \<noteq> CHR ''0'' then 10
      else if s \<noteq> [] \<and> hd s \<in> {CHR ''x'', CHR ''X''} then 16 else 8)"
| "strtoul_base base [] = (if base \<noteq> 0 then base else 10)"

lemma strtoul_base_given [simp]: "base \<noteq> 0 \<Longrightarrow> strtoul_base base s = base"
  by (cases s) simp_all

text \<open>
  \<^verbatim>\<open>strtoul\<close> and \<^verbatim>\<open>strtoull\<close> on a 64-bit target: white space, one sign, an optional
  \<^verbatim>\<open>0x\<close> in base 16, the longest run of digits; saturation at the largest value, and a minus
  sign negates modulo \<open>2 ^ 64\<close>.
\<close>

definition strtoul :: "nat \<Rightarrow> string \<Rightarrow> u64" where
  "strtoul base str =
     (let s = dropWhile is_space str;
          (neg, t) = (case s of
                        c # cs \<Rightarrow> if c = CHR ''-'' then (True, cs)
                                  else if c = CHR ''+'' then (False, cs) else (False, s)
                      | [] \<Rightarrow> (False, []));
          b = strtoul_base base t;
          v = digits_value b (digits_of b (strtoul_prefix b t))
      in if 2 ^ 64 \<le> v then - 1
         else if neg then - of_nat v else of_nat v)"

text \<open>\<^verbatim>\<open>atoi\<close> as \<^verbatim>\<open>(int) strtol (str, NULL, 10)\<close>, saturating at the limits of \<^verbatim>\<open>long\<close>.\<close>

definition atoi :: "string \<Rightarrow> i32" where
  "atoi str =
     (let s = dropWhile is_space str;
          (neg, t) = (case s of
                        c # cs \<Rightarrow> if c = CHR ''-'' then (True, cs)
                                  else if c = CHR ''+'' then (False, cs) else (False, s)
                      | [] \<Rightarrow> (False, []));
          v = digits_value 10 (digits_of 10 t)
      in if neg then - of_nat (min v (2 ^ 63)) else of_nat (min v (2 ^ 63 - 1)))"

text \<open>
  The loop of \<^verbatim>\<open>hexstr_to_u8\<close> from index \<open>i\<close>: the bytes written to \<^verbatim>\<open>output\<close> in
  order. The string is the buffer with its terminating NUL, so an odd length reads the NUL (or
  what follows it) as the second character of the last pair.
\<close>

function hex_pairs :: "string \<Rightarrow> nat \<Rightarrow> nat \<Rightarrow> u8 list" where
  "hex_pairs s hexstr_len i =
     (if i < hexstr_len
      then ucast (strtoul 16 (cstr [s ! i, s ! Suc i, NUL] 0)) # hex_pairs s hexstr_len (i + 2)
      else [])"
  by auto
termination by (relation "measure (\<lambda>(s, n, i). n - i)") auto

declare hex_pairs.simps [simp del]

definition hexstr_to_u8 :: "string \<Rightarrow> nat \<Rightarrow> u8 list" where
  "hexstr_to_u8 hexstr hexstr_len =
     (if hexstr ! 0 = CHR 0x5C \<and> hexstr ! 1 = CHR ''x''
      then hex_pairs (drop 2 hexstr) (hexstr_len - 2) 0
      else hex_pairs hexstr hexstr_len 0)"

section \<open>Content types\<close>

definition strrchr :: "string \<Rightarrow> char \<Rightarrow> string option" where
  "strrchr s c = (if c \<in> set s then Some (c # rev (takeWhile (\<lambda>x. x \<noteq> c) (rev s))) else None)"

definition server_get_content_type :: "string \<Rightarrow> string" where
  "server_get_content_type path =
     (case strrchr path CHR ''.'' of
        None \<Rightarrow> ''application/octet-stream''
      | Some e \<Rightarrow>
          (let extention = tl e
           in if extention = ''html'' then ''text/html''
              else if extention = ''css'' then ''text/css''
              else if extention = ''csv'' then ''text/csv''
              else if extention = ''js'' then ''application/javascript''
              else if extention = ''png'' then ''image/png''
              else if extention = ''gif'' then ''image/gif''
              else if extention = ''jpg'' \<or> extention = ''jpeg'' then ''image/jpeg''
              else if extention = ''bmp'' then ''image/bmp''
              else if extention = ''svg'' then ''image/svg+xml''
              else if extention = ''avif'' then ''image/avif''
              else if extention = ''mp4'' then ''video/mp4''
              else if extention = ''mov'' then ''video/quicktime''
              else if extention = ''ico'' then ''image/x-icon''
              else if extention = ''xml'' then ''application/xml''
              else if extention = ''zip'' then ''application/zip''
              else if extention = ''gz'' then ''application/gzip''
              else if extention = ''json'' then ''application/json''
              else ''application/octet-stream''))"

section \<open>Lemmas\<close>

lemma length_memcpy_at [simp]:
  "off + length src \<le> length dst \<Longrightarrow> length (memcpy_at dst off src) = length dst"
  by (simp add: memcpy_at_def)

lemma nth_memcpy_at:
  "off + length src \<le> length dst \<Longrightarrow> i < length dst \<Longrightarrow>
    memcpy_at dst off src ! i =
      (if off \<le> i \<and> i < off + length src then src ! (i - off) else dst ! i)"
  by (auto simp: memcpy_at_def nth_append)

lemma take_memcpy_at:
  "off \<le> length dst \<Longrightarrow> take (off + length src) (memcpy_at dst off src) = take off dst @ src"
  by (simp add: memcpy_at_def)

lemma copy_iov_concat:
  "index \<le> length buffer \<Longrightarrow> length buffer = index + iov_size iovs \<Longrightarrow>
    copy_iov buffer index iovs = take index buffer @ concat iovs"
proof (induction buffer index iovs rule: copy_iov.induct)
  case (1 buffer index)
  then show ?case by simp
next
  case (2 buffer index iov iovs)
  then show ?case by (simp add: memcpy_at_def)
qed

lemma iov_size_concat: "iov_size iovs = length (concat iovs)"
  by (induction iovs) simp_all

lemma combine_buffers_eq:
  "combine_buffers iov n = (concat (take n iov), length (concat (take n iov)))"
  by (simp add: combine_buffers_def copy_iov_concat iov_size_concat)

lemma length_mask_buf [simp]: "n \<le> length buf \<Longrightarrow> length (mask_buf buf n key k) = length buf"
  by (simp add: mask_buf_def)

lemma mask_buf_involution:
  assumes "n \<le> length buf"
  shows "mask_buf (mask_buf buf n key k) n key k = buf"
proof (rule nth_equalityI)
  show "length (mask_buf (mask_buf buf n key k) n key k) = length buf" using assms by simp
  fix i assume "i < length (mask_buf (mask_buf buf n key k) n key k)"
  then have "i < length buf" using assms by simp
  then show "mask_buf (mask_buf buf n key k) n key k ! i = buf ! i"
    using assms by (auto simp: mask_buf_def nth_append xor.assoc)
qed

lemma mask_buf_append:
  "mask_buf (xs @ ys) (length xs) key k = mask_buf xs (length xs) key k @ ys"
  by (simp add: mask_buf_def nth_append)

lemma strsplit_None [simp]: "strsplit buf None delm None = (buf, None, None)"
  by (simp add: strsplit_def)

lemma takeWhile_drop:
  "n \<le> length (takeWhile P xs) \<Longrightarrow> takeWhile P (drop n xs) = drop n (takeWhile P xs)"
proof (induction xs arbitrary: n)
  case Nil
  then show ?case by simp
next
  case (Cons x xs)
  then show ?case by (cases n) (auto split: if_splits)
qed

lemma cstr_add: "n \<le> length (cstr buf p) \<Longrightarrow> cstr buf (p + n) = drop n (cstr buf p)"
  using takeWhile_drop [of n "\<lambda>c. c \<noteq> NUL" "drop p buf"] by (simp add: cstr_def add.commute)

lemma drop_takeWhile: "drop (length (takeWhile P xs)) xs = dropWhile P xs"
  by (metis append_eq_conv_conj takeWhile_dropWhile_id)

lemma cstr_nonempty: "cstr buf p \<noteq> [] \<Longrightarrow> p < length buf"
  by (cases "p < length buf") (simp_all add: cstr_def)

text \<open>A token of \<^verbatim>\<open>strtok\<close> lies in the buffer, and the scan position moves forward.\<close>

lemma strtok_Some:
  assumes "strtok buf p ds = (buf', q, Some t)"
  shows "p \<le> t" "t < q" "t < length buf" "length buf' = length buf"
proof -
  let ?n = "length (takeWhile (\<lambda>c. c \<in> set ds) (cstr buf p))"
  have ne: "cstr buf (p + ?n) \<noteq> []" and t: "t = p + ?n"
    using assms by (auto simp: strtok_def Let_def split: if_splits)
  have pre: "cstr buf (p + ?n) = dropWhile (\<lambda>c. c \<in> set ds) (cstr buf p)"
    by (simp add: cstr_add length_takeWhile_le drop_takeWhile)
  then have "hd (cstr buf (p + ?n)) \<notin> set ds" using ne hd_dropWhile by metis
  then have "0 < length (takeWhile (\<lambda>c. c \<notin> set ds) (cstr buf (p + ?n)))"
    using ne by (cases "cstr buf (p + ?n)") auto
  then show "p \<le> t" "t < q" "length buf' = length buf"
    using assms t by (auto simp: strtok_def Let_def split: if_splits)
  show "t < length buf" using cstr_nonempty [OF ne] t by simp
qed

lemma strtok_measure: "strtok buf p ds = (buf', q, Some t) \<Longrightarrow> length buf' - q < length buf - p"
  using strtok_Some [of buf p ds buf' q t] by linarith

text \<open>A string shorter than its array is read back from it.\<close>

lemma cstr_strncpy:
  assumes "NUL \<notin> set n" "length n < k"
  shows "cstr (strncpy (replicate k NUL) n k) 0 = n"
proof -
  have "takeWhile (\<lambda>c. c \<noteq> NUL) n = n" using assms(1) by (induction n) auto
  moreover have "k - length n = Suc (k - length n - 1)" using assms(2) by simp
  then have "replicate (k - length n) NUL = NUL # replicate (k - length n - 1) NUL" by (metis replicate_Suc)
  ultimately show ?thesis using assms by (simp add: strncpy_def cstr_def takeWhile_append)
qed

end
