(* ===== verification/Http_Msg.thy ===== *)
theory Http_Msg
  imports Server_Util
begin

text \<open>
  The HTTP message structure of \<^verbatim>\<open>server/include/server_http.h\<close> and the functions of
  \<^verbatim>\<open>server/src/server_http.c\<close> that build and print messages.

  A fixed character array is the string it holds before its first NUL; a string as long as the
  array fills it and has no terminator, and then a \<^verbatim>\<open>%s\<close> runs on into the fields behind it,
  which is what \<open>cstr_fields\<close> computes. The union of request and response is kept as separate
  fields: every access is guarded by the type. The \<^verbatim>\<open>keep_alive\<close> field, which nothing uses,
  is left out.
\<close>

section \<open>Messages\<close>

definition HTTP_METHOD_LEN :: nat where "HTTP_METHOD_LEN = 16"
definition HTTP_VERSION_LEN :: nat where "HTTP_VERSION_LEN = 16"
definition HTTP_URL_LEN :: nat where "HTTP_URL_LEN = 256"
definition HTTP_HEAD_NAME_LEN :: nat where "HTTP_HEAD_NAME_LEN = 64"
definition HTTP_HEAD_VAL_LEN :: nat where "HTTP_HEAD_VAL_LEN = 256"
definition HTTP_STATUS_MSG_LEN :: nat where "HTTP_STATUS_MSG_LEN = 128"
definition HTTP_MAX_HEADERS :: nat where "HTTP_MAX_HEADERS = 20"
definition HTTP_MAX_PARAMS :: nat where "HTTP_MAX_PARAMS = 10"

lemmas http_consts = HTTP_METHOD_LEN_def HTTP_VERSION_LEN_def HTTP_URL_LEN_def
  HTTP_HEAD_NAME_LEN_def HTTP_HEAD_VAL_LEN_def HTTP_STATUS_MSG_LEN_def HTTP_MAX_HEADERS_def
  HTTP_MAX_PARAMS_def

definition HTTP_NL :: string where
  "HTTP_NL = [CHR 0x0D, CHR 0x0A]"

definition HTTP_END :: string where
  "HTTP_END = [CHR 0x0D, CHR 0x0A, CHR 0x0D, CHR 0x0A]"

datatype http_type = HTTP_REQUEST | HTTP_RESPOND

record http_header =
  hname :: string
  hval :: string

record http =
  htype :: http_type
  req_method :: string
  req_url :: string
  req_version :: string
  resp_version :: string
  resp_code :: u16
  resp_msg :: string
  headers :: "http_header list"
  n_headers :: nat
  params :: "http_header list"
  n_params :: nat
  body :: "string option"
  body_len :: nat
  websocket_key :: "string option"
  body_inheap :: bool
  buf_missing :: bool
  total_recv :: nat

definition no_header :: http_header where
  "no_header = \<lparr>hname = [], hval = []\<rparr>"

text \<open>\<^verbatim>\<open>calloc (1, sizeof (http_t))\<close>\<close>

definition http_zero :: http where
  "http_zero =
     \<lparr>htype = HTTP_REQUEST, req_method = [], req_url = [], req_version = [], resp_version = [],
      resp_code = 0, resp_msg = [], headers = replicate HTTP_MAX_HEADERS no_header, n_headers = 0,
      params = replicate HTTP_MAX_PARAMS no_header, n_params = 0, body = None, body_len = 0,
      websocket_key = None, body_inheap = False, buf_missing = False, total_recv = 0\<rparr>"

text \<open>
  What reading a C string at the start of adjacent character arrays gives; each array is its size
  and its content.
\<close>

fun cstr_fields :: "(nat \<times> string) list \<Rightarrow> string" where
  "cstr_fields [] = []"
| "cstr_fields ((n, s) # fs) = (if length s < n then s else s @ cstr_fields fs)"

text \<open>The bytes of a little-endian number up to its first zero byte.\<close>

definition le_chars :: "nat \<Rightarrow> nat \<Rightarrow> string" where
  "le_chars n x = takeWhile (\<lambda>c. c \<noteq> NUL) (map (\<lambda>i. char_of (x div 256 ^ i mod 256)) [0..<n])"

definition header_fields :: "http_header \<Rightarrow> (nat \<times> string) list" where
  "header_fields h = [(HTTP_HEAD_NAME_LEN, hname h), (HTTP_HEAD_VAL_LEN, hval h)]"

definition headers_from :: "http \<Rightarrow> nat \<Rightarrow> (nat \<times> string) list" where
  "headers_from http i =
     concat (map header_fields (drop i (headers http))) @ [(8, le_chars 8 (n_headers http))]"

definition req_fields :: "http \<Rightarrow> (nat \<times> string) list" where
  "req_fields http =
     [(HTTP_METHOD_LEN, req_method http), (HTTP_URL_LEN, req_url http),
      (HTTP_VERSION_LEN, req_version http)] @ headers_from http 0"

definition header_name :: "http \<Rightarrow> nat \<Rightarrow> string" where
  "header_name http i = cstr_fields (headers_from http i)"

definition header_val :: "http \<Rightarrow> nat \<Rightarrow> string" where
  "header_val http i = cstr_fields (tl (headers_from http i))"

text \<open>\<^verbatim>\<open>snprintf (dst, n, ...)\<close> of a text.\<close>

definition snprintf :: "nat \<Rightarrow> string \<Rightarrow> string" where
  "snprintf n s = take (n - 1) s"

fun dec_digits :: "nat \<Rightarrow> string" where
  "dec_digits n =
     (if n < 10 then [char_of (48 + n)] else dec_digits (n div 10) @ [char_of (48 + n mod 10)])"

declare dec_digits.simps [simp del]

section \<open>Building\<close>

text \<open>
  \<^verbatim>\<open>NAME_CMP\<close> compares at most the size of the name array, so it never reads past it.
\<close>

definition name_cmp :: "http_header \<Rightarrow> string \<Rightarrow> bool" where
  "name_cmp h x = strncmp_eq (hname h) x HTTP_HEAD_NAME_LEN"

fun find_index :: "('a \<Rightarrow> bool) \<Rightarrow> 'a list \<Rightarrow> nat option" where
  "find_index P [] = None"
| "find_index P (x # xs) = (if P x then Some 0 else map_option Suc (find_index P xs))"

definition http_get_header :: "http \<Rightarrow> string \<Rightarrow> nat option" where
  "http_get_header http name =
     find_index (\<lambda>h. name_cmp h name) (take (n_headers http) (headers http))"

definition http_add_header :: "http \<Rightarrow> string \<Rightarrow> string \<Rightarrow> http" where
  "http_add_header http name val =
     (let h = \<lparr>hname = take HTTP_HEAD_NAME_LEN name, hval = take HTTP_HEAD_VAL_LEN val\<rparr>
      in case find_index (\<lambda>h. name_cmp h name \<or> hname h = [] \<or> hval h = [])
                (take (n_headers http) (headers http)) of
           Some i \<Rightarrow> http\<lparr>headers := (headers http)[i := h]\<rparr>
         | None \<Rightarrow>
             if HTTP_MAX_HEADERS \<le> n_headers http then http
             else http\<lparr>headers := (headers http)[n_headers http := h],
                       n_headers := Suc (n_headers http)\<rparr>)"

definition http_add_header_opt :: "http \<Rightarrow> string \<Rightarrow> string option \<Rightarrow> http" where
  "http_add_header_opt http name val =
     (case val of None \<Rightarrow> http | Some v \<Rightarrow> http_add_header http name v)"

definition http_add_body :: "http \<Rightarrow> string \<Rightarrow> nat \<Rightarrow> http" where
  "http_add_body http b len =
     http_add_header
       (http\<lparr>body := Some (take len b), body_inheap := True, body_len := len\<rparr>)
       ''Content-Length'' (snprintf HTTP_HEAD_VAL_LEN (dec_digits len))"

definition http_new_resp :: "u16 \<Rightarrow> string \<Rightarrow> string option \<Rightarrow> nat \<Rightarrow> http" where
  "http_new_resp code status_msg b len =
     (let http = http_add_header
                   (http_zero\<lparr>htype := HTTP_RESPOND, resp_code := code,
                              resp_msg := take HTTP_STATUS_MSG_LEN status_msg,
                              resp_version := take HTTP_VERSION_LEN ''HTTP/1.1''\<rparr>)
                   ''Server'' ''ChityChat''
      in case b of None \<Rightarrow> http | Some s \<Rightarrow> http_add_body http s len)"

section \<open>Printing\<close>

definition HEADER_LINE_LEN :: nat where
  "HEADER_LINE_LEN = (64 + 256) + 3 + 3"

definition first_line :: "http \<Rightarrow> string" where
  "first_line http =
     (case htype http of
        HTTP_REQUEST \<Rightarrow>
          cstr_fields (req_fields http) @ '' '' @ cstr_fields (tl (req_fields http)) @ '' '' @
          cstr_fields (tl (tl (req_fields http))) @ HTTP_NL
      | HTTP_RESPOND \<Rightarrow>
          cstr_fields [(HTTP_VERSION_LEN, resp_version http), (2, le_chars 2 (unat (resp_code http))),
                       (HTTP_STATUS_MSG_LEN, resp_msg http)] @ '' '' @
          dec_digits (unat (resp_code http)) @ '' '' @ resp_msg http @ HTTP_NL)"

definition header_line :: "http \<Rightarrow> nat \<Rightarrow> string" where
  "header_line http i =
     (if hname (headers http ! i) = [] \<or> hval (headers http ! i) = [] then []
      else snprintf HEADER_LINE_LEN
             (header_name http i @ '': '' @ header_val http i @
              (if n_headers http \<le> i + 1 then [] else HTTP_NL)))"

text \<open>
  The buffer of \<^verbatim>\<open>http_to_str\<close> as its size, its contents and the length to send. \<open>None\<close>: one
  of the unbounded \<^verbatim>\<open>strcat\<close> or \<^verbatim>\<open>memcpy\<close> calls writes past the end of the buffer.
\<close>

record to_str_buf =
  ts_str :: string
  ts_len :: nat
  ts_max :: nat

definition to_str_size :: "http \<Rightarrow> nat" where
  "to_str_size http =
     HEADER_LINE_LEN * n_headers http + 5 + (if htype http = HTTP_REQUEST then 288 else 146) +
     (if body http \<noteq> None then body_len http else 0)"

definition http_to_str :: "http \<Rightarrow> to_str_buf option" where
  "http_to_str http =
     (let size = to_str_size http;
          str = snprintf size (first_line http) @
                concat (map (header_line http) [0..<n_headers http]) @ HTTP_END;
          b = (case body http of None \<Rightarrow> [] | Some s \<Rightarrow> take (body_len http) s)
      in if size \<le> length str \<or> size < length str + length b then None
         else Some \<lparr>ts_str = str @ b, ts_len = length str + body_len http, ts_max = size\<rparr>)"

definition server_http_url_checks :: "http \<Rightarrow> int" where
  "server_http_url_checks http =
     (if find_sub (cstr_fields (tl (req_fields http))) ''../'' \<noteq> None then -1 else 0)"

section \<open>Lemmas\<close>

lemma find_index_Some:
  "find_index P xs = Some i \<Longrightarrow> i < length xs \<and> P (xs ! i) \<and> (\<forall>j<i. \<not> P (xs ! j))"
proof (induction xs arbitrary: i)
  case Nil
  then show ?case by simp
next
  case (Cons x xs)
  show ?case
  proof (cases "P x")
    case True
    with Cons.prems show ?thesis by simp
  next
    case False
    with Cons.prems obtain k where k: "find_index P xs = Some k" "i = Suc k" by auto
    with Cons.IH [OF k(1)] False show ?thesis by (auto simp: nth_Cons split: nat.split)
  qed
qed

lemma find_index_None: "find_index P xs = None \<longleftrightarrow> (\<forall>x\<in>set xs. \<not> P x)"
  by (induction xs) auto

lemma find_index_first:
  "i < length xs \<Longrightarrow> P (xs ! i) \<Longrightarrow> (\<And>j. j < i \<Longrightarrow> \<not> P (xs ! j)) \<Longrightarrow> find_index P xs = Some i"
proof (induction xs arbitrary: i)
  case Nil
  then show ?case by simp
next
  case (Cons x xs)
  show ?case
  proof (cases i)
    case 0
    with Cons.prems show ?thesis by simp
  next
    case (Suc k)
    have "\<not> P x" using Cons.prems(3) [of 0] Suc by simp
    moreover have "find_index P xs = Some k"
      using Cons.IH [of k] Cons.prems Suc by fastforce
    ultimately show ?thesis using Suc by simp
  qed
qed

text \<open>Messages whose arrays have their declared sizes.\<close>

definition http_wf :: "http \<Rightarrow> bool" where
  "http_wf http \<longleftrightarrow>
     length (headers http) = HTTP_MAX_HEADERS \<and> n_headers http \<le> HTTP_MAX_HEADERS \<and>
     list_all (\<lambda>h. length (hname h) \<le> HTTP_HEAD_NAME_LEN \<and> length (hval h) \<le> HTTP_HEAD_VAL_LEN)
       (headers http)"

definition resp_wf :: "http \<Rightarrow> bool" where
  "resp_wf http \<longleftrightarrow>
     http_wf http \<and> htype http = HTTP_RESPOND \<and> resp_version http = ''HTTP/1.1'' \<and>
     length (resp_msg http) \<le> HTTP_STATUS_MSG_LEN \<and>
     (case body http of None \<Rightarrow> body_len http = 0 | Some b \<Rightarrow> length b = body_len http)"

lemma http_wf_zero: "http_wf http_zero"
  by (simp add: http_wf_def http_zero_def no_header_def list_all_iff)

lemma list_all_update: "list_all P xs \<Longrightarrow> P x \<Longrightarrow> list_all P (xs[i := x])"
  using set_update_subset_insert [of xs i x] by (auto simp: list_all_iff)

lemma http_wf_add_header: "http_wf http \<Longrightarrow> http_wf (http_add_header http n v)"
  by (simp add: http_wf_def http_add_header_def Let_def list_all_update split: option.split)

lemma add_header_sel [simp]:
  "htype (http_add_header http n v) = htype http"
  "resp_version (http_add_header http n v) = resp_version http"
  "resp_msg (http_add_header http n v) = resp_msg http"
  "resp_code (http_add_header http n v) = resp_code http"
  "body (http_add_header http n v) = body http"
  "body_len (http_add_header http n v) = body_len http"
  by (auto simp: http_add_header_def Let_def split: option.split)

lemma resp_wf_add_header: "resp_wf http \<Longrightarrow> resp_wf (http_add_header http n v)"
  by (auto simp: resp_wf_def http_wf_add_header split: option.splits)

lemma resp_wf_add_header_opt: "resp_wf http \<Longrightarrow> resp_wf (http_add_header_opt http n v)"
  by (simp add: http_add_header_opt_def resp_wf_add_header split: option.split)

lemma resp_wf_add_body: "resp_wf http \<Longrightarrow> len \<le> length b \<Longrightarrow> resp_wf (http_add_body http b len)"
  unfolding http_add_body_def by (rule resp_wf_add_header) (simp add: resp_wf_def http_wf_def)

lemma resp_wf_new_resp:
  assumes "\<And>s. b = Some s \<Longrightarrow> len \<le> length s"
  shows "resp_wf (http_new_resp code msg b len)"
proof -
  have "resp_wf (http_zero\<lparr>htype := HTTP_RESPOND, resp_code := code,
      resp_msg := take HTTP_STATUS_MSG_LEN msg, resp_version := take HTTP_VERSION_LEN ''HTTP/1.1''\<rparr>)"
    using http_wf_zero by (simp add: resp_wf_def http_wf_def HTTP_VERSION_LEN_def http_zero_def)
  then show ?thesis
    using assms by (auto simp: http_new_resp_def Let_def resp_wf_add_header resp_wf_add_body
        split: option.split)
qed

lemma dec_digits_length: "n < 10 ^ k \<Longrightarrow> 0 < k \<Longrightarrow> length (dec_digits n) \<le> k"
proof (induction n arbitrary: k rule: dec_digits.induct)
  case (1 n)
  show ?case
  proof (cases "n < 10")
    case True
    then show ?thesis using "1.prems" by (simp add: dec_digits.simps [of n])
  next
    case False
    then obtain j where j: "k = Suc j" "0 < j"
      using "1.prems" by (cases k; cases "k - 1") auto
    then have "n div 10 < 10 ^ j" using "1.prems" by (simp add: less_mult_imp_div_less)
    with "1.IH" [OF False this j(2)] False j(1) show ?thesis
      by (simp add: dec_digits.simps [of n])
  qed
qed

lemma digit_char:
  fixes d :: nat
  assumes "d < 10"
  shows "digit_val (char_of (48 + d)) = d" and "\<not> is_space (char_of (48 + d))"
    and "char_of (48 + d) \<noteq> CHR ''-''" and "char_of (48 + d) \<noteq> CHR ''+''"
    and "char_of (48 + d) \<noteq> NUL"
proof -
  have o: "of_char (char_of (48 + d) :: char) = (48 + d :: nat)" using assms by simp
  have ne: "char_of (48 + d) \<noteq> c" if "of_char c < (48::nat)" for c
    using that o by auto
  show "digit_val (char_of (48 + d)) = d" using assms by (simp add: digit_val_def o)
  show "char_of (48 + d) \<noteq> CHR ''-''" "char_of (48 + d) \<noteq> CHR ''+''" "char_of (48 + d) \<noteq> NUL"
    by (rule ne; simp add: NUL_def)+
  have "char_of (48 + d) \<noteq> CHR '' ''" by (rule ne) simp
  then show "\<not> is_space (char_of (48 + d))" using assms by (simp add: is_space_def)
qed

lemma digits_value_append: "digits_value b (xs @ [c]) = digits_value b xs * b + digit_val c"
  by (simp add: digits_value_def)

lemma dec_digits_value: "digits_value 10 (dec_digits n) = n"
proof (induction n rule: dec_digits.induct)
  case (1 n)
  show ?case
  proof (cases "n < 10")
    case True
    then show ?thesis
      using digits_value_append [of 10 "[]"] digit_char(1) by (simp add: dec_digits.simps [of n] digits_value_def)
  next
    case False
    then have "dec_digits n = dec_digits (n div 10) @ [char_of (48 + n mod 10)]"
      by (simp add: dec_digits.simps [of n])
    then show ?thesis using "1.IH" False digit_char(1) [of "n mod 10"] by (simp add: digits_value_append)
  qed
qed

lemma dec_digits_all: "c \<in> set (dec_digits n) \<Longrightarrow> \<exists>d<10::nat. c = char_of (48 + d)"
proof (induction n rule: dec_digits.induct)
  case (1 n)
  show ?case
  proof (cases "n < 10")
    case True
    with "1.prems" show ?thesis by (intro exI [of _ n]) (simp add: dec_digits.simps [of n])
  next
    case False
    then consider "c = char_of (48 + n mod 10)" | "c \<in> set (dec_digits (n div 10))"
      using "1.prems" by (auto simp: dec_digits.simps [of n])
    then show ?thesis using "1.IH" [OF False] by cases (auto intro: exI [of _ "n mod 10"])
  qed
qed

lemma dec_digits_ne: "dec_digits n \<noteq> []"
  by (simp add: dec_digits.simps [of n])

text \<open>The decimal text of a 64-bit number is read back by \<^verbatim>\<open>strtoull\<close>.\<close>

lemma strtoul_dec_digits:
  assumes "n < 2 ^ 64"
  shows "strtoul 10 (dec_digits n) = of_nat n"
proof -
  obtain c cs where c: "dec_digits n = c # cs" using dec_digits_ne by (cases "dec_digits n") auto
  then obtain d :: nat where d: "d < 10" "c = char_of (48 + d)" using dec_digits_all [of c n] by auto
  have all: "takeWhile (\<lambda>c. digit_val c < 10) (dec_digits n) = dec_digits n"
    by (rule takeWhile_eq_all_conv [THEN iffD2]) (use dec_digits_all digit_char(1) in fastforce)
  have "dropWhile is_space (dec_digits n) = dec_digits n" using c d digit_char(2) by simp
  moreover have "strtoul_prefix 10 (dec_digits n) = dec_digits n"
    by (simp add: strtoul_prefix_def split: list.split)
  ultimately show ?thesis
    using assms c d digit_char(3,4) [OF d(1)] all dec_digits_value [of n]
    by (simp add: strtoul_def digits_of_def)
qed

text \<open>
  No decimal text of a positive number starts with a 0, so the conversion with base 0 reads it in
  base 10 as well.
\<close>

lemma dec_digits_hd: "0 < n \<Longrightarrow> hd (dec_digits n) \<noteq> CHR ''0''"
proof (induction n rule: dec_digits.induct)
  case (1 n)
  show ?case
  proof (cases "n < 10")
    case True
    moreover have "digit_val CHR ''0'' = 0" by (simp add: digit_val_def)
    ultimately have "char_of (48 + n) \<noteq> CHR ''0''" using "1.prems" digit_char(1) [of n] by force
    then show ?thesis using \<open>n < 10\<close> by (simp add: dec_digits.simps [of n])
  next
    case False
    then show ?thesis using "1.IH" [OF False] by (simp add: dec_digits.simps [of n] dec_digits_ne)
  qed
qed

lemma strtoul_0_dec_digits:
  assumes "n < 2 ^ 64"
  shows "strtoul 0 (dec_digits n) = of_nat n"
proof (cases "n = 0")
  case True
  have "dec_digits 0 = ''0''" by (simp add: dec_digits.simps) code_simp
  moreover have "strtoul 0 ''0'' = 0"
    by (simp add: strtoul_def digits_of_def digit_val_def digits_value_def is_space_def strtoul_prefix_def)
  ultimately show ?thesis using True by simp
next
  case False
  obtain c cs where c: "dec_digits n = c # cs" using dec_digits_ne by (cases "dec_digits n") auto
  then obtain d :: nat where d: "d < 10" "c = char_of (48 + d)" using dec_digits_all [of c n] by auto
  have n0: "c \<noteq> CHR ''0''" using dec_digits_hd [of n] False c by simp
  have "dropWhile is_space (dec_digits n) = dec_digits n" using c d digit_char(2) by simp
  then have "strtoul 0 (dec_digits n) = strtoul 10 (dec_digits n)"
    using c n0 digit_char(3,4) [OF d(1)] d(2) by (simp add: strtoul_def)
  then show ?thesis using strtoul_dec_digits [OF assms] by simp
qed

section \<open>Printing fits its buffer\<close>

lemma length_snprintf: "length (snprintf n s) \<le> n - 1"
  by (simp add: snprintf_def)

lemma length_header_line: "length (header_line http i) \<le> 325"
  using length_snprintf [of HEADER_LINE_LEN] by (simp add: header_line_def HEADER_LINE_LEN_def)

lemma length_header_lines:
  "length (concat (map (header_line http) is)) \<le> 325 * length is"
  by (induction "is") (use length_header_line [of http] in \<open>auto intro: add_mono\<close>)

lemma length_resp_line:
  assumes "resp_wf http"
  shows "length (first_line http) \<le> 145"
proof -
  have "unat (resp_code http) < 2 ^ 16" using unsigned_less [of "resp_code http", where ?'a = nat] by simp
  then have "length (dec_digits (unat (resp_code http))) \<le> 5"
    by (intro dec_digits_length) simp_all
  then show ?thesis
    using assms by (simp add: resp_wf_def first_line_def HTTP_VERSION_LEN_def HTTP_STATUS_MSG_LEN_def
        HTTP_NL_def)
qed

lemma http_to_str_Some:
  assumes "resp_wf http"
  shows "http_to_str http = Some
    \<lparr>ts_str = first_line http @ concat (map (header_line http) [0..<n_headers http]) @ HTTP_END @
       (case body http of None \<Rightarrow> [] | Some b \<Rightarrow> b),
     ts_len = length (first_line http) + length (concat (map (header_line http) [0..<n_headers http])) + 4
       + body_len http,
     ts_max = to_str_size http\<rparr>"
proof -
  let ?hs = "concat (map (header_line http) [0..<n_headers http])"
  have hs: "length ?hs \<le> 325 * n_headers http"
    using length_header_lines [of http "[0..<n_headers http]"] by simp
  have fl: "length (first_line http) \<le> 145" using assms by (rule length_resp_line)
  have size: "to_str_size http = 326 * n_headers http + 151 + body_len http"
    using assms by (auto simp: to_str_size_def resp_wf_def HEADER_LINE_LEN_def split: option.splits)
  have sn: "snprintf (to_str_size http) (first_line http) = first_line http"
    using fl size by (simp add: snprintf_def)
  have len: "length (first_line http @ ?hs @ HTTP_END) + body_len http < to_str_size http"
    using hs fl size by (simp add: HTTP_END_def)
  show ?thesis
    using assms len sn
    by (auto simp: http_to_str_def Let_def resp_wf_def HTTP_END_def split: option.splits)
qed

lemma http_to_str_fits_wf:
  assumes "resp_wf http"
  shows "\<exists>t. http_to_str http = Some t \<and> ts_len t = length (ts_str t) \<and> ts_len t \<le> ts_max t"
proof -
  let ?hs = "concat (map (header_line http) [0..<n_headers http])"
  have "length ?hs \<le> 325 * n_headers http"
    using length_header_lines [of http "[0..<n_headers http]"] by simp
  moreover have "length (first_line http) \<le> 145" using assms by (rule length_resp_line)
  moreover have "to_str_size http = 326 * n_headers http + 151 + body_len http"
    using assms by (auto simp: to_str_size_def resp_wf_def HEADER_LINE_LEN_def split: option.splits)
  ultimately have "length (first_line http) + length ?hs + 4 + body_len http \<le> to_str_size http"
    by linarith
  moreover have "length (case body http of None \<Rightarrow> [] | Some b \<Rightarrow> b) = body_len http"
    using assms by (auto simp: resp_wf_def split: option.splits)
  ultimately show ?thesis using http_to_str_Some [OF assms] by (simp add: HTTP_END_def)
qed

text \<open>
  The text a response should have: status line, header lines separated by line ends, an empty
  line, the body.
\<close>

definition print_header :: "http_header \<Rightarrow> string" where
  "print_header h = hname h @ '': '' @ hval h"

fun join_lines :: "string list \<Rightarrow> string" where
  "join_lines [] = []"
| "join_lines [l] = l"
| "join_lines (l # ls) = l @ HTTP_NL @ join_lines ls"

definition plain_header :: "http_header \<Rightarrow> bool" where
  "plain_header h \<longleftrightarrow> hname h \<noteq> [] \<and> hval h \<noteq> [] \<and>
     length (hname h) < HTTP_HEAD_NAME_LEN \<and> length (hval h) < HTTP_HEAD_VAL_LEN"

definition resp_text :: "http \<Rightarrow> string" where
  "resp_text http =
     resp_version http @ '' '' @ dec_digits (unat (resp_code http)) @ '' '' @ resp_msg http @ HTTP_NL @
     join_lines (map print_header (take (n_headers http) (headers http))) @ HTTP_END @
     (case body http of None \<Rightarrow> [] | Some b \<Rightarrow> b)"

lemma header_line_plain:
  assumes "i < length (headers http)" and "plain_header (headers http ! i)"
  shows "header_line http i =
    print_header (headers http ! i) @ (if n_headers http \<le> i + 1 then [] else HTTP_NL)"
proof -
  have d: "drop i (headers http) = headers http ! i # drop (Suc i) (headers http)"
    using assms(1) by (simp add: Cons_nth_drop_Suc)
  have "header_name http i = hname (headers http ! i)" "header_val http i = hval (headers http ! i)"
    using assms(2) by (simp_all add: header_name_def header_val_def headers_from_def d
        header_fields_def plain_header_def)
  moreover have "length (hname (headers http ! i)) < 64" "length (hval (headers http ! i)) < 256"
    using assms(2) by (simp_all add: plain_header_def http_consts)
  ultimately show ?thesis
    using assms(2) by (auto simp: header_line_def plain_header_def snprintf_def HEADER_LINE_LEN_def
        print_header_def HTTP_NL_def)
qed

lemma join_lines_concat:
  "concat (map (\<lambda>i. ls ! i @ (if length ls \<le> i + 1 then [] else HTTP_NL)) [0..<length ls])
    = join_lines ls"
proof (induction ls rule: join_lines.induct)
  case (3 l l' ls)
  let ?ls = "l' # ls"
  have "[0..<length (l # ?ls)] = 0 # map Suc [0..<length ?ls]"
    using upt_conv_Cons [of 0 "Suc (length ?ls)"] map_Suc_upt [of 0 "length ?ls"]
    by (simp del: upt_Suc)
  then show ?case using "3.IH" by (simp add: o_def del: upt_Suc)
qed simp_all

lemma header_lines_join:
  assumes "http_wf http" "list_all plain_header (take (n_headers http) (headers http))"
  shows "concat (map (header_line http) [0..<n_headers http]) =
    join_lines (map print_header (take (n_headers http) (headers http)))"
proof -
  let ?ls = "map print_header (take (n_headers http) (headers http))"
  have len: "length ?ls = n_headers http" using assms(1) by (simp add: http_wf_def)
  have "header_line http i = ?ls ! i @ (if length ?ls \<le> i + 1 then [] else HTTP_NL)"
    if "i < n_headers http" for i
  proof -
    have "i < length (headers http)" using that assms(1) by (simp add: http_wf_def)
    moreover have "plain_header (headers http ! i)"
      using assms that calculation by (auto simp: list_all_length)
    ultimately show ?thesis using header_line_plain [of i http] that len by simp
  qed
  then show ?thesis
    unfolding join_lines_concat [of ?ls, symmetric] len
    by (intro arg_cong [of _ _ concat] map_cong) simp_all
qed

section \<open>Header lookup\<close>

definition http_lookup :: "http \<Rightarrow> string \<Rightarrow> string option" where
  "http_lookup http name = map_option (\<lambda>i. hval (headers http ! i)) (http_get_header http name)"

definition no_empty_header :: "http \<Rightarrow> bool" where
  "no_empty_header http \<longleftrightarrow>
     list_all (\<lambda>h. hname h \<noteq> [] \<and> hval h \<noteq> []) (take (n_headers http) (headers http))"

lemma name_cmp_fit:
  "length (hname h) \<le> HTTP_HEAD_NAME_LEN \<Longrightarrow> length m \<le> HTTP_HEAD_NAME_LEN \<Longrightarrow>
    name_cmp h m \<longleftrightarrow> hname h = m"
  by (simp add: name_cmp_def strncmp_eq_def)

lemma find_index_cong: "(\<And>x. x \<in> set xs \<Longrightarrow> P x = Q x) \<Longrightarrow> find_index P xs = find_index Q xs"
  by (induction xs) auto

lemma find_index_append:
  "find_index P (xs @ [x]) =
    (case find_index P xs of Some i \<Rightarrow> Some i | None \<Rightarrow> if P x then Some (length xs) else None)"
  by (induction xs) (auto split: option.splits)

lemma find_index_update:
  assumes "i < length xs" "P (xs ! i) = P x"
  shows "find_index P (xs[i := x]) = find_index P xs"
  using assms by (induction xs arbitrary: i) (auto split: nat.splits)

lemma header_names_fit:
  "http_wf http \<Longrightarrow> h \<in> set (take k (headers http)) \<Longrightarrow> length (hname h) \<le> HTTP_HEAD_NAME_LEN"
  by (auto simp: http_wf_def list_all_iff dest: in_set_takeD)

lemma find_add_slot:
  assumes "http_wf http" "no_empty_header http" "length n \<le> HTTP_HEAD_NAME_LEN"
  shows "find_index (\<lambda>h. name_cmp h n \<or> hname h = [] \<or> hval h = []) (take (n_headers http) (headers http))
    = http_get_header http n"
  unfolding http_get_header_def
  by (rule find_index_cong) (use assms(2) in \<open>auto simp: no_empty_header_def list_all_iff\<close>)

lemma add_header_lookup:
  assumes wf: "http_wf http" and ne: "no_empty_header http"
    and n: "length n \<le> HTTP_HEAD_NAME_LEN" and m: "length m \<le> HTTP_HEAD_NAME_LEN"
    and room: "n_headers http < HTTP_MAX_HEADERS \<or> http_lookup http n \<noteq> None"
  shows "http_lookup (http_add_header http n v) m =
    (if m = n then Some (take HTTP_HEAD_VAL_LEN v) else http_lookup http m)"
proof -
  define h where "h = \<lparr>hname = take HTTP_HEAD_NAME_LEN n, hval = take HTTP_HEAD_VAL_LEN v\<rparr>"
  define hs where "hs = take (n_headers http) (headers http)"
  have len: "length hs = n_headers http" "length (headers http) = HTTP_MAX_HEADERS"
    using wf by (simp_all add: hs_def http_wf_def)
  have hv: "hval h = take HTTP_HEAD_VAL_LEN v" by (simp add: h_def)
  have hn: "name_cmp h m \<longleftrightarrow> m = n" using n m by (auto simp: h_def name_cmp_fit)
  have cmp: "name_cmp x m' \<longleftrightarrow> hname x = m'" if "x \<in> set hs" "length m' \<le> HTTP_HEAD_NAME_LEN" for x m'
    using that header_names_fit [OF wf] by (simp add: hs_def name_cmp_fit)
  show ?thesis
  proof (cases "http_get_header http n")
    case (Some i)
    then have i: "i < length hs" "name_cmp (hs ! i) n" "\<forall>j<i. \<not> name_cmp (hs ! j) n"
      using find_index_Some [of _ hs] by (auto simp: http_get_header_def hs_def [symmetric])
    have e: "http_add_header http n v = http\<lparr>headers := (headers http)[i := h]\<rparr>"
      using Some find_add_slot [OF wf ne n] by (simp add: http_add_header_def h_def [symmetric])
    have hs': "take (n_headers http) ((headers http)[i := h]) = hs[i := h]"
      by (simp add: hs_def take_update_swap)
    show ?thesis
    proof (cases "m = n")
      case True
      have "find_index (\<lambda>h. name_cmp h m) (hs[i := h]) = Some i"
        by (rule find_index_first) (use i hn True in auto)
      then show ?thesis using i len wf True
        by (simp add: http_lookup_def http_get_header_def e hs' hv http_wf_def)
    next
      case False
      have "\<not> name_cmp (hs ! i) m" using i False cmp n m by simp
      then have "find_index (\<lambda>h. name_cmp h m) (hs[i := h]) = find_index (\<lambda>h. name_cmp h m) hs"
        using i(1) hn False by (intro find_index_update) simp_all
      moreover from this have "i \<noteq> j" if "find_index (\<lambda>h. name_cmp h m) hs = Some j" for j
        using find_index_Some [OF that] \<open>\<not> name_cmp (hs ! i) m\<close> by auto
      ultimately show ?thesis using False
        by (cases "find_index (\<lambda>h. name_cmp h m) hs")
          (auto simp: http_lookup_def http_get_header_def e hs' hs_def [symmetric])
    qed
  next
    case None
    then have lt: "n_headers http < HTTP_MAX_HEADERS" using room by (simp add: http_lookup_def)
    have e: "http_add_header http n v = http\<lparr>headers := (headers http)[n_headers http := h],
        n_headers := Suc (n_headers http)\<rparr>"
      using None lt find_add_slot [OF wf ne n] by (simp add: http_add_header_def h_def [symmetric])
    have hs': "take (Suc (n_headers http)) ((headers http)[n_headers http := h]) = hs @ [h]"
      using lt len by (simp add: hs_def take_Suc_conv_app_nth)
    have none: "find_index (\<lambda>h. name_cmp h n) hs = None"
      using None by (simp add: http_get_header_def hs_def)
    show ?thesis
    proof (cases "find_index (\<lambda>h. name_cmp h m) hs")
      case None
      then show ?thesis using lt len hn
        by (simp add: http_lookup_def http_get_header_def e hs' find_index_append hs_def [symmetric] hv)
    next
      case (Some j)
      with none have "m \<noteq> n" by auto
      moreover have "j < n_headers http" using find_index_Some [OF Some] len by simp
      ultimately show ?thesis using Some hn
        by (simp add: http_lookup_def http_get_header_def e hs' find_index_append hs_def [symmetric])
    qed
  qed
qed

section \<open>Properties\<close>

text \<open>
  C12. Every response the server builds, with any status text and any further headers, is printed
  into the buffer sized for it: none of the unbounded string copies overruns, and the length sent
  is the length of the text and fits the buffer.
\<close>

theorem http_to_str_fits:
  assumes "\<And>s. b = Some s \<Longrightarrow> len \<le> length s"
  shows "\<exists>t. http_to_str (fold (\<lambda>(n, v) h. http_add_header_opt h n v) hs (http_new_resp code msg b len))
      = Some t \<and> ts_len t = length (ts_str t) \<and> ts_len t \<le> ts_max t"
proof -
  let ?h = "fold (\<lambda>(n, v) h. http_add_header_opt h n v) hs (http_new_resp code msg b len)"
  have step: "resp_wf (fold (\<lambda>(n, v) h. http_add_header_opt h n v) hs h)" if "resp_wf h" for h
    using that by (induction hs arbitrary: h) (auto simp: resp_wf_add_header_opt)
  have wf: "resp_wf ?h" using step resp_wf_new_resp assms by blast
  then show ?thesis by (rule http_to_str_fits_wf)
qed

theorem http_to_str_fits_witness:
  "\<exists>t. http_to_str (http_add_header_opt (http_new_resp 200 ''OK'' (Some ''hello'') 5)
      ''Content-Type'' (Some ''text/html'')) = Some t \<and> ts_len t = length (ts_str t) \<and> ts_len t \<le> ts_max t"
  using http_to_str_fits [of "Some ''hello''" 5 "[(''Content-Type'', Some ''text/html'')]" 200 "''OK''"]
  by simp

lemma http_to_str_text:
  assumes "resp_wf http" "list_all plain_header (take (n_headers http) (headers http))"
  shows "\<exists>t. http_to_str http = Some t \<and> ts_str t = resp_text http \<and> ts_len t = length (ts_str t)"
proof -
  have "http_wf http" using assms(1) by (simp add: resp_wf_def)
  note hl = header_lines_join [OF this assms(2)]
  have "first_line http = resp_version http @ '' '' @ dec_digits (unat (resp_code http)) @ '' '' @
      resp_msg http @ HTTP_NL"
    using assms(1) by (simp add: first_line_def resp_wf_def HTTP_VERSION_LEN_def)
  then show ?thesis
    using http_to_str_Some [OF assms(1)] http_to_str_fits_wf [OF assms(1)]
    by (auto simp: resp_text_def hl)
qed

text \<open>
  C13. The printed response is the reference text: status line, the headers as
  \<^verbatim>\<open>name: value\<close> lines separated by line ends, an empty line and the body, when every header
  is non-empty and shorter than its array.
\<close>

theorem http_to_str_reference:
  assumes "resp_wf http" "list_all plain_header (take (n_headers http) (headers http))"
  shows "map_option ts_str (http_to_str http) = Some (resp_text http)"
  using http_to_str_text [OF assms] by auto

theorem http_to_str_reference_witness:
  "map_option ts_str (http_to_str (http_new_resp 404 ''Not Found'' None 0)) =
    Some (resp_text (http_new_resp 404 ''Not Found'' None 0))"
proof (rule http_to_str_reference)
  show "resp_wf (http_new_resp 404 ''Not Found'' None 0)" by (rule resp_wf_new_resp) simp
  show "list_all plain_header (take (n_headers (http_new_resp 404 ''Not Found'' None 0))
      (headers (http_new_resp 404 ''Not Found'' None 0)))" by code_simp
qed

text \<open>
  Setting a header is a map update: afterwards the name has the (truncated) value and every
  other name the value it had, whether the header was replaced in place or appended.
\<close>

theorem http_add_header_lookup:
  assumes "http_wf http" "no_empty_header http"
    and "length n \<le> HTTP_HEAD_NAME_LEN" "length m \<le> HTTP_HEAD_NAME_LEN"
    and "n_headers http < HTTP_MAX_HEADERS \<or> http_lookup http n \<noteq> None"
  shows "http_wf (http_add_header http n v) \<and>
    http_lookup (http_add_header http n v) m =
      (if m = n then Some (take HTTP_HEAD_VAL_LEN v) else http_lookup http m)"
  using http_wf_add_header add_header_lookup assms by blast

theorem http_add_header_lookup_witness:
  "http_lookup (http_add_header (http_new_resp 200 ''OK'' None 0) ''Server'' ''other'') ''Server'' = Some ''other''"
proof -
  have "http_wf (http_new_resp 200 ''OK'' None 0)"
    using resp_wf_new_resp [of None 0 200 "''OK''"] by (simp add: resp_wf_def)
  moreover have "no_empty_header (http_new_resp 200 ''OK'' None 0)" by code_simp
  moreover have "n_headers (http_new_resp 200 ''OK'' None 0) < HTTP_MAX_HEADERS" by code_simp
  ultimately show ?thesis
    using http_add_header_lookup [of "http_new_resp 200 ''OK'' None 0" "''Server''" "''Server''" "''other''"]
    by (simp add: http_consts)
qed

text \<open>
  The \<^verbatim>\<open>Content-Length\<close> header of a response with a body holds the decimal text of the
  body's length, and \<^verbatim>\<open>strtoull\<close> reads that length back.
\<close>

theorem http_content_length_roundtrip:
  assumes "len < 2 ^ 64"
  shows "\<exists>v. http_lookup (http_new_resp code msg (Some b) len) ''Content-Length'' = Some v \<and>
    strtoul 10 v = of_nat len \<and> body_len (http_new_resp code msg (Some b) len) = len"
proof -
  define h where "h = http_new_resp code msg None 0\<lparr>body := Some (take len b), body_inheap := True,
    body_len := len\<rparr>"
  have e: "http_new_resp code msg (Some b) len =
      http_add_header h ''Content-Length'' (snprintf HTTP_HEAD_VAL_LEN (dec_digits len))"
    by (simp add: h_def http_new_resp_def Let_def http_add_body_def)
  have d: "length (dec_digits len) \<le> 20" by (rule dec_digits_length) (use assms in simp_all)
  have wf: "http_wf h"
    using resp_wf_new_resp [of None 0 code msg] by (simp add: h_def resp_wf_def http_wf_def)
  have base: "n_headers h = 1 \<and> headers h ! 0 = \<lparr>hname = ''Server'', hval = ''ChityChat''\<rparr>"
    by (simp add: h_def http_new_resp_def http_add_header_def Let_def http_zero_def http_consts)
  have "headers h \<noteq> []" using wf by (auto simp: http_wf_def HTTP_MAX_HEADERS_def)
  then have tk: "take (n_headers h) (headers h) = [\<lparr>hname = ''Server'', hval = ''ChityChat''\<rparr>]"
    using base by (cases "headers h") simp_all
  then have ne: "no_empty_header h" by (simp add: no_empty_header_def)
  have "http_lookup (http_add_header h ''Content-Length'' (snprintf HTTP_HEAD_VAL_LEN (dec_digits len)))
      ''Content-Length'' = Some (dec_digits len)"
    using add_header_lookup [OF wf ne, of "''Content-Length''" "''Content-Length''"] base d
    by (simp add: http_consts snprintf_def)
  then show ?thesis using strtoul_dec_digits [OF assms] by (simp add: e) (simp add: h_def)
qed

theorem http_content_length_roundtrip_witness:
  "\<exists>v. http_lookup (http_new_resp 200 ''OK'' (Some ''hello'') 5) ''Content-Length'' = Some v \<and>
    strtoul 10 v = 5"
  using http_content_length_roundtrip [of 5 200 "''OK''" "''hello''"] by auto

end
