(* ===== verification/Server_Client.thy ===== *)
theory Server_Client
  imports Http_Msg
begin

text \<open>
  The connection of a client (\<^verbatim>\<open>client_t\<close> of \<^verbatim>\<open>server/include/server_client.h\<close>) and the two
  functions of \<^verbatim>\<open>server/src/server.c\<close> that move bytes through it. The logged-in user and the
  session are pointers into the server's object store, kept as addresses. OpenSSL is not in the
  sources: the result of the \<open>k\<close>-th \<^verbatim>\<open>SSL_write\<close> of a connection is the parameter
  \<open>ssl_write\<close> of its state, \<open>sent\<close> records the buffers handed to it, and the bytes
  \<^verbatim>\<open>SSL_read\<close> delivers are an argument of \<open>server_recv\<close>.
\<close>

datatype client_recv_status = RECV_OK | RECV_DISCONNECT | RECV_ERROR

definition CLIENT_STATE_SHORT_LIVE :: u16 where "CLIENT_STATE_SHORT_LIVE = 0x0000"
definition CLIENT_STATE_UPGRADE_PENDING :: u16 where "CLIENT_STATE_UPGRADE_PENDING = 0x0001"
definition CLIENT_STATE_WEBSOCKET :: u16 where "CLIENT_STATE_WEBSOCKET = 0x0002"
definition CLIENT_STATE_KEEP_ALIVE :: u16 where "CLIENT_STATE_KEEP_ALIVE = 0x0004"
definition CLIENT_STATE_LOGGED_IN :: u16 where "CLIENT_STATE_LOGGED_IN = 0x0008"
definition CLIENT_ERR_NONE :: u16 where "CLIENT_ERR_NONE = 0"
definition CLIENT_ERR_SSL :: u16 where "CLIENT_ERR_SSL = 1"

lemmas client_states = CLIENT_STATE_SHORT_LIVE_def CLIENT_STATE_UPGRADE_PENDING_def
  CLIENT_STATE_WEBSOCKET_def CLIENT_STATE_KEEP_ALIVE_def CLIENT_STATE_LOGGED_IN_def
  CLIENT_ERR_NONE_def CLIENT_ERR_SSL_def

record recv_buf =
  recv_data :: "u8 list option"
  data_size :: nat
  recv_offset :: nat
  recv_busy :: bool
  recv_http :: "http option"

record client =
  sock :: int
  cstate :: u16
  cerr :: u16
  dbuser :: "nat option"
  session :: "nat option"
  recv :: recv_buf
  sent :: "u8 list list"
  ssl_write :: "nat \<Rightarrow> int"

definition recv_zero :: recv_buf where
  "recv_zero =
     \<lparr>recv_data = None, data_size = 0, recv_offset = 0, recv_busy = False, recv_http = None\<rparr>"

definition client_zero :: "int \<Rightarrow> (nat \<Rightarrow> int) \<Rightarrow> client" where
  "client_zero fd ssl =
     \<lparr>sock = fd, cstate = CLIENT_STATE_SHORT_LIVE, cerr = CLIENT_ERR_NONE, dbuser = None,
      session = None, recv = recv_zero, sent = [], ssl_write = ssl\<rparr>"

definition has_state :: "client \<Rightarrow> u16 \<Rightarrow> bool" where
  "has_state c bits \<longleftrightarrow> cstate c AND bits \<noteq> 0"

definition set_recv :: "(recv_buf \<Rightarrow> recv_buf) \<Rightarrow> client \<Rightarrow> client" where
  "set_recv f c = c\<lparr>recv := f (recv c)\<rparr>"

definition server_set_client_err :: "client \<Rightarrow> u16 \<Rightarrow> client" where
  "server_set_client_err c e = c\<lparr>cerr := e\<rparr>"

definition server_send :: "client \<Rightarrow> u8 list \<Rightarrow> client \<times> int" where
  "server_send c buf =
     (if cerr c \<noteq> CLIENT_ERR_SSL then
        (let bytes_sent = ssl_write c (length (sent c));
             c1 = c\<lparr>sent := sent c @ [buf]\<rparr>
         in (if bytes_sent \<le> 0 then server_set_client_err c1 CLIENT_ERR_SSL else c1, bytes_sent))
      else (c, -1))"

text \<open>
  \<^verbatim>\<open>SSL_read\<close> delivers at most \<open>len\<close> bytes of \<open>input\<close>; no bytes stand for its error
  and end-of-stream results.
\<close>

definition server_recv :: "client \<Rightarrow> nat \<Rightarrow> u8 list \<Rightarrow> client \<times> u8 list" where
  "server_recv c len input =
     (if cerr c \<noteq> CLIENT_ERR_SSL then
        (let bs = take len input
         in (if bs = [] then server_set_client_err c CLIENT_ERR_SSL else c, bs))
      else (c, []))"

lemma set_recv_sel [simp]:
  "recv (set_recv f c) = f (recv c)" "sent (set_recv f c) = sent c" "cerr (set_recv f c) = cerr c"
  "cstate (set_recv f c) = cstate c" "ssl_write (set_recv f c) = ssl_write c"
  "dbuser (set_recv f c) = dbuser c" "session (set_recv f c) = session c" "sock (set_recv f c) = sock c"
  by (simp_all add: set_recv_def)

lemma server_send_recv [simp]:
  "recv (fst (server_send c b)) = recv c" "cstate (fst (server_send c b)) = cstate c"
  "dbuser (fst (server_send c b)) = dbuser c" "session (fst (server_send c b)) = session c"
  by (auto simp: server_send_def Let_def server_set_client_err_def)

lemma server_send_failed: "cerr c = CLIENT_ERR_SSL \<Longrightarrow> server_send c b = (c, -1)"
  by (simp add: server_send_def)

end
