(* ===== verification/Server_Websocket.thy ===== *)
theory Server_Websocket
  imports Server_Client
begin

text \<open>
  The WebSocket framing of \<^verbatim>\<open>server/src/server_websocket.c\<close>: parsing the frames of a receive
  buffer, and building a frame to send.

  The buffer passed to the parser is a position in the client's receive allocation. An access
  outside that allocation is the result \<^term>\<open>None\<close>. A payload is handed to the text handler
  as the memory from its first byte on and its length, the way the code passes a pointer and a
  length; the handler may change the client and the rest of the server's state \<open>'s\<close>.
\<close>

section \<open>Frames\<close>

definition WS_CONTINUE_FRAME :: u8 where "WS_CONTINUE_FRAME = 0x00"
definition WS_TEXT_FRAME :: u8 where "WS_TEXT_FRAME = 0x01"
definition WS_BINARY_FRAME :: u8 where "WS_BINARY_FRAME = 0x02"
definition WS_CLOSE_FRAME :: u8 where "WS_CLOSE_FRAME = 0x08"
definition WS_PING_FRAME :: u8 where "WS_PING_FRAME = 0x09"
definition WS_PONG_FRAME :: u8 where "WS_PONG_FRAME = 0x0A"
definition WS_MASKKEY_LEN :: nat where "WS_MASKKEY_LEN = 4"

lemmas ws_consts = WS_CONTINUE_FRAME_def WS_TEXT_FRAME_def WS_BINARY_FRAME_def WS_CLOSE_FRAME_def
  WS_PING_FRAME_def WS_PONG_FRAME_def WS_MASKKEY_LEN_def

text \<open>The bit fields of \<^verbatim>\<open>ws_frame_t\<close>, allocated from the least significant bit of each byte.\<close>

record ws_frame =
  opcode :: "4 word"
  rsv3 :: bool
  rsv2 :: bool
  rsv1 :: bool
  fin :: bool
  fpayload_len :: "7 word"
  fmask :: bool

definition ws_frame_read :: "u8 \<Rightarrow> u8 \<Rightarrow> ws_frame" where
  "ws_frame_read b0 b1 =
     \<lparr>opcode = ucast b0, rsv3 = bit b0 4, rsv2 = bit b0 5, rsv1 = bit b0 6, fin = bit b0 7,
      fpayload_len = ucast b1, fmask = bit b1 7\<rparr>"

definition ws_frame_write :: "ws_frame \<Rightarrow> u8 list" where
  "ws_frame_write f =
     [ucast (opcode f) OR push_bit 4 (of_bool (rsv3 f)) OR push_bit 5 (of_bool (rsv2 f)) OR
        push_bit 6 (of_bool (rsv1 f)) OR push_bit 7 (of_bool (fin f)),
      ucast (fpayload_len f) OR push_bit 7 (of_bool (fmask f))]"

definition WS_PAYLOAD_LEN16 :: "u8 list \<Rightarrow> nat \<Rightarrow> u16" where
  "WS_PAYLOAD_LEN16 buf p = push_bit 8 (ucast (buf ! (p + 2))) OR ucast (buf ! (p + 3))"

text \<open>The macro casts a single byte, \<^verbatim>\<open>frame[2]\<close>, not the eight bytes of the length.\<close>

definition WS_PAYLOAD_LEN64 :: "u8 list \<Rightarrow> nat \<Rightarrow> u64" where
  "WS_PAYLOAD_LEN64 buf p = ucast (buf ! (p + 2))"

section \<open>Parsing\<close>

definition server_ws_parse_check_offset :: "ws_frame \<Rightarrow> nat \<Rightarrow> nat" where
  "server_ws_parse_check_offset f offset =
     offset + (if fpayload_len f = 126 then 2 else if fpayload_len f = 127 then 8 else 0) +
     (if fmask f then WS_MASKKEY_LEN else 0)"

text \<open>The header of the frame at \<open>p\<close>: the frame, its payload length and the payload's offset.\<close>

definition ws_header :: "u8 list \<Rightarrow> nat \<Rightarrow> (ws_frame \<times> nat \<times> nat) option" where
  "ws_header d p =
     (if length d < p + 2 then None
      else
        (let f = ws_frame_read (d ! p) (d ! Suc p);
             offset = server_ws_parse_check_offset f 2
         in if fpayload_len f = 126 then
              (if length d < p + 4 then None
               else Some (f, unat (WS_PAYLOAD_LEN16 d p), offset))
            else if fpayload_len f = 127 then
              (if length d < p + 3 then None
               else Some (f, unat (WS_PAYLOAD_LEN64 d p), offset))
            else Some (f, unat (fpayload_len f), offset)))"

text \<open>
  \<^verbatim>\<open>realloc\<close> of a byte buffer. The bytes it appends are unspecified in C; they are
  not 0 here, so that no search for a terminating NUL can be said to end in them.
\<close>

definition realloc_buf :: "u8 list \<Rightarrow> nat \<Rightarrow> u8 list" where
  "realloc_buf d n = take n d @ replicate (n - length d) 0xFF"

definition unmask_at :: "u8 list \<Rightarrow> nat \<Rightarrow> nat \<Rightarrow> u8 list" where
  "unmask_at d pp len =
     memcpy_at d pp
       (mask_buf (take len (drop pp d)) len
          (take WS_MASKKEY_LEN (drop (pp - WS_MASKKEY_LEN) d)) WS_MASKKEY_LEN)"

text \<open>
  \<^verbatim>\<open>ws_send_adv\<close>: the frame header, the extended length in network order, the mask key and the
  masked payload are combined into one buffer. \<^verbatim>\<open>frame.payload_len\<close> has 7 bits. The result has
  the caller's buffer too, which is masked in place.
\<close>

definition le_bytes :: "nat \<Rightarrow> nat \<Rightarrow> u8 list" where
  "le_bytes n x = map (\<lambda>i. of_nat (x div 256 ^ i)) [0..<n]"

definition ws_build :: "u8 \<Rightarrow> u8 list option \<Rightarrow> nat \<Rightarrow> u8 list option \<Rightarrow> u8 list \<times> u8 list option" where
  "ws_build opc buf len maskkey =
     (let frame = \<lparr>opcode = ucast opc, rsv3 = False, rsv2 = False, rsv1 = False, fin = True,
                   fpayload_len = of_nat len, fmask = maskkey \<noteq> None\<rparr>;
          (frame, ext) =
            (if 126 \<le> len then
               (if 65535 \<le> len
                then (frame\<lparr>fpayload_len := 127\<rparr>, [swpcpy (replicate 8 0) (le_bytes 8 len) 8])
                else (frame\<lparr>fpayload_len := 126\<rparr>, [swpcpy (replicate 2 0) (le_bytes 8 len) 2]))
             else (frame, []));
          masked = (case (maskkey, buf) of
                      (Some k, Some b) \<Rightarrow> Some (mask_buf b len k WS_MASKKEY_LEN)
                    | _ \<Rightarrow> buf);
          iov = [ws_frame_write frame] @ ext @
                (case maskkey of None \<Rightarrow> [] | Some k \<Rightarrow> [take WS_MASKKEY_LEN k]) @
                (case masked of None \<Rightarrow> [] | Some b \<Rightarrow> [take len b])
      in (fst (combine_buffers iov (length iov)), masked))"

definition ws_send_adv ::
  "client \<Rightarrow> u8 \<Rightarrow> u8 list option \<Rightarrow> nat \<Rightarrow> u8 list option \<Rightarrow> client \<times> int" where
  "ws_send_adv c opc buf len maskkey = server_send c (fst (ws_build opc buf len maskkey))"

definition ws_send :: "client \<Rightarrow> u8 list \<Rightarrow> client \<times> int" where
  "ws_send c buf = ws_send_adv c WS_TEXT_FRAME (Some buf) (length buf) None"

definition server_ws_pong :: "client \<Rightarrow> u8 list \<Rightarrow> client \<times> int" where
  "server_ws_pong c payload = ws_send_adv c WS_PONG_FRAME (Some payload) (length payload) None"

text \<open>
  The switch on the opcode. \<open>pp\<close> is the position of the (unmasked) payload. Only close frames
  return at once. The frames that are not handled are printed by \<^verbatim>\<open>warn\<close> with their payload
  as a \<^verbatim>\<open>%s\<close>: the payload is read up to the first NUL byte, which has to come before the
  allocation ends (the log level is the default, or any other at which warnings are printed).
\<close>

type_synonym 's text_handler = "'s \<Rightarrow> client \<Rightarrow> u8 list \<Rightarrow> nat \<Rightarrow> 's \<times> client \<times> client_recv_status"

definition ws_dispatch ::
  "'s text_handler \<Rightarrow> 's \<Rightarrow> client \<Rightarrow> u8 list \<Rightarrow> u8 \<Rightarrow> nat \<Rightarrow> nat \<Rightarrow>
    ('s \<times> client \<times> client_recv_status) option" where
  "ws_dispatch h s c d opc pp len =
     (if opc = WS_TEXT_FRAME then Some (h s c (drop pp d) len)
      else if opc = WS_PING_FRAME then Some (s, fst (server_ws_pong c (take len (drop pp d))), RECV_OK)
      else if 0 \<in> set (drop pp d) then Some (s, c, RECV_OK)
      else None)"

lemma ws_header_offset: "ws_header d p = Some (f, len, offset) \<Longrightarrow> 2 \<le> offset"
  by (auto simp: ws_header_def Let_def server_ws_parse_check_offset_def split: if_splits)

function server_ws_parse ::
  "'s text_handler \<Rightarrow> 's \<Rightarrow> client \<Rightarrow> nat \<Rightarrow> nat \<Rightarrow> ('s \<times> client \<times> client_recv_status) option" where
  "server_ws_parse h s c p buf_len =
     (case recv_data (recv c) of
        None \<Rightarrow> None
      | Some d \<Rightarrow>
          (case ws_header d p of
             None \<Rightarrow> None
           | Some (f, payload_len, offset) \<Rightarrow>
               (let total_size = payload_len + offset
                in if buf_len < total_size then
                     Some (s, set_recv (\<lambda>r. r\<lparr>recv_data := Some (realloc_buf d total_size),
                                data_size := total_size, recv_offset := buf_len, recv_busy := True\<rparr>) c,
                           RECV_OK)
                   else if length d < p + total_size then None
                   else
                     (let d1 = (if fmask f then unmask_at d (p + offset) payload_len else d);
                          c1 = set_recv (\<lambda>r. r\<lparr>recv_data := Some d1\<rparr>) c;
                          opc = ucast (opcode f)
                      in if opc = WS_CLOSE_FRAME then Some (s, c1, RECV_DISCONNECT)
                         else
                           (case ws_dispatch h s c1 d1 opc (p + offset) payload_len of
                              None \<Rightarrow> None
                            | Some (s2, c2, ret) \<Rightarrow>
                                if total_size < buf_len \<and> ret = RECV_OK
                                then server_ws_parse h s2 c2 (p + total_size) (buf_len - total_size)
                                else Some (s2, set_recv (\<lambda>r. r\<lparr>recv_busy := False\<rparr>) c2, ret))))))"
  by pat_completeness auto
termination
  by (relation "measure (\<lambda>(h, s, c, p, n). n)") (auto dest: ws_header_offset)

declare server_ws_parse.simps [simp del]

section \<open>Lemmas\<close>

lemma ws_frame_roundtrip:
  assumes "ws_frame_write f = [b0, b1]"
  shows "ws_frame_read b0 b1 = f"
proof -
  have b0: "b0 = ucast (opcode f) OR push_bit 4 (of_bool (rsv3 f)) OR push_bit 5 (of_bool (rsv2 f)) OR
      push_bit 6 (of_bool (rsv1 f)) OR push_bit 7 (of_bool (fin f))"
    and b1: "b1 = ucast (fpayload_len f) OR push_bit 7 (of_bool (fmask f))"
    using assms by (simp_all add: ws_frame_write_def)
  have nb: "\<not> bit (opcode f) n" if "4 \<le> n" for n
    using that bit_imp_le_length [of "opcode f" n] by auto
  have nb7: "\<not> bit (fpayload_len f) 7"
    using bit_imp_le_length [of "fpayload_len f" 7] by auto
  have "ucast b0 = opcode f"
    unfolding b0 by (rule bit_word_eqI) (auto simp: bit_simps)
  moreover have "ucast b1 = fpayload_len f"
    unfolding b1 by (rule bit_word_eqI) (auto simp: bit_simps)
  moreover have "bit b0 4 = rsv3 f" "bit b0 5 = rsv2 f" "bit b0 6 = rsv1 f" "bit b0 7 = fin f"
    unfolding b0 using nb by (simp_all add: bit_simps)
  moreover have "bit b1 7 = fmask f"
    unfolding b1 using nb7 by (simp add: bit_simps)
  ultimately show ?thesis by (simp add: ws_frame_read_def)
qed

section \<open>Frames that the server builds\<close>

definition built_frame :: "u8 \<Rightarrow> nat \<Rightarrow> u8 list option \<Rightarrow> ws_frame" where
  "built_frame opc len mk =
     \<lparr>opcode = ucast opc, rsv3 = False, rsv2 = False, rsv1 = False, fin = True,
      fpayload_len = (if 65535 \<le> len then 127 else if 126 \<le> len then 126 else of_nat len),
      fmask = mk \<noteq> None\<rparr>"

definition ext_bytes :: "nat \<Rightarrow> u8 list" where
  "ext_bytes len =
     (if len < 126 then [] else if len < 65535 then [of_nat (len div 256), of_nat len]
      else rev (le_bytes 8 len))"

definition key_ok :: "u8 list option \<Rightarrow> bool" where
  "key_ok mk \<longleftrightarrow> (case mk of None \<Rightarrow> True | Some k \<Rightarrow> length k = WS_MASKKEY_LEN)"

definition key_bytes :: "u8 list option \<Rightarrow> u8 list" where
  "key_bytes mk = (case mk of None \<Rightarrow> [] | Some k \<Rightarrow> k)"

definition masked_payload :: "u8 list option \<Rightarrow> u8 list \<Rightarrow> u8 list" where
  "masked_payload mk pl =
     (case mk of None \<Rightarrow> pl | Some k \<Rightarrow> mask_buf pl (length pl) k WS_MASKKEY_LEN)"

definition header_len :: "nat \<Rightarrow> u8 list option \<Rightarrow> nat" where
  "header_len len mk = 2 + length (ext_bytes len) + length (key_bytes mk)"

definition ws_bytes :: "u8 \<Rightarrow> u8 list option \<Rightarrow> u8 list \<Rightarrow> u8 list" where
  "ws_bytes opc mk pl = fst (ws_build opc (Some pl) (length pl) mk)"

lemma length_masked_payload [simp]: "length (masked_payload mk pl) = length pl"
  by (simp add: masked_payload_def split: option.split)

lemma length_frame_write [simp]: "length (ws_frame_write f) = 2"
  by (simp add: ws_frame_write_def)

lemma swpcpy_2: "swpcpy [0, 0] (le_bytes 8 len) 2 = [of_nat (len div 256), of_nat len]"
proof -
  have "[0..<2] = [0, 1::nat]" by (simp add: upt_rec)
  then show ?thesis by (simp add: swpcpy_def le_bytes_def)
qed

lemma swpcpy_rev: "length dest = n \<Longrightarrow> length src = n \<Longrightarrow> swpcpy dest src n = rev src"
  by (intro nth_equalityI) (simp_all add: swpcpy_def rev_nth)

lemma ws_bytes_eq:
  assumes "key_ok mk"
  shows "ws_bytes opc mk pl =
    ws_frame_write (built_frame opc (length pl) mk) @ ext_bytes (length pl) @ key_bytes mk @
    masked_payload mk pl"
proof -
  have "replicate 2 (0::u8) = [0, 0]" by (simp add: numeral_2_eq_2)
  then show ?thesis
    using assms swpcpy_rev [of "replicate 8 0" 8 "le_bytes 8 (length pl)"] swpcpy_2 [of "length pl"]
    by (auto simp: ws_bytes_def ws_build_def Let_def combine_buffers_eq built_frame_def ext_bytes_def
        key_bytes_def masked_payload_def key_ok_def le_bytes_def split: option.split)
qed

lemma payload_len16:
  assumes "len < 65536"
  shows "unat (push_bit 8 (ucast (of_nat (len div 256) :: u8)) OR ucast (of_nat len :: u8) :: u16) = len"
proof -
  have "push_bit 8 (ucast (of_nat (len div 256) :: u8)) OR ucast (of_nat len :: u8) = (of_nat len :: u16)"
  proof (rule bit_word_eqI)
    fix n assume "n < LENGTH(16)"
    have "bit (len div 256) (n - 8) = bit len n" if "8 \<le> n"
      using that fun_cong [OF bit_drop_bit_eq [of 8 len], of "n - 8"] by (simp add: drop_bit_eq_div)
    then show "bit (push_bit 8 (ucast (of_nat (len div 256) :: u8)) OR ucast (of_nat len :: u8) :: u16) n
        = bit (of_nat len :: u16) n"
      using \<open>n < LENGTH(16)\<close> by (auto simp: bit_simps)
  qed
  then show ?thesis using assms by (simp add: unat_of_nat)
qed

lemma small_len_ne:
  assumes "len < 126"
  shows "(of_nat len :: 7 word) \<noteq> 126" "(of_nat len :: 7 word) \<noteq> 127"
proof -
  have "unat (of_nat len :: 7 word) = len" using assms by (simp add: unat_of_nat)
  then show "(of_nat len :: 7 word) \<noteq> 126" "(of_nat len :: 7 word) \<noteq> 127" using assms by auto
qed

definition header_bytes :: "u8 \<Rightarrow> nat \<Rightarrow> u8 list option \<Rightarrow> u8 list" where
  "header_bytes opc len mk = ws_frame_write (built_frame opc len mk) @ ext_bytes len @ key_bytes mk"

lemma length_header_bytes [simp]: "length (header_bytes opc len mk) = header_len len mk"
  by (simp add: header_bytes_def header_len_def)

lemma check_offset_built:
  assumes key: "key_ok mk"
  shows "server_ws_parse_check_offset (built_frame opc len mk) 2 = header_len len mk"
  using key small_len_ne [of len]
  by (auto simp: server_ws_parse_check_offset_def header_len_def built_frame_def
      ext_bytes_def key_bytes_def key_ok_def le_bytes_def split: option.splits)

lemma ws_bytes_split:
  "key_ok mk \<Longrightarrow> ws_bytes opc mk pl = header_bytes opc (length pl) mk @ masked_payload mk pl"
  by (simp add: ws_bytes_eq header_bytes_def)

lemma ws_header_bytes:
  assumes key: "key_ok mk" and len: "len < 65535"
  shows "ws_header (pre @ header_bytes opc len mk @ post) (length pre) =
    Some (built_frame opc len mk, len, header_len len mk)"
proof -
  let ?f = "built_frame opc len mk"
  obtain b0 b1 where b: "ws_frame_write ?f = [b0, b1]" by (simp add: ws_frame_write_def)
  have f: "ws_frame_read b0 b1 = ?f" using b by (rule ws_frame_roundtrip)
  define rest where "rest = ext_bytes len @ key_bytes mk @ post"
  have d: "pre @ header_bytes opc len mk @ post = pre @ b0 # b1 # rest"
    by (simp add: header_bytes_def b rest_def)
  have off: "server_ws_parse_check_offset ?f 2 = header_len len mk"
    by (rule check_offset_built [OF key])
  show ?thesis
  proof (cases "len < 126")
    case True
    then have "fpayload_len ?f \<noteq> 126" "fpayload_len ?f \<noteq> 127" "unat (fpayload_len ?f) = len"
      by (simp_all add: built_frame_def unat_of_nat small_len_ne)
    then show ?thesis by (simp add: ws_header_def d nth_append f off)
  next
    case False
    then have fp: "fpayload_len ?f = 126" using len by (simp add: built_frame_def)
    obtain rest' where r: "rest = of_nat (len div 256) # of_nat len # rest'"
      using False len by (simp add: rest_def ext_bytes_def)
    have "unat (WS_PAYLOAD_LEN16 (pre @ b0 # b1 # rest) (length pre)) = len"
      using payload_len16 [of len] len by (simp add: WS_PAYLOAD_LEN16_def r nth_append)
    then show ?thesis by (simp add: ws_header_def d nth_append f off fp) (simp add: r)
  qed
qed

text \<open>
  With a 64-bit length the parser takes the most significant byte of the length for the length.
\<close>

lemma ws_header_long:
  assumes key: "key_ok mk" and len: "65535 \<le> len"
  shows "ws_header (pre @ header_bytes opc len mk @ post) (length pre) =
    Some (built_frame opc len mk, len div 2 ^ 56 mod 256, header_len len mk)"
proof -
  let ?f = "built_frame opc len mk"
  obtain b0 b1 where b: "ws_frame_write ?f = [b0, b1]" by (simp add: ws_frame_write_def)
  have f: "ws_frame_read b0 b1 = ?f" using b by (rule ws_frame_roundtrip)
  define rest where "rest = ext_bytes len @ key_bytes mk @ post"
  have d: "pre @ header_bytes opc len mk @ post = pre @ b0 # b1 # rest"
    by (simp add: header_bytes_def b rest_def)
  have off: "server_ws_parse_check_offset ?f 2 = header_len len mk"
    by (rule check_offset_built [OF key])
  have "rev (le_bytes 8 len) ! 0 = of_nat (len div 2 ^ 56)"
    by (simp add: le_bytes_def rev_nth)
  then obtain rest' where r: "rest = of_nat (len div 2 ^ 56) # rest'"
    using len by (cases "rev (le_bytes 8 len)") (auto simp: rest_def ext_bytes_def le_bytes_def)
  have fp: "fpayload_len ?f = 127" using len by (simp add: built_frame_def)
  have "unat (WS_PAYLOAD_LEN64 (pre @ b0 # b1 # rest) (length pre)) = len div 2 ^ 56 mod 256"
    by (simp add: WS_PAYLOAD_LEN64_def r nth_append unsigned_ucast_eq take_bit_eq_mod unat_of_nat)
  then show ?thesis by (simp add: ws_header_def d nth_append f off fp) (simp add: r)
qed

lemma unmask_frame:
  assumes "length k = WS_MASKKEY_LEN"
  shows "unmask_at (pre @ header_bytes opc (length pl) (Some k) @ masked_payload (Some k) pl @ post)
      (length pre + header_len (length pl) (Some k)) (length pl)
    = pre @ header_bytes opc (length pl) (Some k) @ pl @ post"
proof -
  let ?h = "ws_frame_write (built_frame opc (length pl) (Some k)) @ ext_bytes (length pl)"
  let ?m = "masked_payload (Some k) pl"
  let ?d = "pre @ header_bytes opc (length pl) (Some k) @ ?m @ post"
  let ?pp = "length pre + header_len (length pl) (Some k)"
  have d: "?d = (pre @ ?h) @ k @ ?m @ post" by (simp add: header_bytes_def key_bytes_def)
  have len: "?pp - WS_MASKKEY_LEN = length (pre @ ?h)"
    using assms by (simp add: header_len_def key_bytes_def)
  have "take WS_MASKKEY_LEN (drop (?pp - WS_MASKKEY_LEN) ?d) = k"
    unfolding len d drop_append using assms by simp
  moreover have "take (length pl) (drop ?pp ?d) = ?m" by simp
  moreover have "mask_buf ?m (length pl) k WS_MASKKEY_LEN = pl"
    by (simp add: masked_payload_def mask_buf_involution)
  ultimately show ?thesis by (simp add: unmask_at_def memcpy_at_def)
qed

lemma ucast_opcode:
  assumes "opc < 16"
  shows "ucast (ucast (opc :: u8) :: 4 word) = opc"
proof -
  have "unat opc < 16" using assms by (simp add: word_less_nat_alt)
  then have "unat (ucast (ucast opc :: 4 word) :: u8) = unat opc"
    by (simp only: unsigned_ucast_eq take_bit_eq_mod) (simp add: unat_mod_distrib)
  then show ?thesis by (simp add: unsigned_word_eqI)
qed

text \<open>One frame, complete in the buffer, is unmasked and dispatched; what follows it is parsed next.\<close>

lemma ws_parse_frame:
  assumes key: "key_ok mk" and len: "length pl < 65535" and opc: "opc < 16"
    and d: "recv_data (recv c) = Some (pre @ ws_bytes opc mk pl @ post)" and r: "r \<le> length post"
  defines "d1 \<equiv> pre @ header_bytes opc (length pl) mk @ pl @ post"
  defines "c1 \<equiv> set_recv (\<lambda>r. r\<lparr>recv_data := Some d1\<rparr>) c"
  shows "server_ws_parse h s c (length pre) (length (ws_bytes opc mk pl) + r) =
    (if opc = WS_CLOSE_FRAME then Some (s, c1, RECV_DISCONNECT)
     else
       (case ws_dispatch h s c1 d1 opc (length pre + header_len (length pl) mk) (length pl) of
          None \<Rightarrow> None
        | Some (s2, c2, ret) \<Rightarrow>
            if 0 < r \<and> ret = RECV_OK
            then server_ws_parse h s2 c2 (length pre + length (ws_bytes opc mk pl)) r
            else Some (s2, set_recv (\<lambda>r. r\<lparr>recv_busy := False\<rparr>) c2, ret)))"
proof -
  let ?d = "pre @ ws_bytes opc mk pl @ post"
  let ?f = "built_frame opc (length pl) mk"
  have hd: "ws_header ?d (length pre) = Some (?f, length pl, header_len (length pl) mk)"
    using ws_header_bytes [OF key len, of pre opc "masked_payload mk pl @ post"]
    by (simp add: ws_bytes_split [OF key])
  have total: "length pl + header_len (length pl) mk = length (ws_bytes opc mk pl)"
    by (simp add: ws_bytes_split [OF key])
  have un: "(if fmask ?f then unmask_at ?d (length pre + header_len (length pl) mk) (length pl) else ?d) = d1"
  proof (cases mk)
    case None
    then show ?thesis
      using ws_bytes_split [OF key] by (simp add: d1_def built_frame_def masked_payload_def)
  next
    case (Some k)
    then show ?thesis
      using unmask_frame [of k pre opc pl post] key
      by (simp add: d1_def ws_bytes_split built_frame_def key_ok_def)
  qed
  have op: "ucast (opcode ?f) = opc" using ucast_opcode [OF opc] by (simp add: built_frame_def)
  show ?thesis
    apply (subst server_ws_parse.simps)
    unfolding d hd un op option.case prod.case Let_def c1_def total
    using r by (simp split: prod.split option.split)
qed

section \<open>Buffers of several frames\<close>

text \<open>The messages a buffer of text frames should deliver, in order, until one ends the connection.\<close>

fun run_texts :: "('s \<Rightarrow> u8 list \<Rightarrow> 's \<times> client_recv_status) \<Rightarrow> 's \<Rightarrow> u8 list list \<Rightarrow> 's \<times> client_recv_status" where
  "run_texts g s [] = (s, RECV_OK)"
| "run_texts g s (pl # pls) =
     (case g s pl of (s', st) \<Rightarrow> if st = RECV_OK then run_texts g s' pls else (s', st))"

definition text_handler_of :: "('s \<Rightarrow> u8 list \<Rightarrow> 's \<times> client_recv_status) \<Rightarrow> 's text_handler" where
  "text_handler_of g s c m n = (case g s (take n m) of (s', st) \<Rightarrow> (s', c, st))"

lemma ws_parse_frames:
  assumes "frames \<noteq> []" "\<forall>(mk, pl)\<in>set frames. key_ok mk \<and> length pl < 65535"
    and "recv_data (recv c) = Some (pre @ concat (map (\<lambda>(mk, pl). ws_bytes WS_TEXT_FRAME mk pl) frames) @ post)"
  shows "\<exists>c1. set_recv (\<lambda>_. recv c) c1 = c \<and> \<not> recv_busy (recv c1) \<and>
    server_ws_parse (text_handler_of g) s c (length pre)
      (length (concat (map (\<lambda>(mk, pl). ws_bytes WS_TEXT_FRAME mk pl) frames))) =
    Some (fst (run_texts g s (map snd frames)), c1, snd (run_texts g s (map snd frames)))"
  using assms
proof (induction frames arbitrary: s c pre)
  case Nil
  then show ?case by simp
next
  case (Cons fr frames)
  obtain mk pl where fr: "fr = (mk, pl)" by fastforce
  define tl where "tl = concat (map (\<lambda>(mk, pl). ws_bytes WS_TEXT_FRAME mk pl) frames)"
  have key: "key_ok mk" and len: "length pl < 65535" using Cons.prems(2) fr by auto
  have d: "recv_data (recv c) = Some (pre @ ws_bytes WS_TEXT_FRAME mk pl @ (tl @ post))"
    using Cons.prems(3) fr by (simp add: tl_def)
  define pre1 where "pre1 = pre @ header_bytes WS_TEXT_FRAME (length pl) mk @ pl"
  define c1 where "c1 = set_recv (\<lambda>r. r\<lparr>recv_data := Some (pre1 @ tl @ post)\<rparr>) c"
  obtain s2 st where g: "g s pl = (s2, st)" by fastforce
  have step: "server_ws_parse (text_handler_of g) s c (length pre)
      (length (ws_bytes WS_TEXT_FRAME mk pl) + length tl) =
    (if 0 < length tl \<and> st = RECV_OK
     then server_ws_parse (text_handler_of g) s2 c1 (length pre1) (length tl)
     else Some (s2, set_recv (\<lambda>r. r\<lparr>recv_busy := False\<rparr>) c1, st))"
    using ws_parse_frame [OF key len _ d, of "length tl" "text_handler_of g" s] g
    by (simp add: ws_dispatch_def ws_consts text_handler_of_def pre1_def c1_def
        ws_bytes_split [OF key])
  have lens: "length (concat (map (\<lambda>(mk, pl). ws_bytes WS_TEXT_FRAME mk pl) (fr # frames))) =
      length (ws_bytes WS_TEXT_FRAME mk pl) + length tl"
    by (simp add: fr tl_def)
  show ?case
  proof (cases "frames \<noteq> [] \<and> st = RECV_OK")
    case True
    have ne: "0 < length tl"
    proof -
      obtain mk' pl' fs where fs: "frames = (mk', pl') # fs" using True by (cases frames) auto
      have "key_ok mk'" using Cons.prems(2) fs by auto
      then show ?thesis by (simp add: tl_def fs ws_bytes_eq)
    qed
    have "recv_data (recv c1) = Some (pre1 @ tl @ post)" by (simp add: c1_def)
    then obtain c2 where c2: "set_recv (\<lambda>_. recv c1) c2 = c1" "\<not> recv_busy (recv c2)"
      "server_ws_parse (text_handler_of g) s2 c1 (length pre1) (length tl) =
        Some (fst (run_texts g s2 (map snd frames)), c2, snd (run_texts g s2 (map snd frames)))"
      using Cons.IH [of c1 pre1 s2] True Cons.prems(2) by (auto simp: tl_def)
    have "set_recv (\<lambda>_. recv c) c2 = c"
      using c2(1) by (cases c2; cases c) (simp add: set_recv_def c1_def)
    then show ?thesis using step lens c2 True ne g fr by (auto intro!: exI [of _ c2])
  next
    case False
    have "run_texts g s (map snd (fr # frames)) = (s2, st)"
      using False g fr by (cases frames) auto
    moreover have last: "\<not> (0 < length tl \<and> st = RECV_OK)" using False by (auto simp: tl_def)
    moreover from last have "server_ws_parse (text_handler_of g) s c (length pre)
        (length (ws_bytes WS_TEXT_FRAME mk pl) + length tl) =
      Some (s2, set_recv (\<lambda>r. r\<lparr>recv_busy := False\<rparr>) c1, st)"
      using step by (simp only: if_False)
    ultimately show ?thesis using lens
      by (intro exI [of _ "set_recv (\<lambda>r. r\<lparr>recv_busy := False\<rparr>) c1"]) (simp add: c1_def set_recv_def)
  qed
qed

section \<open>Properties\<close>

text \<open>
  C14. Round trip: a receive buffer that holds any number of text frames as \<^verbatim>\<open>ws_send_adv\<close>
  builds them, masked or not, each payload shorter than 65535 bytes, delivers exactly their
  unmasked payloads to the handler, in order and up to the first one whose handler does not
  return \<open>RECV_OK\<close>; the buffer is then free again and nothing else of the client has changed.
\<close>

theorem ws_parse_delivers_frames:
  assumes "frames \<noteq> []" "\<forall>(mk, pl)\<in>set frames. key_ok mk \<and> length pl < 65535"
    and "recv_data (recv c) = Some (concat (map (\<lambda>(mk, pl). ws_bytes WS_TEXT_FRAME mk pl) frames) @ post)"
  shows "\<exists>c1. set_recv (\<lambda>_. recv c) c1 = c \<and> \<not> recv_busy (recv c1) \<and>
    server_ws_parse (text_handler_of g) s c 0
      (length (concat (map (\<lambda>(mk, pl). ws_bytes WS_TEXT_FRAME mk pl) frames))) =
    Some (fst (run_texts g s (map snd frames)), c1, snd (run_texts g s (map snd frames)))"
  using ws_parse_frames [of frames c "[]" post g s] assms by simp

definition demo_client :: "u8 list \<Rightarrow> client" where
  "demo_client d = set_recv (\<lambda>r. r\<lparr>recv_data := Some d, data_size := length d\<rparr>) (client_zero 7 (\<lambda>_. 1))"

theorem ws_parse_delivers_frames_witness:
  "\<exists>c1. server_ws_parse (text_handler_of (\<lambda>s pl. (s @ [pl], RECV_OK))) []
      (demo_client (ws_bytes WS_TEXT_FRAME (Some [1, 2, 3, 4]) [104, 105] @ ws_bytes WS_TEXT_FRAME None [111, 107])) 0
      (length (ws_bytes WS_TEXT_FRAME (Some [1, 2, 3, 4]) [104, 105] @ ws_bytes WS_TEXT_FRAME None [111, 107])) =
    Some ([[104, 105], [111, 107]], c1, RECV_OK)"
  using ws_parse_delivers_frames [of "[(Some [1, 2, 3, 4], [104, 105]), (None, [111, 107])]"
      "demo_client (ws_bytes WS_TEXT_FRAME (Some [1, 2, 3, 4]) [104, 105] @ ws_bytes WS_TEXT_FRAME None [111, 107])"
      "[]" "\<lambda>s pl. (s @ [pl], RECV_OK)" "[]"]
  by (auto simp: key_ok_def WS_MASKKEY_LEN_def demo_client_def simp del: length_append)

text \<open>
  A frame whose header has arrived but whose payload has not is not delivered: the parser
  calls no handler, keeps the received bytes, and asks for exactly the rest of the frame (the
  buffer becomes as large as the frame, the next bytes go behind the received ones).
\<close>

lemma ws_partial_frame:
  assumes "key_ok mk" "length pl < 65535"
    and "header_len (length pl) mk \<le> n" "n < length (ws_bytes opc mk pl)"
    and "recv_data (recv c) = Some (take n (ws_bytes opc mk pl) @ junk)"
  shows "\<exists>c1 d1. server_ws_parse h s c 0 n = Some (s, c1, RECV_OK) \<and> sent c1 = sent c \<and>
    recv_data (recv c1) = Some d1 \<and> take n d1 = take n (ws_bytes opc mk pl) \<and>
    length d1 = length (ws_bytes opc mk pl) \<and> data_size (recv c1) = length (ws_bytes opc mk pl) \<and>
    recv_offset (recv c1) = n \<and> recv_busy (recv c1)"
proof -
  let ?d = "take n (ws_bytes opc mk pl) @ junk"
  have d: "?d = header_bytes opc (length pl) mk @
      take (n - header_len (length pl) mk) (masked_payload mk pl) @ junk"
    using assms(3) by (simp add: ws_bytes_split [OF assms(1)])
  have total: "length pl + header_len (length pl) mk = length (ws_bytes opc mk pl)"
    by (simp add: ws_bytes_split [OF assms(1)])
  have "ws_header ?d 0 = Some (built_frame opc (length pl) mk, length pl, header_len (length pl) mk)"
    using ws_header_bytes [OF assms(1,2), of "[]" opc] by (simp add: d)
  then have "server_ws_parse h s c 0 n =
      Some (s, set_recv (\<lambda>r. r\<lparr>recv_data := Some (realloc_buf ?d (length (ws_bytes opc mk pl))),
        data_size := length (ws_bytes opc mk pl), recv_offset := n, recv_busy := True\<rparr>) c, RECV_OK)"
    using assms(4,5) total by (simp add: server_ws_parse.simps [of h s c 0 n] Let_def)
  moreover have "take n (realloc_buf ?d (length (ws_bytes opc mk pl))) = take n (ws_bytes opc mk pl)"
    using assms(4) by (simp add: realloc_buf_def take_take min_def)
  ultimately show ?thesis using assms(4) by (auto simp: realloc_buf_def)
qed

text \<open>
  C15. A frame with a 64-bit length is misread: for a payload of at least 65535 and less than
  \<open>2 ^ 56\<close> bytes the parser takes the payload to be empty (it reads one byte of the eight),
  although the server itself sends frames of that form.
\<close>

theorem ws_long_frame_misread:
  assumes "key_ok mk" "65535 \<le> length pl" "length pl < 2 ^ 56"
  shows "ws_bytes opc mk pl = header_bytes opc (length pl) mk @ masked_payload mk pl \<and>
    ws_header (pre @ ws_bytes opc mk pl @ post) (length pre) =
      Some (built_frame opc (length pl) mk, 0, header_len (length pl) mk) \<and> length pl \<noteq> 0"
  using ws_header_long [OF assms(1,2), of pre opc "masked_payload mk pl @ post"]
    ws_bytes_split [OF assms(1), of opc pl] assms by auto

theorem ws_long_frame_misread_witness:
  "ws_header (ws_bytes WS_TEXT_FRAME None (replicate 65535 0)) 0 =
    Some (built_frame WS_TEXT_FRAME 65535 None, 0, header_len 65535 None)"
  using conjunct1 [OF conjunct2 [OF ws_long_frame_misread [of None "replicate 65535 0" WS_TEXT_FRAME "[]" "[]"]]]
  by (simp add: key_ok_def)

definition keeps_recv :: "'s text_handler \<Rightarrow> bool" where
  "keeps_recv h \<longleftrightarrow> (\<forall>s c m n. recv (fst (snd (h s c m n))) = recv c)"

lemma ws_header_room: "p + 4 \<le> length d \<Longrightarrow> ws_header d p \<noteq> None"
  by (simp add: ws_header_def Let_def)

lemma dispatch_keeps_recv:
  "keeps_recv h \<Longrightarrow> ws_dispatch h s c d opc pp len = Some (s2, c2, ret) \<Longrightarrow> recv c2 = recv c"
  unfolding keeps_recv_def ws_dispatch_def server_ws_pong_def ws_send_adv_def
  by (auto split: if_splits dest: spec [of _ s]) (metis fst_conv snd_conv)

lemma length_unmask_at:
  "pp + len \<le> length d \<Longrightarrow> length (unmask_at d pp len) = length d"
  by (simp add: unmask_at_def mask_buf_def)

lemma drop_unmask_at: "pp + len \<le> k \<Longrightarrow> k \<le> length d \<Longrightarrow> drop k (unmask_at d pp len) = drop k d"
  by (simp add: unmask_at_def mask_buf_def memcpy_at_def min_def)

lemma set_drop_mono: "j \<le> k \<Longrightarrow> x \<in> set (drop k xs) \<Longrightarrow> x \<in> set (drop j xs)"
  using set_drop_subset_set_drop [of j k xs] by blast

text \<open>
  C16. Memory safety of the parser: if the allocation has three bytes behind the received ones, one
  of the bytes behind them is 0 (as in the zeroed block of 4096 bytes, of which at most 4095 are
  received), and the handler does not touch the receive buffer, then no header, mask or payload
  access and no print of a payload leaves the allocation, whatever bytes were received and
  whichever frames they form.
\<close>

theorem ws_parse_memory_safe:
  assumes "keeps_recv h" "0 < n" "recv_data (recv c) = Some d" "p + n + 3 \<le> length d"
    and "0 \<in> set (drop (p + n) d)"
  shows "server_ws_parse h s c p n \<noteq> None"
  using assms
proof (induction n arbitrary: s c p d rule: less_induct)
  case (less n)
  have d: "recv_data (recv c) = Some d" by (rule less.prems)
  obtain f len off where hd: "ws_header d p = Some (f, len, off)"
    using ws_header_room [of p d] less.prems by (cases "ws_header d p") auto
  show ?case
  proof (cases "n < len + off")
    case True
    then show ?thesis by (simp add: server_ws_parse.simps [of h s c p n] d hd Let_def)
  next
    case False
    define d1 where "d1 = (if fmask f then unmask_at d (p + off) len else d)"
    define c1 where "c1 = set_recv (\<lambda>r. r\<lparr>recv_data := Some d1\<rparr>) c"
    define opc :: u8 where "opc = ucast (opcode f)"
    have len1: "length d1 = length d" and tail: "drop (p + n) d1 = drop (p + n) d"
      using False less.prems by (simp_all add: d1_def length_unmask_at drop_unmask_at)
    have "0 \<in> set (drop (p + off) d1)"
      using less.prems(5) False tail by (intro set_drop_mono [of "p + off" "p + n"]) simp_all
    then obtain s2 c2 ret where dp: "ws_dispatch h s c1 d1 opc (p + off) len = Some (s2, c2, ret)"
      by (cases "ws_dispatch h s c1 d1 opc (p + off) len") (auto simp: ws_dispatch_def split: if_splits)
    have rc: "recv_data (recv c2) = Some d1"
      using dispatch_keeps_recv [OF less.prems(1) dp] by (simp add: c1_def)
    have step: "server_ws_parse h s c p n =
      (if opc = WS_CLOSE_FRAME then Some (s, c1, RECV_DISCONNECT)
       else if len + off < n \<and> ret = RECV_OK then server_ws_parse h s2 c2 (p + (len + off)) (n - (len + off))
       else Some (s2, set_recv (\<lambda>r. r\<lparr>recv_busy := False\<rparr>) c2, ret))"
      using False less.prems(4) dp
      by (simp add: server_ws_parse.simps [of h s c p n] d hd d1_def [symmetric] c1_def [symmetric]
          opc_def [symmetric] Let_def)
    have "server_ws_parse h s2 c2 (p + (len + off)) (n - (len + off)) \<noteq> None" if "len + off < n"
    proof (rule less.IH [OF _ less.prems(1) _ rc])
      show "n - (len + off) < n" "0 < n - (len + off)" using that ws_header_offset [OF hd] by simp_all
      show "p + (len + off) + (n - (len + off)) + 3 \<le> length d1" using that len1 less.prems(4) by simp
      show "0 \<in> set (drop (p + (len + off) + (n - (len + off))) d1)" using that tail less.prems(5) by simp
    qed
    then show ?thesis using step by auto
  qed
qed

theorem ws_parse_memory_safe_witness:
  "server_ws_parse (text_handler_of (\<lambda>s pl. (s @ [pl], RECV_OK))) [] (demo_client [130, 2, 104, 105, 0, 0, 0]) 0 4 \<noteq> None"
  by (rule ws_parse_memory_safe [where d = "[130, 2, 104, 105, 0, 0, 0]"])
    (simp_all add: keeps_recv_def text_handler_of_def demo_client_def)

text \<open>
  C3. A frame that is not handled and comes in two pieces is read beyond its allocation: for any
  continuation, binary, pong or unknown frame whose payload has no zero byte, masked or not, the
  first piece (its header and any part of its payload) makes the parser allocate exactly the
  frame, and once the rest has arrived the print of the payload finds no NUL in that allocation.
\<close>

theorem ws_unhandled_frame_overread:
  assumes "key_ok mk" "length pl < 65535" "0 \<notin> set pl" "opc < 16"
    and "opc \<notin> {WS_TEXT_FRAME, WS_PING_FRAME, WS_CLOSE_FRAME}"
    and "header_len (length pl) mk \<le> n" "n < length (ws_bytes opc mk pl)"
    and "recv_data (recv c) = Some (take n (ws_bytes opc mk pl) @ junk)"
  shows "\<exists>c1 d1. server_ws_parse h s c 0 n = Some (s, c1, RECV_OK) \<and>
    recv_data (recv c1) = Some d1 \<and> recv_offset (recv c1) = n \<and>
    data_size (recv c1) - n = length (drop n (ws_bytes opc mk pl)) \<and>
    server_ws_parse h s
      (set_recv (\<lambda>r. r\<lparr>recv_data := Some (memcpy_at d1 n (drop n (ws_bytes opc mk pl)))\<rparr>) c1) 0
      (length (ws_bytes opc mk pl)) = None"
proof -
  let ?b = "ws_bytes opc mk pl"
  obtain c1 d1 where c1: "server_ws_parse h s c 0 n = Some (s, c1, RECV_OK)" "recv_data (recv c1) = Some d1"
    "take n d1 = take n ?b" "length d1 = length ?b" "data_size (recv c1) = length ?b" "recv_offset (recv c1) = n"
    using ws_partial_frame [OF assms(1,2,6,7,8)] by metis
  have m: "memcpy_at d1 n (drop n ?b) = ?b"
    using c1(3,4) assms(7) by (simp add: memcpy_at_def)
  let ?c = "set_recv (\<lambda>r. r\<lparr>recv_data := Some ?b\<rparr>) c1"
  have "server_ws_parse h s ?c (length ([] :: u8 list)) (length ?b + 0) = None"
    by (subst ws_parse_frame [OF assms(1,2,4), of ?c "[]" "[]"])
      (use assms(3,5) in \<open>simp_all add: ws_dispatch_def\<close>)
  then show ?thesis using c1 m assms(7) by auto
qed

theorem ws_unhandled_frame_overread_witness:
  "\<exists>c1. server_ws_parse (text_handler_of (\<lambda>s pl. (s @ [pl], RECV_OK))) [] c1 0
     (length (ws_bytes WS_BINARY_FRAME None [104, 105])) = None"
proof -
  let ?b = "ws_bytes WS_BINARY_FRAME None [104, 105]"
  let ?h = "text_handler_of (\<lambda>s pl. (s @ [pl], RECV_OK))"
  have "\<exists>c1 d1. server_ws_parse ?h [] (demo_client (take 3 ?b @ [0])) 0 3 = Some ([], c1, RECV_OK) \<and>
    recv_data (recv c1) = Some d1 \<and> recv_offset (recv c1) = 3 \<and> data_size (recv c1) - 3 = length (drop 3 ?b) \<and>
    server_ws_parse ?h [] (set_recv (\<lambda>r. r\<lparr>recv_data := Some (memcpy_at d1 3 (drop 3 ?b))\<rparr>) c1) 0 (length ?b) = None"
    by (rule ws_unhandled_frame_overread)
      (simp_all add: key_ok_def header_len_def ext_bytes_def key_bytes_def ws_bytes_eq masked_payload_def
        demo_client_def ws_consts)
  then show ?thesis by blast
qed

end
