(* ===== verification/Server_Http.thy ===== *)
theory Server_Http
  imports Server_Client
begin

text \<open>
  Parsing and handling of HTTP requests: the rest of \<^verbatim>\<open>server/src/server_http.c\<close>,
  \<^verbatim>\<open>server/src/server_http_get.c\<close> and the dispatch of \<^verbatim>\<open>server_http_post.c\<close>.

  The receive buffer is the list of its characters, NULs included, and the parser edits it in
  place, so every token is read at the moment the code reads it. A \<^verbatim>\<open>NULL\<close> dereference is the
  result \<open>Fault\<close>. What the code takes from outside (the file system, libmagic, SHA-1 and base64
  of OpenSSL) and the upload handler behind POST are the fields of \<open>http_env\<close>.
\<close>

datatype 'a parse_result = Parsed 'a | Rejected | Fault

record 's http_env =
  root_dir :: string
  isdir :: "string \<Rightarrow> int"
  read_file :: "string \<Rightarrow> string option"
  mime_type :: "string \<Rightarrow> string option"
  sha1_base64 :: "string \<Rightarrow> string"
  user_upload :: "'s \<Rightarrow> client \<Rightarrow> http \<Rightarrow> 's \<times> client"

section \<open>Headers that change the client\<close>

text \<open>The loop of \<^verbatim>\<open>set_client_connection\<close> over the tokens of the header's value.\<close>

function connection_tokens :: "string \<Rightarrow> nat \<Rightarrow> string list" where
  "connection_tokens buf p =
     (case strtok buf p '', '' of
        (buf', q, None) \<Rightarrow> []
      | (buf', q, Some t) \<Rightarrow> cstr buf' t # connection_tokens buf' q)"
  by pat_completeness auto
termination
  by (relation "measure (\<lambda>(buf, p). length buf - p)") (auto dest!: strtok_measure [OF sym])

declare connection_tokens.simps [simp del]

definition connection_token :: "string \<Rightarrow> client \<Rightarrow> client" where
  "connection_token token c =
     (if strncmp_eq token ''keep-alive'' HTTP_HEAD_VAL_LEN
      then c\<lparr>cstate := cstate c OR CLIENT_STATE_KEEP_ALIVE\<rparr>
      else if strncmp_eq token ''close'' HTTP_HEAD_VAL_LEN
      then c\<lparr>cstate := CLIENT_STATE_SHORT_LIVE\<rparr>
      else if strncmp_eq token ''Upgrade'' HTTP_HEAD_VAL_LEN
      then c\<lparr>cstate := cstate c OR CLIENT_STATE_UPGRADE_PENDING\<rparr>
      else c)"

text \<open>The value of the header is cut behind its first token, where \<^verbatim>\<open>strtok_r\<close> writes a NUL.\<close>

definition set_client_connection :: "client \<Rightarrow> http \<Rightarrow> nat \<Rightarrow> client \<times> http" where
  "set_client_connection c http i =
     (let buf = header_val http i @ [NUL];
          (buf', _, _) = strtok buf 0 '', '';
          h = headers http ! i
      in (fold connection_token (connection_tokens buf 0) c,
          http\<lparr>headers := (headers http)[i := h\<lparr>hval := take HTTP_HEAD_VAL_LEN (cstr buf' 0)\<rparr>]\<rparr>))"

definition handle_http_upgrade :: "client \<Rightarrow> http \<Rightarrow> nat option \<Rightarrow> client parse_result" where
  "handle_http_upgrade c http upgrade =
     (if has_state c CLIENT_STATE_UPGRADE_PENDING then
        (case upgrade of
           None \<Rightarrow> Fault
         | Some i \<Rightarrow>
             Parsed (if strncmp_eq (header_val http i) ''websocket'' HTTP_HEAD_VAL_LEN
                     then c\<lparr>cstate := cstate c OR CLIENT_STATE_WEBSOCKET\<rparr> else c))
      else Parsed c)"

text \<open>
  \<^verbatim>\<open>server_compute_websocket_key\<close>: the base64 text of OpenSSL's filter ends in a line end,
  over which the code writes the terminating NUL.
\<close>

definition server_compute_websocket_key :: "'s http_env \<Rightarrow> string \<Rightarrow> string" where
  "server_compute_websocket_key env key =
     butlast (sha1_base64 env (key @ ''258EAFA5-E914-47DA-95CA-C5AB0DC85B11''))"

definition handle_http_header :: "'s http_env \<Rightarrow> nat \<Rightarrow> client \<times> http \<Rightarrow> client \<times> http" where
  "handle_http_header env i = (\<lambda>(c, http).
     (let h = headers http ! i
      in if name_cmp h ''Content-Length''
         then (c, http\<lparr>body_len := unat (strtoul 10 (header_val http i))\<rparr>)
         else if name_cmp h ''Connection'' then set_client_connection c http i
         else if name_cmp h ''Sec-WebSocket-Key''
         then (c, http\<lparr>websocket_key := Some (server_compute_websocket_key env (header_val http i))\<rparr>)
         else (c, http)))"

section \<open>The request line\<close>

text \<open>
  The loop over the parameters of the URL. A parameter of \<^verbatim>\<open>=\<close> characters only has no key
  token, and \<^verbatim>\<open>strncpy\<close> reads from \<^verbatim>\<open>NULL\<close>.
\<close>

function parse_params :: "http \<Rightarrow> string \<Rightarrow> nat option \<Rightarrow> nat \<Rightarrow> (http \<times> string) parse_result" where
  "parse_params http buf param endptr =
     (if n_params http < HTTP_MAX_PARAMS then
        (case param of
           None \<Rightarrow> Parsed (http, buf)
         | Some pp \<Rightarrow>
             (case strtok buf pp ''='' of
                (buf1, _, None) \<Rightarrow> Fault
              | (buf1, v, Some k) \<Rightarrow>
                  (let p = \<lparr>hname = take HTTP_HEAD_NAME_LEN (cstr buf1 k),
                            hval = take HTTP_HEAD_VAL_LEN (cstr buf1 v)\<rparr>;
                       (buf2, endptr2, param2) = strtok buf1 endptr ''&''
                   in parse_params
                        (http\<lparr>params := (params http)[n_params http := p],
                              n_params := Suc (n_params http)\<rparr>) buf2 param2 endptr2)))
      else Parsed (http, buf))"
  by pat_completeness auto
termination
  by (relation "measure (\<lambda>(http, buf, param, e). HTTP_MAX_PARAMS - n_params http)") auto

declare parse_params.simps [simp del]

definition parse_url :: "http \<Rightarrow> string \<Rightarrow> nat \<Rightarrow> (http \<times> string) parse_result" where
  "parse_url http buf url =
     (let (buf1, params_line, path) = strtok buf url ''?'';
          res = (if cstr buf1 params_line \<noteq> [] then
                   (let (buf2, endptr, param) = strtok buf1 params_line ''&''
                    in parse_params http buf2 param endptr)
                 else Parsed (http, buf1))
      in case res of
           Parsed (http', buf') \<Rightarrow>
             (case path of
                None \<Rightarrow> Fault
              | Some p \<Rightarrow> Parsed (http'\<lparr>req_url := take HTTP_URL_LEN (cstr buf' p)\<rparr>, buf'))
         | Rejected \<Rightarrow> Rejected
         | Fault \<Rightarrow> Fault)"

text \<open>
  The tokens of the first line, from the position \<open>line\<close>. The third copy is bounded by
  \<^verbatim>\<open>HTTP_METHOD_LEN\<close> for a request's version, as in the source.
\<close>

definition parse_first_line :: "http \<Rightarrow> string \<Rightarrow> nat \<Rightarrow> (http \<times> string) parse_result" where
  "parse_first_line http buf line =
     (case strtok buf line '' '' of
        (buf1, q1, None) \<Rightarrow> Rejected
      | (buf1, q1, Some t1) \<Rightarrow>
          (let tok = cstr buf1 t1;
               http1 = (if find_sub tok ''HTTP/'' \<noteq> None
                        then http\<lparr>htype := HTTP_RESPOND, resp_version := take HTTP_VERSION_LEN tok\<rparr>
                        else http\<lparr>htype := HTTP_REQUEST, req_method := take HTTP_METHOD_LEN tok\<rparr>);
               (buf2, q2, t2) = strtok buf1 q1 '' '';
               res = (case t2 of
                        None \<Rightarrow> Parsed (http1, buf2)
                      | Some t \<Rightarrow>
                          if htype http1 = HTTP_REQUEST then parse_url http1 buf2 t
                          else Parsed (http1\<lparr>resp_code := ucast (atoi (cstr buf2 t))\<rparr>, buf2))
           in case res of
                Parsed (http2, buf3) \<Rightarrow>
                  (let (buf4, q3, t3) = strtok buf3 q2 HTTP_NL
                   in case t3 of
                        None \<Rightarrow> Parsed (http2, buf4)
                      | Some t \<Rightarrow>
                          Parsed (if htype http2 = HTTP_REQUEST
                                  then http2\<lparr>req_version := take HTTP_METHOD_LEN (cstr buf4 t)\<rparr>
                                  else http2\<lparr>resp_msg := take HTTP_STATUS_MSG_LEN (cstr buf4 t)\<rparr>,
                                  buf4))
              | Rejected \<Rightarrow> Rejected
              | Fault \<Rightarrow> Fault))"

section \<open>Header lines\<close>

text \<open>
  The loop over the header lines. It reads one header per turn and stops after the twentieth,
  which it then drops from the count.
\<close>

function parse_header_lines :: "http \<Rightarrow> string \<Rightarrow> nat option \<Rightarrow> nat option \<Rightarrow> http \<times> string" where
  "parse_header_lines http buf hline saveptr =
     (case hline of
        None \<Rightarrow> (http, buf)
      | Some line \<Rightarrow>
          (case strtok buf line '': '' of
             (buf1, q1, None) \<Rightarrow> (http, buf1)
           | (buf1, q1, Some name) \<Rightarrow>
               (case strtok buf1 q1 [] of
                  (buf2, q2, None) \<Rightarrow> (http, buf2)
                | (buf2, q2, Some tok) \<Rightarrow>
                    (let val = (if hd (cstr buf2 tok) = CHR '' '' then Suc tok else tok);
                         h = \<lparr>hname = take HTTP_HEAD_NAME_LEN (cstr buf2 name),
                              hval = take HTTP_HEAD_VAL_LEN (cstr buf2 val)\<rparr>;
                         (buf3, saveptr3, line3) = strsplit buf2 None HTTP_NL saveptr;
                         http3 = http\<lparr>headers := (headers http)[n_headers http := h],
                                      n_headers := Suc (n_headers http)\<rparr>
                     in if HTTP_MAX_HEADERS \<le> n_headers http3
                        then (http3\<lparr>n_headers := HTTP_MAX_HEADERS - 1\<rparr>, buf3)
                        else parse_header_lines http3 buf3 line3 saveptr3))))"
  by pat_completeness auto
termination
  by (relation "measure (\<lambda>(http, buf, l, s). HTTP_MAX_HEADERS - n_headers http)") auto

declare parse_header_lines.simps [simp del]

section \<open>The whole message\<close>

text \<open>
  \<open>buf_len - header_len\<close> is a subtraction of unsigned 64-bit numbers. The body pointer is kept
  as the memory from its first byte on.
\<close>

definition parse_http :: "'s http_env \<Rightarrow> client \<Rightarrow> string \<Rightarrow> nat \<Rightarrow> (client \<times> http) parse_result" where
  "parse_http env c buf buf_len =
     (case strsplit buf (Some 0) HTTP_END None of
        (buf1, save1, None) \<Rightarrow> Rejected
      | (buf1, save1, Some header) \<Rightarrow>
          (let (buf2, save2, body_ptr) = strsplit buf1 None HTTP_END save1;
               header_len = length (cstr buf2 header) + 4;
               actual_body_len = (if body_ptr = None then 0
                                  else unat (of_nat buf_len - of_nat header_len :: u64));
               (buf3, save3, line3) = strsplit buf2 (Some header) HTTP_NL save2
           in case line3 of
                None \<Rightarrow> Rejected
              | Some line \<Rightarrow>
                  (case parse_first_line http_zero buf3 line of
                     Rejected \<Rightarrow> Rejected
                   | Fault \<Rightarrow> Fault
                   | Parsed (http4, buf4) \<Rightarrow>
                       (let (buf5, save5, line5) = strsplit buf4 None HTTP_NL save3;
                            (http6, buf6) = parse_header_lines http4 buf5 line5 save5;
                            http7 = http6\<lparr>body := map_option (\<lambda>p. drop p buf6) body_ptr\<rparr>;
                            (c8, http8) = fold (handle_http_header env) [0..<n_headers http7] (c, http7)
                        in case handle_http_upgrade c8 http8 (http_get_header http8 ''Upgrade'') of
                             Rejected \<Rightarrow> Rejected
                           | Fault \<Rightarrow> Fault
                           | Parsed c9 \<Rightarrow>
                               (if (body http8 \<noteq> None \<or> body_len http8 \<noteq> 0) \<and>
                                   actual_body_len < body_len http8 then
                                  (let b = (case body http8 of None \<Rightarrow> [] | Some b \<Rightarrow> take actual_body_len b);
                                       http9 = http8\<lparr>buf_missing := True, total_recv := actual_body_len,
                                         body := Some (b @ replicate (body_len http8 - actual_body_len) NUL),
                                         body_inheap := True\<rparr>
                                   in Parsed (set_recv (\<lambda>r. r\<lparr>recv_http := Some http9\<rparr>) c9, http9))
                                else Parsed (c9, http8))))))"

section \<open>Responses\<close>

text \<open>
  \<^verbatim>\<open>http_send\<close>. The text always fits its buffer for the responses the server builds; the
  overrun of \<open>http_to_str\<close> would be the first branch.
\<close>

definition to_bytes :: "string \<Rightarrow> u8 list" where
  "to_bytes s = map of_char s"

definition http_send :: "client \<Rightarrow> http \<Rightarrow> client \<times> int" where
  "http_send c http =
     (case http_to_str http of
        None \<Rightarrow> (c, -1)
      | Some t \<Rightarrow> server_send c (to_bytes (take (ts_len t) (ts_str t))))"

definition server_http_resp_ok :: "client \<Rightarrow> string \<Rightarrow> nat \<Rightarrow> string \<Rightarrow> client" where
  "server_http_resp_ok c content content_len content_type =
     fst (http_send c (http_add_header (http_new_resp 200 ''OK'' (Some content) content_len)
                         ''Content-Type'' content_type))"

definition server_http_resp_error :: "client \<Rightarrow> u16 \<Rightarrow> string \<Rightarrow> client" where
  "server_http_resp_error c error_code status_msg =
     fst (http_send c (http_new_resp error_code status_msg None 0))"

definition server_http_resp_404_not_found :: "client \<Rightarrow> client" where
  "server_http_resp_404_not_found c =
     fst (http_send c (http_new_resp 404 ''Not Found'' (Some ''<h1>Not Found</h1>'') 18))"

definition server_upgrade_client_to_websocket :: "client \<Rightarrow> http \<Rightarrow> client" where
  "server_upgrade_client_to_websocket c req =
     (let resp = http_add_header_opt
                   (http_add_header
                      (http_add_header (http_new_resp 101 ''Switching Protocols'' None 0)
                         ''Connection'' ''Upgrade'')
                      ''Upgrade'' ''websocket'')
                   ''Sec-WebSocket-Accept'' (websocket_key req);
          (c1, ret) = http_send c resp
      in if ret \<noteq> -1 then c1\<lparr>cstate := cstate c1 OR CLIENT_STATE_WEBSOCKET\<rparr> else c1)"

definition server_handle_client_upgrade :: "client \<Rightarrow> http \<Rightarrow> client" where
  "server_handle_client_upgrade c http =
     (case http_get_header http ''Upgrade'' of
        None \<Rightarrow> c\<lparr>cstate := cstate c XOR CLIENT_STATE_UPGRADE_PENDING\<rparr>
      | Some i \<Rightarrow>
          (let c1 = (if strncmp_eq (header_val http i) ''websocket'' HTTP_HEAD_VAL_LEN
                     then server_upgrade_client_to_websocket c http else c)
           in c1\<lparr>cstate := cstate c1 XOR CLIENT_STATE_UPGRADE_PENDING\<rparr>))"

section \<open>GET\<close>

definition PATH_MAX :: nat where
  "PATH_MAX = 4096"

text \<open>
  The last character of the URL. For an empty URL the code reads the byte before the array,
  the last one of the method.
\<close>

definition url_last :: "http \<Rightarrow> char" where
  "url_last http =
     (if req_url http = [] then
        (if length (req_method http) < HTTP_METHOD_LEN then NUL else last (req_method http))
      else last (req_url http))"

definition get_path :: "'s http_env \<Rightarrow> http \<Rightarrow> string" where
  "get_path env http =
     (let url = cstr_fields (tl (req_fields http))
      in snprintf PATH_MAX
           (root_dir env @ url @ (if url_last http = CHR ''/'' then ''index.html'' else [])))"

definition server_handle_http_get :: "'s http_env \<Rightarrow> client \<Rightarrow> http \<Rightarrow> client \<times> client_recv_status" where
  "server_handle_http_get env c http =
     (if server_http_url_checks http = -1
      then (server_http_resp_error c 404 ''Not found'', RECV_ERROR)
      else
        (let path0 = get_path env http;
             dir = isdir env path0
         in if dir = -1 then (server_http_resp_404_not_found c, RECV_ERROR)
            else
              (let path = (if dir \<noteq> 0 then path0 @ ''/index.html'' else path0);
                   content_type = server_get_content_type path
               in case read_file env path of
                    None \<Rightarrow> (server_http_resp_404_not_found c, RECV_ERROR)
                  | Some content \<Rightarrow>
                      (let ct = (if content_type = ''application/octet-stream'' then
                                   (case mime_type env content of None \<Rightarrow> content_type | Some t \<Rightarrow> t)
                                 else content_type)
                       in (server_http_resp_ok c content (length content) ct, RECV_OK)))))"

section \<open>Dispatch\<close>

definition server_handle_http_req ::
  "'s http_env \<Rightarrow> 's \<Rightarrow> client \<Rightarrow> http \<Rightarrow> 's \<times> client \<times> client_recv_status" where
  "server_handle_http_req env s c http =
     (if strncmp_eq (req_method http) ''GET'' HTTP_METHOD_LEN
      then (s, fst (server_handle_http_get env c http), RECV_OK)
      else if strncmp_eq (req_method http) ''POST'' HTTP_METHOD_LEN
      then (case user_upload env s c http of (s', c') \<Rightarrow> (s', c', RECV_OK))
      else (s, c, RECV_DISCONNECT))"

definition server_handle_http ::
  "'s http_env \<Rightarrow> 's \<Rightarrow> client \<Rightarrow> http \<Rightarrow> 's \<times> client \<times> client_recv_status" where
  "server_handle_http env s c http =
     (if has_state c CLIENT_STATE_UPGRADE_PENDING
      then (s, server_handle_client_upgrade c http, RECV_OK)
      else (case htype http of
              HTTP_REQUEST \<Rightarrow> server_handle_http_req env s c http
            | HTTP_RESPOND \<Rightarrow> (s, c, RECV_ERROR)))"

definition server_http_parse ::
  "'s http_env \<Rightarrow> 's \<Rightarrow> client \<Rightarrow> string \<Rightarrow> nat \<Rightarrow> ('s \<times> client \<times> client_recv_status) option" where
  "server_http_parse env s c buf buf_len =
     (case parse_http env c buf buf_len of
        Fault \<Rightarrow> None
      | Rejected \<Rightarrow> Some (s, c, RECV_ERROR)
      | Parsed (c1, http) \<Rightarrow>
          Some (if buf_missing http then (s, c1, RECV_OK) else server_handle_http env s c1 http))"

section \<open>Bounds of a parsed message\<close>

text \<open>Every array of a message holds no more than its size.\<close>

definition params_wf :: "http \<Rightarrow> bool" where
  "params_wf http \<longleftrightarrow> length (params http) = HTTP_MAX_PARAMS \<and> n_params http \<le> HTTP_MAX_PARAMS \<and>
     list_all (\<lambda>h. length (hname h) \<le> HTTP_HEAD_NAME_LEN \<and> length (hval h) \<le> HTTP_HEAD_VAL_LEN)
       (params http)"

definition line_wf :: "http \<Rightarrow> bool" where
  "line_wf http \<longleftrightarrow> length (req_method http) \<le> HTTP_METHOD_LEN \<and> length (req_url http) \<le> HTTP_URL_LEN \<and>
     length (req_version http) \<le> HTTP_VERSION_LEN \<and> length (resp_version http) \<le> HTTP_VERSION_LEN \<and>
     length (resp_msg http) \<le> HTTP_STATUS_MSG_LEN"

definition msg_wf :: "http \<Rightarrow> bool" where
  "msg_wf http \<longleftrightarrow> http_wf http \<and> params_wf http \<and> line_wf http"

lemma msg_wf_zero: "msg_wf http_zero"
  using http_wf_zero
  by (simp add: msg_wf_def params_wf_def line_wf_def http_zero_def list_all_iff no_header_def)

lemma parse_params_wf:
  "parse_params http buf param e = Parsed (http', buf') \<Longrightarrow> msg_wf http \<Longrightarrow>
    msg_wf http' \<and> n_headers http' = n_headers http \<and> buf_missing http' = buf_missing http"
proof (induction http buf param e rule: parse_params.induct)
  case (1 http buf param e)
  show ?case
  proof (cases "n_params http < HTTP_MAX_PARAMS \<and> param \<noteq> None")
    case False
    then have "http' = http"
      using "1.prems"(1) by (auto simp: parse_params.simps [of http buf param e] split: if_splits)
    then show ?thesis using "1.prems" by simp
  next
    case True
    then obtain pp where pp: "param = Some pp" by auto
    have lt: "n_params http < HTTP_MAX_PARAMS" using True by simp
    obtain buf1 v k where s1: "strtok buf pp ''='' = (buf1, v, k)" by (metis prod_cases3)
    obtain kk where k: "k = Some kk"
      using "1.prems"(1) lt by (cases k) (simp_all add: parse_params.simps [of http buf "Some pp" e] pp s1)
    obtain buf2 e2 param2 where s2: "strtok buf1 e ''&'' = (buf2, e2, param2)" by (metis prod_cases3)
    let ?p = "\<lparr>hname = take HTTP_HEAD_NAME_LEN (cstr buf1 kk), hval = take HTTP_HEAD_VAL_LEN (cstr buf1 v)\<rparr>"
    let ?h = "http\<lparr>params := (params http)[n_params http := ?p], n_params := Suc (n_params http)\<rparr>"
    have "parse_params ?h buf2 param2 e2 = Parsed (http', buf')"
      using "1.prems"(1) lt by (simp add: parse_params.simps [of http buf "Some pp" e] pp s1 k s2 Let_def)
    moreover have "msg_wf ?h"
      using "1.prems"(2) lt
      by (simp add: msg_wf_def http_wf_def params_wf_def line_wf_def list_all_update)
    ultimately have "msg_wf http' \<and> n_headers http' = n_headers ?h \<and> buf_missing http' = buf_missing ?h"
      using "1.IH" [OF lt pp s1 [symmetric] refl k refl s2 [symmetric] refl] by simp
    then show ?thesis by simp
  qed
qed

lemma parse_url_wf:
  assumes "parse_url http buf u = Parsed (http', buf')" "msg_wf http"
  shows "msg_wf http' \<and> n_headers http' = n_headers http \<and> buf_missing http' = buf_missing http"
proof -
  obtain buf1 pl path where s: "strtok buf u ''?'' = (buf1, pl, path)" by (metis prod_cases3)
  obtain buf2 e p where s2: "strtok buf1 pl ''&'' = (buf2, e, p)" by (metis prod_cases3)
  let ?res = "if cstr buf1 pl \<noteq> [] then parse_params http buf2 p e else Parsed (http, buf1)"
  obtain http1 b1 where r: "?res = Parsed (http1, b1)"
    using assms(1) by (cases ?res) (auto simp: parse_url_def s s2 Let_def split: if_splits)
  then have wf: "msg_wf http1 \<and> n_headers http1 = n_headers http \<and> buf_missing http1 = buf_missing http"
    using parse_params_wf assms(2) by (auto split: if_splits)
  have "(case path of None \<Rightarrow> Fault | Some p \<Rightarrow> Parsed (http1\<lparr>req_url := take HTTP_URL_LEN (cstr b1 p)\<rparr>, b1))
      = Parsed (http', buf')"
    using assms(1) r by (simp add: parse_url_def s s2 Let_def split: if_splits)
  then have "\<exists>p. http' = http1\<lparr>req_url := take HTTP_URL_LEN (cstr b1 p)\<rparr>" by (cases path) auto
  then show ?thesis using wf by (auto simp: msg_wf_def http_wf_def params_wf_def line_wf_def)
qed

lemma parse_header_lines_wf:
  "msg_wf http \<Longrightarrow> n_headers http < HTTP_MAX_HEADERS \<Longrightarrow>
    msg_wf (fst (parse_header_lines http buf l s)) \<and>
    n_headers (fst (parse_header_lines http buf l s)) < HTTP_MAX_HEADERS \<and>
    buf_missing (fst (parse_header_lines http buf l s)) = buf_missing http"
proof (induction http buf l s rule: parse_header_lines.induct)
  case (1 http buf l s)
  show ?case
  proof (cases l)
    case None
    then show ?thesis using "1.prems" by (simp add: parse_header_lines.simps [of http buf None s])
  next
    case (Some line)
    obtain buf1 q1 n where s1: "strtok buf line '': '' = (buf1, q1, n)" by (metis prod_cases3)
    obtain buf2 q2 t where s2: "strtok buf1 q1 [] = (buf2, q2, t)" by (metis prod_cases3)
    obtain buf3 sp3 l3 where s3: "strsplit buf2 None HTTP_NL s = (buf3, sp3, l3)" by (metis prod_cases3)
    show ?thesis
    proof (cases "n = None \<or> t = None")
      case True
      then show ?thesis using "1.prems" Some s1 s2
        by (auto simp: parse_header_lines.simps [of http buf "Some line" s] split: option.split)
    next
      case False
      then obtain name tok where nt: "n = Some name" "t = Some tok" by auto
      define val where "val = (if hd (cstr buf2 tok) = CHR '' '' then Suc tok else tok)"
      define h where "h = \<lparr>hname = take HTTP_HEAD_NAME_LEN (cstr buf2 name),
        hval = take HTTP_HEAD_VAL_LEN (cstr buf2 val)\<rparr>"
      define http3 where "http3 = http\<lparr>headers := (headers http)[n_headers http := h],
        n_headers := Suc (n_headers http)\<rparr>"
      have wf3: "msg_wf http3" "n_headers http3 \<le> HTTP_MAX_HEADERS" "buf_missing http3 = buf_missing http"
        using "1.prems" by (simp_all add: http3_def msg_wf_def http_wf_def params_wf_def line_wf_def
            list_all_update h_def)
      have wf4: "msg_wf (http3\<lparr>n_headers := HTTP_MAX_HEADERS - 1\<rparr>)"
        using wf3 by (simp add: msg_wf_def http_wf_def params_wf_def line_wf_def)
      have step: "parse_header_lines http buf l s =
        (if HTTP_MAX_HEADERS \<le> n_headers http3 then (http3\<lparr>n_headers := HTTP_MAX_HEADERS - 1\<rparr>, buf3)
         else parse_header_lines http3 buf3 l3 sp3)"
        by (simp add: parse_header_lines.simps [of http buf "Some line" s] Some s1 s2 s3 nt Let_def val_def h_def
            http3_def)
      have ih: "\<not> HTTP_MAX_HEADERS \<le> n_headers http3 \<Longrightarrow>
        msg_wf (fst (parse_header_lines http3 buf3 l3 sp3)) \<and>
        n_headers (fst (parse_header_lines http3 buf3 l3 sp3)) < HTTP_MAX_HEADERS \<and>
        buf_missing (fst (parse_header_lines http3 buf3 l3 sp3)) = buf_missing http3"
        using "1.IH" [OF Some s1 [symmetric] refl nt(1) s2 [symmetric] refl nt(2) val_def h_def
            s3 [symmetric] refl refl http3_def] wf3
        by simp
      show ?thesis
      proof (cases "HTTP_MAX_HEADERS \<le> n_headers http3")
        case True
        then show ?thesis using step wf4 wf3(3) by (simp add: HTTP_MAX_HEADERS_def)
      next
        case False
        then show ?thesis using step ih wf3(3) by simp
      qed
    qed
  qed
qed

lemma msg_wf_line [simp]:
  "msg_wf (http\<lparr>htype := ty, resp_version := take HTTP_VERSION_LEN s\<rparr>) = msg_wf (http\<lparr>resp_version := take HTTP_VERSION_LEN s\<rparr>)"
  "msg_wf (http\<lparr>htype := ty, req_method := take HTTP_METHOD_LEN s\<rparr>) = msg_wf (http\<lparr>req_method := take HTTP_METHOD_LEN s\<rparr>)"
  "msg_wf (http\<lparr>body := b\<rparr>) = msg_wf http"
  "msg_wf (http\<lparr>resp_code := cd\<rparr>) = msg_wf http"
  by (simp_all add: msg_wf_def http_wf_def params_wf_def line_wf_def)

lemma msg_wf_upd:
  assumes "msg_wf http"
  shows "msg_wf (http\<lparr>resp_version := take HTTP_VERSION_LEN s\<rparr>)"
    "msg_wf (http\<lparr>req_method := take HTTP_METHOD_LEN s\<rparr>)"
    "msg_wf (http\<lparr>req_version := take HTTP_METHOD_LEN s\<rparr>)"
    "msg_wf (http\<lparr>resp_msg := take HTTP_STATUS_MSG_LEN s\<rparr>)"
    "msg_wf (http\<lparr>body_len := k\<rparr>)" "msg_wf (http\<lparr>websocket_key := w\<rparr>)"
  using assms
  by (simp_all add: msg_wf_def http_wf_def params_wf_def line_wf_def HTTP_VERSION_LEN_def HTTP_METHOD_LEN_def)

lemma parse_first_line_wf:
  assumes "parse_first_line http buf line = Parsed (http', buf')" "msg_wf http" "n_headers http = 0"
  shows "msg_wf http' \<and> n_headers http' = 0 \<and> buf_missing http' = buf_missing http"
proof -
  obtain buf1 q1 t1 where s1: "strtok buf line '' '' = (buf1, q1, t1)" by (metis prod_cases3)
  obtain buf2 q2 t2 where s2: "strtok buf1 q1 '' '' = (buf2, q2, t2)" by (metis prod_cases3)
  obtain t where t1: "t1 = Some t"
    using assms(1) by (cases t1) (simp_all add: parse_first_line_def s1)
  define http1 where "http1 = (if find_sub (cstr buf1 t) ''HTTP/'' \<noteq> None
      then http\<lparr>htype := HTTP_RESPOND, resp_version := take HTTP_VERSION_LEN (cstr buf1 t)\<rparr>
      else http\<lparr>htype := HTTP_REQUEST, req_method := take HTTP_METHOD_LEN (cstr buf1 t)\<rparr>)"
  have wf1: "msg_wf http1 \<and> n_headers http1 = 0 \<and> buf_missing http1 = buf_missing http"
    using assms(2,3) by (simp add: http1_def msg_wf_upd)
  define res where "res = (case t2 of None \<Rightarrow> Parsed (http1, buf2)
      | Some t \<Rightarrow> if htype http1 = HTTP_REQUEST then parse_url http1 buf2 t
                 else Parsed (http1\<lparr>resp_code := ucast (atoi (cstr buf2 t))\<rparr>, buf2))"
  have e: "parse_first_line http buf line = (case res of
      Parsed (http2, buf3) \<Rightarrow>
        (let (buf4, q3, t3) = strtok buf3 q2 HTTP_NL
         in case t3 of None \<Rightarrow> Parsed (http2, buf4)
            | Some t \<Rightarrow> Parsed (if htype http2 = HTTP_REQUEST
                  then http2\<lparr>req_version := take HTTP_METHOD_LEN (cstr buf4 t)\<rparr>
                  else http2\<lparr>resp_msg := take HTTP_STATUS_MSG_LEN (cstr buf4 t)\<rparr>, buf4))
      | Rejected \<Rightarrow> Rejected | Fault \<Rightarrow> Fault)"
    by (simp only: parse_first_line_def s1 prod.case t1 option.case Let_def s2 http1_def res_def)
  obtain http2 buf3 where r: "res = Parsed (http2, buf3)"
    using assms(1) e by (cases res) auto
  have wf2: "msg_wf http2 \<and> n_headers http2 = 0 \<and> buf_missing http2 = buf_missing http"
    using r wf1 parse_url_wf [of http1 buf2 _ http2 buf3]
    by (auto simp: res_def split: option.splits if_splits)
  obtain buf4 q3 t3 where s3: "strtok buf3 q2 HTTP_NL = (buf4, q3, t3)" by (metis prod_cases3)
  show ?thesis
    using assms(1) wf2 by (auto simp: e r s3 msg_wf_upd split: option.splits if_splits)
qed

lemma handle_http_header_wf:
  assumes "msg_wf http" and "i < n_headers http"
  shows "msg_wf (snd (handle_http_header env i (c, http))) \<and>
    n_headers (snd (handle_http_header env i (c, http))) = n_headers http \<and>
    buf_missing (snd (handle_http_header env i (c, http))) = buf_missing http \<and>
    body (snd (handle_http_header env i (c, http))) = body http"
proof -
  have "list_all (\<lambda>h. length (hname h) \<le> HTTP_HEAD_NAME_LEN \<and> length (hval h) \<le> HTTP_HEAD_VAL_LEN) (headers http)"
    "i < length (headers http)"
    using assms by (simp_all add: msg_wf_def http_wf_def)
  then have "length (hname (headers http ! i)) \<le> HTTP_HEAD_NAME_LEN" by (simp add: list_all_length)
  then have "msg_wf (http\<lparr>headers := (headers http)[i := (headers http ! i)\<lparr>hval := take HTTP_HEAD_VAL_LEN v\<rparr>]\<rparr>)" for v
    using assms(1) by (simp add: msg_wf_def http_wf_def params_wf_def line_wf_def list_all_update)
  then have "msg_wf (snd (set_client_connection c http i)) \<and>
      n_headers (snd (set_client_connection c http i)) = n_headers http \<and>
      buf_missing (snd (set_client_connection c http i)) = buf_missing http \<and>
      body (snd (set_client_connection c http i)) = body http"
    by (simp add: set_client_connection_def Let_def split: prod.split)
  then show ?thesis
    using assms(1) by (simp add: handle_http_header_def Let_def msg_wf_upd)
qed

lemma handle_headers_wf:
  "msg_wf http \<Longrightarrow> \<forall>i\<in>set is. i < n_headers http \<Longrightarrow>
    msg_wf (snd (fold (handle_http_header env) is (c, http))) \<and>
    n_headers (snd (fold (handle_http_header env) is (c, http))) = n_headers http \<and>
    buf_missing (snd (fold (handle_http_header env) is (c, http))) = buf_missing http \<and>
    body (snd (fold (handle_http_header env) is (c, http))) = body http"
proof (induction "is" arbitrary: c http)
  case Nil
  then show ?case by simp
next
  case (Cons i "is")
  have "i < n_headers http" using Cons.prems(2) by simp
  note w = handle_http_header_wf [OF Cons.prems(1) this, of env c]
  obtain c1 http1 where h: "handle_http_header env i (c, http) = (c1, http1)" by fastforce
  have "\<forall>j\<in>set is. j < n_headers http1" using Cons.prems(2) w h by simp
  with Cons.IH [of http1 c1] w h show ?case by simp
qed

lemma handle_upgrade_recv:
  "handle_http_upgrade c http u = Parsed c' \<Longrightarrow> recv c' = recv c"
  by (auto simp: handle_http_upgrade_def split: if_splits option.splits)

text \<open>A parsed message comes from the steps of the parser in order.\<close>

lemma parse_http_steps:
  assumes "parse_http env c buf n = Parsed (c', http')"
  obtains http8 c8 c9 act where "msg_wf http8" "n_headers http8 < HTTP_MAX_HEADERS"
    "\<not> buf_missing http8"
    "handle_http_upgrade c8 http8 (http_get_header http8 ''Upgrade'') = Parsed c9"
    "(body http8 = None \<longrightarrow> act = 0) \<and>
     (c', http') =
      (if (body http8 \<noteq> None \<or> body_len http8 \<noteq> 0) \<and> act < body_len http8 then
         (let b = (case body http8 of None \<Rightarrow> [] | Some b \<Rightarrow> take act b);
              http9 = http8\<lparr>buf_missing := True, total_recv := act,
                body := Some (b @ replicate (body_len http8 - act) NUL), body_inheap := True\<rparr>
          in (set_recv (\<lambda>r. r\<lparr>recv_http := Some http9\<rparr>) c9, http9))
       else (c9, http8))"
proof -
  obtain buf1 save1 hdr where s1: "strsplit buf (Some 0) HTTP_END None = (buf1, save1, hdr)" by (metis prod_cases3)
  then obtain h where h: "hdr = Some h" using assms by (cases hdr) (simp_all add: parse_http_def)
  obtain buf2 save2 bp where s2: "strsplit buf1 None HTTP_END save1 = (buf2, save2, bp)" by (metis prod_cases3)
  obtain buf3 save3 l3 where s3: "strsplit buf2 (Some h) HTTP_NL save2 = (buf3, save3, l3)" by (metis prod_cases3)
  obtain line where l: "l3 = Some line"
    using assms s1 h s2 s3 by (cases l3) (simp_all add: parse_http_def)
  obtain http4 buf4 where p4: "parse_first_line http_zero buf3 line = Parsed (http4, buf4)"
    using assms s1 h s2 s3 l
    by (cases "parse_first_line http_zero buf3 line") (auto simp: parse_http_def Let_def)
  obtain buf5 save5 l5 where s5: "strsplit buf4 None HTTP_NL save3 = (buf5, save5, l5)" by (metis prod_cases3)
  obtain http6 buf6 where p6: "parse_header_lines http4 buf5 l5 save5 = (http6, buf6)" by fastforce
  define http7 where "http7 = http6\<lparr>body := map_option (\<lambda>p. drop p buf6) bp\<rparr>"
  obtain c8 http8 where p8: "fold (handle_http_header env) [0..<n_headers http7] (c, http7) = (c8, http8)" by fastforce
  define act where "act = (if bp = None then 0 else unat (of_nat n - of_nat (length (cstr buf2 h) + 4) :: u64))"
  have z: "n_headers http_zero = 0" "\<not> buf_missing http_zero" by (simp_all add: http_zero_def)
  note w4 = parse_first_line_wf [OF p4 msg_wf_zero z(1)]
  have w6: "msg_wf http6" "n_headers http6 < HTTP_MAX_HEADERS" "\<not> buf_missing http6"
    using parse_header_lines_wf [of http4 buf5 l5 save5] w4 p6 z by (simp_all add: HTTP_MAX_HEADERS_def)
  have "msg_wf http7" using w6(1) by (simp add: http7_def)
  then have w8: "msg_wf http8" "n_headers http8 < HTTP_MAX_HEADERS" "\<not> buf_missing http8"
    and b8: "body http8 = body http7"
    using handle_headers_wf [of http7 "[0..<n_headers http7]" env c] p8 w6 by (simp_all add: http7_def)
  have body: "body http8 = None \<longrightarrow> act = 0"
    using b8 by (auto simp: act_def http7_def)
  have e: "parse_http env c buf n =
    (case handle_http_upgrade c8 http8 (http_get_header http8 ''Upgrade'') of
       Rejected \<Rightarrow> Rejected | Fault \<Rightarrow> Fault
     | Parsed c9 \<Rightarrow>
         (if (body http8 \<noteq> None \<or> body_len http8 \<noteq> 0) \<and> act < body_len http8 then
            (let b = (case body http8 of None \<Rightarrow> [] | Some b \<Rightarrow> take act b);
                 http9 = http8\<lparr>buf_missing := True, total_recv := act,
                   body := Some (b @ replicate (body_len http8 - act) NUL), body_inheap := True\<rparr>
             in Parsed (set_recv (\<lambda>r. r\<lparr>recv_http := Some http9\<rparr>) c9, http9))
          else Parsed (c9, http8)))"
    by (simp only: parse_http_def s1 h prod.case option.case Let_def s2 s3 l p4 parse_result.case s5 p6
        http7_def [symmetric] p8 act_def)
  obtain c9 where u: "handle_http_upgrade c8 http8 (http_get_header http8 ''Upgrade'') = Parsed c9"
    using assms e by (cases "handle_http_upgrade c8 http8 (http_get_header http8 ''Upgrade'')") auto
  let ?miss = "(body http8 \<noteq> None \<or> body_len http8 \<noteq> 0) \<and> act < body_len http8"
  show thesis
  proof (rule that [OF w8 u, of act], intro conjI body)
    show "(c', http') =
      (if ?miss then
         (let b = (case body http8 of None \<Rightarrow> [] | Some b \<Rightarrow> take act b);
              http9 = http8\<lparr>buf_missing := True, total_recv := act,
                body := Some (b @ replicate (body_len http8 - act) NUL), body_inheap := True\<rparr>
          in (set_recv (\<lambda>r. r\<lparr>recv_http := Some http9\<rparr>) c9, http9))
       else (c9, http8))"
    proof (cases ?miss)
      case True
      then show ?thesis
        using assms unfolding e u parse_result.case Let_def if_P [OF True]
        by (simp only: parse_result.inject)
    next
      case False
      then show ?thesis
        using assms unfolding e u parse_result.case Let_def if_not_P [OF False]
        by (simp only: parse_result.inject)
    qed
  qed
qed

lemma msg_wf_missing [simp]:
  "msg_wf (http\<lparr>buf_missing := m, total_recv := k, body := b, body_inheap := i\<rparr>) = msg_wf http"
  by (simp add: msg_wf_def http_wf_def params_wf_def line_wf_def)

lemma parse_http_wf:
  assumes "parse_http env c buf n = Parsed (c', http)"
  shows "msg_wf http \<and> n_headers http < HTTP_MAX_HEADERS \<and>
    (buf_missing http \<longrightarrow> total_recv http < body_len http \<and> recv_http (recv c') = Some http)"
proof -
  from assms obtain http8 c8 c9 act where w: "msg_wf http8" "n_headers http8 < HTTP_MAX_HEADERS"
    "\<not> buf_missing http8" and st: "(body http8 = None \<longrightarrow> act = 0) \<and>
     (c', http) =
      (if (body http8 \<noteq> None \<or> body_len http8 \<noteq> 0) \<and> act < body_len http8 then
         (let b = (case body http8 of None \<Rightarrow> [] | Some b \<Rightarrow> take act b);
              http9 = http8\<lparr>buf_missing := True, total_recv := act,
                body := Some (b @ replicate (body_len http8 - act) NUL), body_inheap := True\<rparr>
          in (set_recv (\<lambda>r. r\<lparr>recv_http := Some http9\<rparr>) c9, http9))
       else (c9, http8))"
    by (rule parse_http_steps)
  show ?thesis
  proof (cases "(body http8 \<noteq> None \<or> body_len http8 \<noteq> 0) \<and> act < body_len http8")
    case True
    with w st show ?thesis by (simp add: Let_def)
  next
    case False
    then have "http = http8" using st by (simp only: if_False prod.inject)
    with w show ?thesis by simp
  qed
qed

section \<open>Properties\<close>

text \<open>
  C17. Whatever bytes a client sends, a message the parser accepts respects the bounds of its
  arrays: names, values, method, URL and version fit, there are at most 19 headers and at most 10
  parameters; and a message that waits for its body is kept with the client and has received less
  than it waits for.
\<close>

theorem parse_http_bounds:
  assumes "parse_http env c buf n = Parsed (c', http)"
  shows "msg_wf http \<and> n_headers http < HTTP_MAX_HEADERS \<and> n_params http \<le> HTTP_MAX_PARAMS \<and>
    (buf_missing http \<longrightarrow> total_recv http < body_len http \<and> recv_http (recv c') = Some http)"
  using parse_http_wf [OF assms] by (simp add: msg_wf_def params_wf_def)

definition demo_env :: "unit http_env" where
  "demo_env =
     \<lparr>root_dir = ''/srv'', isdir = (\<lambda>p. if p = ''/srv/..'' then 1 else 0),
      read_file = (\<lambda>p. if p = ''/srv/../index.html'' then Some ''secret'' else None),
      mime_type = (\<lambda>_. None), sha1_base64 = (\<lambda>s. s @ [CHR 0x0A]), user_upload = (\<lambda>s c h. (s, c))\<rparr>"

definition demo_conn :: client where
  "demo_conn = client_zero 7 (\<lambda>_. 1)"

definition demo_get :: string where
  "demo_get = ''GET /a?x=1 HTTP/1.1'' @ HTTP_NL @ ''Host: h'' @ HTTP_END @ [NUL]"

lemma demo_get_parses:
  "\<exists>c' http. parse_http demo_env demo_conn demo_get 32 = Parsed (c', http) \<and> req_url http = ''/a'' \<and>
    n_headers http = 1"
proof -
  have "(case parse_http demo_env demo_conn demo_get 32 of
      Parsed (c', http) \<Rightarrow> req_url http = ''/a'' \<and> n_headers http = 1 | _ \<Rightarrow> False)"
    by code_simp
  then show ?thesis by (cases "parse_http demo_env demo_conn demo_get 32") auto
qed

theorem parse_http_bounds_witness:
  "\<exists>c' http. parse_http demo_env demo_conn demo_get 32 = Parsed (c', http) \<and> msg_wf http \<and>
    req_url http = ''/a''"
  using demo_get_parses parse_http_bounds [of demo_env demo_conn demo_get 32] by blast

lemma find_sub_Some: "find_sub h n = Some i \<Longrightarrow> \<exists>b. h = take i h @ n @ b"
proof (induction h arbitrary: i)
  case Nil
  then show ?case by (auto split: if_splits)
next
  case (Cons c h)
  show ?case
  proof (cases "take (length n) (c # h) = n")
    case True
    with Cons.prems have "i = 0" by simp
    then show ?thesis using True by (metis append_Nil append_take_drop_id take0)
  next
    case False
    with Cons.prems obtain j where j: "find_sub h n = Some j" "i = Suc j" by auto
    with Cons.IH show ?thesis by auto
  qed
qed

lemma find_sub_occurs: "find_sub (a @ n @ b) n \<noteq> None"
proof (induction a)
  case Nil
  then show ?case by (cases "n @ b") (auto simp: append_eq_Cons_conv)
next
  case (Cons x a)
  then show ?case by simp
qed

fun split_on :: "'a \<Rightarrow> 'a list \<Rightarrow> 'a list list" where
  "split_on c [] = [[]]"
| "split_on c (x # xs) =
     (if x = c then [] # split_on c xs
      else (case split_on c xs of [] \<Rightarrow> [[x]] | s # ss \<Rightarrow> (x # s) # ss))"

lemma split_on_ne [simp]: "split_on c xs \<noteq> []"
  by (induction xs) (auto split: list.split)

lemma split_on_hd: "split_on c xs = s # ss \<Longrightarrow> ss \<noteq> [] \<Longrightarrow> \<exists>b. xs = s @ c # b"
proof (induction xs arbitrary: s ss)
  case Nil
  then show ?case by simp
next
  case (Cons x xs)
  then show ?case by (cases "x = c"; cases "split_on c xs") auto
qed

lemma split_on_inner: "s \<in> set (butlast (split_on c xs)) \<Longrightarrow> \<exists>a b. xs = a @ s @ c # b"
proof (induction xs)
  case Nil
  then show ?case by simp
next
  case (Cons x xs)
  obtain t ts where t: "split_on c xs = t # ts" by (cases "split_on c xs") auto
  show ?case
  proof (cases "x = c")
    case True
    then consider "s = []" | "s \<in> set (butlast (split_on c xs))" using Cons.prems t by auto
    then show ?thesis
    proof cases
      case 1
      with True have "x # xs = [] @ s @ c # xs" by simp
      then show ?thesis by blast
    next
      case 2
      with Cons.IH obtain a b where "xs = a @ s @ c # b" by blast
      then have "x # xs = (x # a) @ s @ c # b" by simp
      then show ?thesis by blast
    qed
  next
    case False
    with Cons.prems t have ne: "ts \<noteq> []" and "s = x # t \<or> s \<in> set (butlast ts)"
      by (auto split: if_splits)
    then consider "s = x # t" | "s \<in> set (butlast (split_on c xs))" using t by auto
    then show ?thesis
    proof cases
      case 1
      obtain b where "xs = t @ c # b" using split_on_hd [OF t ne] by blast
      with 1 have "x # xs = [] @ s @ c # b" by simp
      then show ?thesis by blast
    next
      case 2
      with Cons.IH obtain a b where "xs = a @ s @ c # b" by blast
      then have "x # xs = (x # a) @ s @ c # b" by simp
      then show ?thesis by blast
    qed
  qed
qed

text \<open>
  C18. The URL check: a URL (shorter than its array) that passes it has no \<^verbatim>\<open>..\<close> segment before
  its last segment, so every directory step but the last stays below the directory it is in.
\<close>

theorem url_checks_no_dotdot:
  assumes "server_http_url_checks http = 0" "length (req_url http) < HTTP_URL_LEN"
    and "seg \<in> set (butlast (split_on (CHR ''/'') (req_url http)))"
  shows "seg \<noteq> ''..'' \<and> (\<forall>a. seg \<noteq> a @ ''..'')"
proof -
  obtain a b where ab: "req_url http = a @ seg @ CHR ''/'' # b" using split_on_inner [OF assms(3)] by blast
  have url: "cstr_fields (tl (req_fields http)) = req_url http"
    using assms(2) by (simp add: req_fields_def)
  have none: "find_sub (req_url http) ''../'' = None"
    using assms(1) by (simp add: server_http_url_checks_def url split: if_splits)
  have "seg \<noteq> p @ ''..''" for p
  proof
    assume "seg = p @ ''..''"
    then have "req_url http = (a @ p) @ ''../'' @ b" using ab by simp
    then show False using none find_sub_occurs [of "a @ p" "''../''" b] by simp
  qed
  from this [of "[]"] this show ?thesis by simp
qed

theorem url_checks_no_dotdot_witness:
  "''img'' \<noteq> ''..'' \<and> (\<forall>a. ''img'' \<noteq> a @ ''..'')"
  by (rule url_checks_no_dotdot [of "http_zero\<lparr>req_url := ''/img/a.png''\<rparr>"])
    (simp_all add: server_http_url_checks_def req_fields_def HTTP_URL_LEN_def)

text \<open>
  C19. The check has a hole: the URL \<^verbatim>\<open>/..\<close> passes it, and when the parent of the root
  directory is a directory, the \<^verbatim>\<open>index.html\<close> of that parent is served.
\<close>

theorem get_dotdot_escapes_root:
  assumes "isdir env (root_dir env @ ''/..'') = 1" "length (root_dir env) < 512"
    and "read_file env (root_dir env @ ''/../index.html'') = Some content"
  shows "server_handle_http_get env c (http_zero\<lparr>req_method := ''GET'', req_url := ''/..''\<rparr>) =
    (server_http_resp_ok c content (length content) ''text/html'', RECV_OK)"
proof -
  let ?h = "http_zero\<lparr>req_method := ''GET'', req_url := ''/..''\<rparr>"
  have url: "cstr_fields (tl (req_fields ?h)) = ''/..''" by (simp add: req_fields_def HTTP_URL_LEN_def)
  have "server_http_url_checks ?h = 0" by (simp add: server_http_url_checks_def url)
  moreover have "get_path env ?h = root_dir env @ ''/..''"
    unfolding get_path_def url using assms(2) by (simp add: url_last_def snprintf_def PATH_MAX_def Let_def)
  moreover have "server_get_content_type (root_dir env @ ''/../index.html'') = ''text/html''"
    by (simp add: server_get_content_type_def strrchr_def)
  ultimately show ?thesis
    using assms(1,3) by (simp add: server_handle_http_get_def Let_def)
qed

theorem get_dotdot_escapes_root_witness:
  "server_handle_http_get demo_env demo_conn (http_zero\<lparr>req_method := ''GET'', req_url := ''/..''\<rparr>) =
    (server_http_resp_ok demo_conn ''secret'' 6 ''text/html'', RECV_OK)"
  using get_dotdot_escapes_root [of demo_env "''secret''" demo_conn] by (simp add: demo_env_def eval_nat_numeral)

definition no_path_request :: string where
  "no_path_request = ''GET ? HTTP/1.1'' @ HTTP_END @ [NUL]"

definition no_upgrade_request :: string where
  "no_upgrade_request = ''GET / HTTP/1.1'' @ HTTP_NL @ ''Connection: Upgrade'' @ HTTP_END @ [NUL]"

lemma no_path_steps:
  "strsplit no_path_request (Some 0) HTTP_END None =
    (''GET ? HTTP/1.1'' @ replicate 5 NUL, Some 18, Some 0)"
  "strsplit (''GET ? HTTP/1.1'' @ replicate 5 NUL) None HTTP_END (Some 18) =
    (''GET ? HTTP/1.1'' @ replicate 5 NUL, Some 18, None)"
  "strsplit (''GET ? HTTP/1.1'' @ replicate 5 NUL) (Some 0) HTTP_NL (Some 18) =
    (''GET ? HTTP/1.1'' @ replicate 5 NUL, Some 0, Some 0)"
  "parse_first_line http_zero (''GET ? HTTP/1.1'' @ replicate 5 NUL) 0 = Fault"
  by code_simp+

definition upgrade_header :: http_header where
  "upgrade_header = \<lparr>hname = ''Connection'', hval = ''Upgrade''\<rparr>"

definition upgrade_msg :: http where
  "upgrade_msg = http_zero\<lparr>req_method := ''GET'', req_url := ''/'', req_version := ''HTTP/1.1'',
     headers := (replicate 20 no_header)[0 := upgrade_header], n_headers := 1\<rparr>"

definition upgrade_buf :: string where
  "upgrade_buf = ''GET'' @ [NUL] @ ''/'' @ [NUL] @ ''HTTP/1.1'' @ [NUL, NUL] @ ''Connection: Upgrade'' @ replicate 5 NUL"

lemma no_upgrade_steps:
  "strsplit no_upgrade_request (Some 0) HTTP_END None =
    (''GET / HTTP/1.1'' @ HTTP_NL @ ''Connection: Upgrade'' @ replicate 5 NUL, Some 39, Some 0)"
  "strsplit (''GET / HTTP/1.1'' @ HTTP_NL @ ''Connection: Upgrade'' @ replicate 5 NUL) None HTTP_END (Some 39) =
    (''GET / HTTP/1.1'' @ HTTP_NL @ ''Connection: Upgrade'' @ replicate 5 NUL, Some 39, None)"
  "strsplit (''GET / HTTP/1.1'' @ HTTP_NL @ ''Connection: Upgrade'' @ replicate 5 NUL) (Some 0) HTTP_NL (Some 39) =
    (''GET / HTTP/1.1'' @ [NUL, NUL] @ ''Connection: Upgrade'' @ replicate 5 NUL, Some 16, Some 0)"
  "parse_first_line http_zero (''GET / HTTP/1.1'' @ [NUL, NUL] @ ''Connection: Upgrade'' @ replicate 5 NUL) 0 =
    Parsed (http_zero\<lparr>req_method := ''GET'', req_url := ''/'', req_version := ''HTTP/1.1''\<rparr>, upgrade_buf)"
  "strsplit upgrade_buf None HTTP_NL (Some 16) = (upgrade_buf, Some 16, Some 16)"
  "fst (parse_header_lines (http_zero\<lparr>req_method := ''GET'', req_url := ''/'', req_version := ''HTTP/1.1''\<rparr>)
    upgrade_buf (Some 16) (Some 16)) = upgrade_msg"
  by code_simp+

lemma upgrade_headers: "headers upgrade_msg = upgrade_header # replicate 19 no_header"
  by (simp add: upgrade_msg_def numeral_eq_Suc)

lemma upgrade_header_steps:
  "name_cmp (headers upgrade_msg ! 0) ''Content-Length'' = False"
  "name_cmp (headers upgrade_msg ! 0) ''Connection'' = True"
  "header_val upgrade_msg 0 = ''Upgrade''"
  "strtok (''Upgrade'' @ [NUL]) 0 '', '' = (''Upgrade'' @ [NUL], 7, Some 0)"
  "connection_tokens (''Upgrade'' @ [NUL]) 0 = [''Upgrade'']"
  "cstr (''Upgrade'' @ [NUL]) 0 = ''Upgrade''"
  "http_get_header upgrade_msg ''Upgrade'' = None"
  "n_headers upgrade_msg = 1"
proof -
  show "n_headers upgrade_msg = 1" by (simp add: upgrade_msg_def)
  then show "http_get_header upgrade_msg ''Upgrade'' = None"
    by (simp add: http_get_header_def upgrade_headers upgrade_header_def name_cmp_def strncmp_eq_def
        HTTP_HEAD_NAME_LEN_def)
  show "header_val upgrade_msg 0 = ''Upgrade''"
    by (simp add: header_val_def headers_from_def upgrade_headers upgrade_header_def header_fields_def
        HTTP_HEAD_VAL_LEN_def)
  show "name_cmp (headers upgrade_msg ! 0) ''Content-Length'' = False"
    "name_cmp (headers upgrade_msg ! 0) ''Connection'' = True"
    by (simp_all add: upgrade_headers upgrade_header_def name_cmp_def strncmp_eq_def HTTP_HEAD_NAME_LEN_def)
  show s: "strtok (''Upgrade'' @ [NUL]) 0 '', '' = (''Upgrade'' @ [NUL], 7, Some 0)"
    and c: "cstr (''Upgrade'' @ [NUL]) 0 = ''Upgrade''"
    by code_simp+
  have s7: "strtok (''Upgrade'' @ [NUL]) 7 '', '' = (''Upgrade'' @ [NUL], 7, None)" by code_simp
  have "connection_tokens (''Upgrade'' @ [NUL]) 7 = []"
    by (subst connection_tokens.simps) (simp only: s7 prod.case option.case)
  then show "connection_tokens (''Upgrade'' @ [NUL]) 0 = [''Upgrade'']"
    by (subst connection_tokens.simps) (simp only: s c prod.case option.case)
qed

lemma upgrade_msg_same:
  "(headers upgrade_msg)[0 := (headers upgrade_msg ! 0)\<lparr>hval := take HTTP_HEAD_VAL_LEN ''Upgrade''\<rparr>]
    = headers upgrade_msg"
  "upgrade_msg\<lparr>headers := headers upgrade_msg\<rparr> = upgrade_msg"
  "upgrade_msg\<lparr>body := None\<rparr> = upgrade_msg"
  by (simp_all add: upgrade_msg_def upgrade_header_def HTTP_HEAD_VAL_LEN_def http_zero_def numeral_eq_Suc)

lemma pending_set: "((x OR CLIENT_STATE_UPGRADE_PENDING) AND CLIENT_STATE_UPGRADE_PENDING \<noteq> 0) = True"
proof -
  have "bit ((x OR CLIENT_STATE_UPGRADE_PENDING) AND CLIENT_STATE_UPGRADE_PENDING) 0"
    by (simp add: CLIENT_STATE_UPGRADE_PENDING_def bit_simps)
  then show ?thesis by auto
qed

lemma upgrade_token:
  "fold connection_token [''Upgrade''] c = c\<lparr>cstate := cstate c OR CLIENT_STATE_UPGRADE_PENDING\<rparr>"
  by (simp add: connection_token_def strncmp_eq_def HTTP_HEAD_VAL_LEN_def)

lemma upgrade_msg_header:
  "fold (handle_http_header env) [0..<n_headers upgrade_msg] (c, upgrade_msg) =
    (c\<lparr>cstate := cstate c OR CLIENT_STATE_UPGRADE_PENDING\<rparr>, upgrade_msg)"
proof -
  have "handle_http_header env 0 (c, upgrade_msg) =
      (c\<lparr>cstate := cstate c OR CLIENT_STATE_UPGRADE_PENDING\<rparr>, upgrade_msg)"
    by (simp only: handle_http_header_def prod.case Let_def upgrade_header_steps(1-6) if_False if_True
        set_client_connection_def upgrade_msg_same upgrade_token)
  moreover have "[0..<n_headers upgrade_msg] = [0]" by (simp add: upgrade_header_steps(8))
  ultimately show ?thesis by (simp only: fold_simps)
qed

lemma upgrade_fault:
  "handle_http_upgrade (c\<lparr>cstate := cstate c OR CLIENT_STATE_UPGRADE_PENDING\<rparr>) http None = Fault"
  using pending_set [of "cstate c"] by (simp add: handle_http_upgrade_def has_state_def)

text \<open>
  C20. Two requests crash the parser, for every client and whatever the environment: a request
  whose URL is \<^verbatim>\<open>?\<close> (there is no path token, and the URL is copied from a null pointer), and an
  upgrade request without an \<^verbatim>\<open>Upgrade\<close> header (the value of the missing header is compared).
\<close>

theorem parse_http_crashes:
  "parse_http env c no_path_request n = Fault \<and> parse_http env c no_upgrade_request n = Fault"
proof
  show "parse_http env c no_path_request n = Fault"
    by (simp only: parse_http_def no_path_steps prod.case option.case parse_result.case Let_def)
  obtain b where p: "parse_header_lines (http_zero\<lparr>req_method := ''GET'', req_url := ''/'',
      req_version := ''HTTP/1.1''\<rparr>) upgrade_buf (Some 16) (Some 16) = (upgrade_msg, b)"
    by (metis no_upgrade_steps(6) prod.collapse)
  show "parse_http env c no_upgrade_request n = Fault"
    by (simp only: parse_http_def no_upgrade_steps(1-5) p prod.case option.case parse_result.case Let_def
        option.map upgrade_msg_same upgrade_msg_header upgrade_header_steps(7) upgrade_fault)
qed

definition handshake_text :: "string \<Rightarrow> string" where
  "handshake_text key =
     ''HTTP/1.1 101 Switching Protocols'' @ HTTP_NL @ ''Server: ChityChat'' @ HTTP_NL @
     ''Connection: Upgrade'' @ HTTP_NL @ ''Upgrade: websocket'' @ HTTP_NL @
     ''Sec-WebSocket-Accept: '' @ key @ HTTP_END"

definition handshake_resp :: "string \<Rightarrow> http" where
  "handshake_resp key =
     http_add_header
       (http_add_header
          (http_add_header (http_new_resp 101 ''Switching Protocols'' None 0) ''Connection'' ''Upgrade'')
          ''Upgrade'' ''websocket'')
       ''Sec-WebSocket-Accept'' key"

lemma dec_101: "dec_digits 101 = ''101''"
  by code_simp

lemma replicate_20: "replicate 20 x = [x, x, x, x, x, x, x, x, x, x, x, x, x, x, x, x, x, x, x, x]"
  by (simp add: numeral_eq_Suc)

lemma has_state_bit:
  "has_state c CLIENT_STATE_UPGRADE_PENDING = bit (cstate c) 0"
  "has_state c CLIENT_STATE_WEBSOCKET = bit (cstate c) 1"
  "has_state c CLIENT_STATE_LOGGED_IN = bit (cstate c) 3"
proof -
  have "x AND push_bit n 1 \<noteq> 0 \<longleftrightarrow> bit x n" if "n < 16" for x :: u16 and n
  proof
    assume "x AND push_bit n 1 \<noteq> 0"
    then obtain m where "bit (x AND push_bit n 1) m" by (metis bit_eqI bit_0_eq bot_apply bot_bool_def)
    then show "bit x n" by (auto simp: bit_simps)
  next
    assume "bit x n"
    then have "bit (x AND push_bit n 1) n" using that by (simp add: bit_simps)
    then show "x AND push_bit n 1 \<noteq> 0" by auto
  qed
  from this [of 0] this [of 1] this [of 3]
  show "has_state c CLIENT_STATE_UPGRADE_PENDING = bit (cstate c) 0"
    "has_state c CLIENT_STATE_WEBSOCKET = bit (cstate c) 1"
    "has_state c CLIENT_STATE_LOGGED_IN = bit (cstate c) 3"
    by (simp_all add: has_state_def client_states)
qed

lemma state_bits [simp]:
  "bit CLIENT_STATE_UPGRADE_PENDING 0" "\<not> bit CLIENT_STATE_UPGRADE_PENDING 1"
  "\<not> bit CLIENT_STATE_UPGRADE_PENDING 3" "bit CLIENT_STATE_WEBSOCKET 1" "\<not> bit CLIENT_STATE_WEBSOCKET 0"
  "\<not> bit CLIENT_STATE_WEBSOCKET 3"
  by (simp_all add: client_states)

lemma handshake_headers:
  assumes "length key < 256"
  shows "take (n_headers (handshake_resp key)) (headers (handshake_resp key)) =
    [\<lparr>hname = ''Server'', hval = ''ChityChat''\<rparr>, \<lparr>hname = ''Connection'', hval = ''Upgrade''\<rparr>,
     \<lparr>hname = ''Upgrade'', hval = ''websocket''\<rparr>, \<lparr>hname = ''Sec-WebSocket-Accept'', hval = key\<rparr>]"
  using assms
  by (simp add: handshake_resp_def http_new_resp_def Let_def http_add_header_def http_zero_def
      HTTP_MAX_HEADERS_def HTTP_HEAD_NAME_LEN_def HTTP_HEAD_VAL_LEN_def name_cmp_def strncmp_eq_def
      no_header_def replicate_20)

lemma handshake_resp_text:
  assumes "length key < 256" "key \<noteq> []"
  shows "\<exists>t. http_to_str (handshake_resp key) = Some t \<and> ts_str t = handshake_text key \<and>
    ts_len t = length (ts_str t)"
proof -
  have wf: "resp_wf (handshake_resp key)"
    by (simp add: handshake_resp_def resp_wf_add_header resp_wf_new_resp)
  have plain: "list_all plain_header (take (n_headers (handshake_resp key)) (headers (handshake_resp key)))"
    using assms by (simp add: handshake_headers plain_header_def HTTP_HEAD_NAME_LEN_def HTTP_HEAD_VAL_LEN_def)
  have r: "resp_code (handshake_resp key) = 101" "resp_msg (handshake_resp key) = ''Switching Protocols''"
    "body (handshake_resp key) = None" "resp_version (handshake_resp key) = ''HTTP/1.1''"
    by (simp_all add: handshake_resp_def http_new_resp_def Let_def http_zero_def HTTP_STATUS_MSG_LEN_def
        HTTP_VERSION_LEN_def)
  have "resp_text (handshake_resp key) = handshake_text key"
    using assms(1) by (simp add: resp_text_def r handshake_headers print_header_def handshake_text_def dec_101)
  then show ?thesis using http_to_str_text [OF wf plain] by simp
qed

text \<open>
  C21. The WebSocket handshake: for a pending upgrade to \<^verbatim>\<open>websocket\<close> the server sends exactly one
  message, the \<^verbatim>\<open>101\<close> response with the accept key, and afterwards the connection is not
  pending any more; it is a WebSocket connection unless the write returned \<open>-1\<close>, and a write
  that sent nothing marks the connection as broken.
\<close>

theorem websocket_handshake:
  assumes "has_state c CLIENT_STATE_UPGRADE_PENDING" "cerr c \<noteq> CLIENT_ERR_SSL"
    and "http_get_header http ''Upgrade'' = Some i" "header_val http i = ''websocket''"
    and "websocket_key http = Some key" "key \<noteq> []" "length key < 256"
    and "ssl_write c (length (sent c)) = r"
  shows "sent (server_handle_client_upgrade c http) = sent c @ [to_bytes (handshake_text key)] \<and>
    \<not> has_state (server_handle_client_upgrade c http) CLIENT_STATE_UPGRADE_PENDING \<and>
    (r \<noteq> -1 \<longrightarrow> has_state (server_handle_client_upgrade c http) CLIENT_STATE_WEBSOCKET) \<and>
    (r \<le> 0 \<longrightarrow> cerr (server_handle_client_upgrade c http) = CLIENT_ERR_SSL)"
proof -
  obtain t where t: "http_to_str (handshake_resp key) = Some t" "ts_str t = handshake_text key"
    "ts_len t = length (ts_str t)"
    using handshake_resp_text assms(6,7) by blast
  have snd: "http_send c (handshake_resp key) = server_send c (to_bytes (handshake_text key))"
    using t by (simp add: http_send_def)
  have up: "server_upgrade_client_to_websocket c http =
      (let (c1, ret) = server_send c (to_bytes (handshake_text key))
       in if ret \<noteq> -1 then c1\<lparr>cstate := cstate c1 OR CLIENT_STATE_WEBSOCKET\<rparr> else c1)"
    using assms(5) by (simp add: server_upgrade_client_to_websocket_def http_add_header_opt_def
        handshake_resp_def [symmetric] snd)
  have ws: "strncmp_eq (header_val http i) ''websocket'' HTTP_HEAD_VAL_LEN"
    using assms(4) by (simp add: strncmp_eq_def)
  have "bit (cstate c) 0" using assms(1) by (simp add: has_state_bit)
  then show ?thesis
    using assms(2,3,8) ws
    by (simp add: server_handle_client_upgrade_def up server_send_def Let_def server_set_client_err_def
        has_state_bit bit_simps del: One_nat_def)
qed

theorem websocket_handshake_witness:
  "sent (server_handle_client_upgrade (demo_conn\<lparr>cstate := CLIENT_STATE_UPGRADE_PENDING\<rparr>)
      (http_zero\<lparr>headers := (replicate 20 no_header)[0 := \<lparr>hname = ''Upgrade'', hval = ''websocket''\<rparr>],
                 n_headers := 1, websocket_key := Some ''s3pPLMBiTxaQ9kYGzzhZRbK+xOo=''\<rparr>)) =
    [to_bytes (handshake_text ''s3pPLMBiTxaQ9kYGzzhZRbK+xOo='')]"
proof -
  let ?c = "demo_conn\<lparr>cstate := CLIENT_STATE_UPGRADE_PENDING\<rparr>"
  let ?h = "http_zero\<lparr>headers := (replicate 20 no_header)[0 := \<lparr>hname = ''Upgrade'', hval = ''websocket''\<rparr>],
      n_headers := 1, websocket_key := Some ''s3pPLMBiTxaQ9kYGzzhZRbK+xOo=''\<rparr>"
  have g: "http_get_header ?h ''Upgrade'' = Some 0" by code_simp
  have v: "header_val ?h 0 = ''websocket''"
    by (simp add: header_val_def headers_from_def header_fields_def HTTP_HEAD_VAL_LEN_def replicate_20)
  show ?thesis
    using websocket_handshake [of ?c ?h 0 "''s3pPLMBiTxaQ9kYGzzhZRbK+xOo=''" 1] g v
    by (simp add: has_state_bit demo_conn_def client_zero_def CLIENT_ERR_NONE_def CLIENT_ERR_SSL_def
        del: One_nat_def)
qed

end
