(* ===== verification/Bounded_Queue.thy ===== *)
theory Bounded_Queue
  imports Chity_Base
begin

text \<open>
  The interface of a bounded first-in first-out queue, as the event worker uses the database
  pipeline's ring: an insertion that a full queue refuses, a look at the oldest element and its
  removal. The laws about sequences of operations are proved here once for every provider.
\<close>

datatype 'a queue_op = Queue_enq 'a | Queue_deq

definition queue_step ::
  "('q \<Rightarrow> 'a \<Rightarrow> 'q \<times> bool) \<Rightarrow> ('q \<Rightarrow> ('a \<times> 'q) option) \<Rightarrow> 'a queue_op \<Rightarrow> 'q \<times> 'a list \<Rightarrow> 'q \<times> 'a list" where
  "queue_step enq deq op = (\<lambda>(q, out).
     (case op of
        Queue_enq a \<Rightarrow> (fst (enq q a), out)
      | Queue_deq \<Rightarrow> (case deq q of None \<Rightarrow> (q, out) | Some (a, q') \<Rightarrow> (q', out @ [a]))))"

text \<open>The specification: a list of at most \<open>cap\<close> elements, and the elements taken out so far.\<close>

definition list_step :: "nat \<Rightarrow> 'a queue_op \<Rightarrow> 'a list \<times> 'a list \<Rightarrow> 'a list \<times> 'a list" where
  "list_step cap op = (\<lambda>(xs, out).
     (case op of
        Queue_enq a \<Rightarrow> (if length xs < cap then xs @ [a] else xs, out)
      | Queue_deq \<Rightarrow> (case xs of [] \<Rightarrow> ([], out) | x # xs' \<Rightarrow> (xs', out @ [x]))))"

fun enq_elems :: "'a queue_op list \<Rightarrow> 'a list" where
  "enq_elems [] = []"
| "enq_elems (Queue_enq a # ops) = a # enq_elems ops"
| "enq_elems (Queue_deq # ops) = enq_elems ops"

locale bounded_queue =
  fixes enq :: "'q \<Rightarrow> 'a \<Rightarrow> 'q \<times> bool"
    and deq :: "'q \<Rightarrow> ('a \<times> 'q) option"
    and peek :: "'q \<Rightarrow> 'a option"
    and contents :: "'q \<Rightarrow> 'a list"
    and inv :: "'q \<Rightarrow> bool"
    and elem_ok :: "'a \<Rightarrow> bool"
    and capacity :: "'q \<Rightarrow> nat"
  assumes enq_room: "\<lbrakk>inv q; elem_ok a; length (contents q) < capacity q\<rbrakk> \<Longrightarrow>
      \<exists>q'. enq q a = (q', True) \<and> inv q' \<and> contents q' = contents q @ [a] \<and> capacity q' = capacity q"
    and enq_full: "\<lbrakk>inv q; length (contents q) = capacity q\<rbrakk> \<Longrightarrow> enq q a = (q, False)"
    and deq_empty: "\<lbrakk>inv q; contents q = []\<rbrakk> \<Longrightarrow> deq q = None"
    and deq_cons: "\<lbrakk>inv q; contents q = a # as\<rbrakk> \<Longrightarrow>
      \<exists>q'. deq q = Some (a, q') \<and> inv q' \<and> contents q' = as \<and> capacity q' = capacity q"
    and peek_hd: "inv q \<Longrightarrow> peek q = (case contents q of [] \<Rightarrow> None | a # _ \<Rightarrow> Some a)"
    and contents_capacity: "inv q \<Longrightarrow> length (contents q) \<le> capacity q"
begin

lemma step_simulates:
  assumes "inv q" and "\<forall>a. op = Queue_enq a \<longrightarrow> elem_ok a"
  shows "inv (fst (queue_step enq deq op (q, out)))"
    and "capacity (fst (queue_step enq deq op (q, out))) = capacity q"
    and "(contents (fst (queue_step enq deq op (q, out))), snd (queue_step enq deq op (q, out))) =
      list_step (capacity q) op (contents q, out)"
proof -
  have "inv (fst (queue_step enq deq op (q, out))) \<and>
    capacity (fst (queue_step enq deq op (q, out))) = capacity q \<and>
    (contents (fst (queue_step enq deq op (q, out))), snd (queue_step enq deq op (q, out))) =
      list_step (capacity q) op (contents q, out)"
  proof (cases op)
    case (Queue_enq a)
    show ?thesis
    proof (cases "length (contents q) < capacity q")
      case True
      with enq_room [OF assms(1)] assms(2) Queue_enq obtain q' where
        "enq q a = (q', True)" "inv q'" "contents q' = contents q @ [a]" "capacity q' = capacity q"
        by blast
      with True Queue_enq show ?thesis by (simp add: queue_step_def list_step_def)
    next
      case False
      then have "length (contents q) = capacity q" using contents_capacity [OF assms(1)] by simp
      then show ?thesis using enq_full [OF assms(1)] Queue_enq False assms(1)
        by (simp add: queue_step_def list_step_def)
    qed
  next
    case Queue_deq
    show ?thesis
    proof (cases "contents q")
      case Nil
      then show ?thesis using deq_empty [OF assms(1)] Queue_deq assms(1)
        by (simp add: queue_step_def list_step_def)
    next
      case (Cons a as)
      then obtain q' where "deq q = Some (a, q')" "inv q'" "contents q' = as" "capacity q' = capacity q"
        using deq_cons [OF assms(1)] by blast
      with Cons Queue_deq show ?thesis by (simp add: queue_step_def list_step_def)
    qed
  qed
  then show "inv (fst (queue_step enq deq op (q, out)))"
    "capacity (fst (queue_step enq deq op (q, out))) = capacity q"
    "(contents (fst (queue_step enq deq op (q, out))), snd (queue_step enq deq op (q, out))) =
      list_step (capacity q) op (contents q, out)"
    by blast+
qed

text \<open>A run of operations is a run of the list queue.\<close>

lemma run_simulates:
  assumes "inv q" and "\<forall>a\<in>set (enq_elems ops). elem_ok a"
  shows "inv (fst (fold (queue_step enq deq) ops (q, out)))"
    and "(contents (fst (fold (queue_step enq deq) ops (q, out))),
          snd (fold (queue_step enq deq) ops (q, out))) =
      fold (list_step (capacity q)) ops (contents q, out)"
proof -
  have "inv (fst (fold (queue_step enq deq) ops (q, out))) \<and>
    (contents (fst (fold (queue_step enq deq) ops (q, out))),
      snd (fold (queue_step enq deq) ops (q, out))) =
    fold (list_step (capacity q)) ops (contents q, out)"
    using assms
  proof (induction ops arbitrary: q out)
    case Nil
    then show ?case by simp
  next
    case (Cons op ops)
    obtain q' out' where s: "queue_step enq deq op (q, out) = (q', out')" by fastforce
    have "\<forall>a. op = Queue_enq a \<longrightarrow> elem_ok a" using Cons.prems(2) by auto
    note st = step_simulates [OF Cons.prems(1) this, of out]
    have "\<forall>a\<in>set (enq_elems ops). elem_ok a" using Cons.prems(2) by (cases op) auto
    with Cons.IH [of q' out'] st s show ?case by simp
  qed
  then show "inv (fst (fold (queue_step enq deq) ops (q, out)))"
    "(contents (fst (fold (queue_step enq deq) ops (q, out))),
      snd (fold (queue_step enq deq) ops (q, out))) =
      fold (list_step (capacity q)) ops (contents q, out)"
    by blast+
qed

end

end
