(* ===== verification/Db_Pipeline.thy ===== *)
theory Db_Pipeline
  imports Bounded_Queue
begin

text \<open>
  The pipeline of asynchronous database commands of \<^verbatim>\<open>server/src/chat/db_pipeline.c\<close>: the ring of
  command slots of a worker (\<^verbatim>\<open>plq_t\<close>), the chain of commands that the current event builds up
  (\<^verbatim>\<open>dbctx_t\<close>), and the loop that hands query results to commands and runs their callbacks.

  A chain linked by \<^verbatim>\<open>next\<close> is its head and the list of the commands behind it. A callback pointer
  is an optional tag; what the tags mean is an argument of the functions that call them, because
  callbacks act on the pipeline again. libpq is outside: the result of the \<open>k\<close>-th
  \<^verbatim>\<open>PQsendQueryParams\<close> is a parameter in the connection, and the results that
  \<^verbatim>\<open>PQgetResult\<close> delivers are a list.
\<close>

section \<open>State\<close>

definition DB_ASYNC_BUSY :: int where "DB_ASYNC_BUSY = 0"
definition DB_ASYNC_OK :: int where "DB_ASYNC_OK = 1"
definition DB_ASYNC_ERROR :: int where "DB_ASYNC_ERROR = -1"
definition DB_CTX_NO_JSON :: u32 where "DB_CTX_NO_JSON = 0x01"
definition DB_CTX_DONT_FREE :: u32 where "DB_CTX_DONT_FREE = 0x02"

lemmas db_consts = DB_ASYNC_BUSY_def DB_ASYNC_OK_def DB_ASYNC_ERROR_def DB_CTX_NO_JSON_def
  DB_CTX_DONT_FREE_def

record ('e, 'r, 'd) dbcmd =
  cmd_ret :: int
  cmd_flags :: u32
  cmd_client :: "nat option"
  cmd_data :: "'d option"
  cmd_data_size :: int
  cmd_exec :: "'e option"
  cmd_exec_res :: "'r option"
  cmd_param :: "'d option"

type_synonym ('e, 'r, 'd) dbchain = "('e, 'r, 'd) dbcmd \<times> ('e, 'r, 'd) dbcmd list"

record ('e, 'r, 'd) plq =
  plq_slots :: "('e, 'r, 'd) dbchain list"
  plq_read :: nat
  plq_write :: nat
  plq_size :: nat
  plq_count :: nat

record ('e, 'r, 'd) server_db =
  db_queue :: "('e, 'r, 'd) plq"
  ctx_client :: "nat option"
  ctx_chain :: "('e, 'r, 'd) dbcmd list"
  pq_sent :: "(string \<times> string option list) list"
  pq_send :: "nat \<Rightarrow> int"

definition cmd_zero :: "('e, 'r, 'd) dbcmd" where
  "cmd_zero =
     \<lparr>cmd_ret = DB_ASYNC_BUSY, cmd_flags = 0, cmd_client = None, cmd_data = None, cmd_data_size = 0,
      cmd_exec = None, cmd_exec_res = None, cmd_param = None\<rparr>"

section \<open>The ring\<close>

definition db_init_queue :: "nat \<Rightarrow> ('e, 'r, 'd) plq" where
  "db_init_queue n =
     \<lparr>plq_slots = replicate n (cmd_zero, []), plq_read = 0, plq_write = 0, plq_size = n,
      plq_count = 0\<rparr>"

text \<open>\<^verbatim>\<open>if ((q->write++ >= q->end)) q->write = q->begin\<close>, where \<^verbatim>\<open>end\<close> is the last slot.\<close>

definition ring_next :: "nat \<Rightarrow> nat \<Rightarrow> nat" where
  "ring_next n p = (if n - 1 \<le> p then 0 else Suc p)"

definition db_pipeline_enqueue :: "('e, 'r, 'd) plq \<Rightarrow> ('e, 'r, 'd) dbchain \<Rightarrow> ('e, 'r, 'd) plq \<times> bool" where
  "db_pipeline_enqueue q cmd =
     (if cmd_client (fst (plq_slots q ! plq_write q)) \<noteq> None then (q, False)
      else (q\<lparr>plq_slots := (plq_slots q)[plq_write q := cmd],
              plq_write := ring_next (plq_size q) (plq_write q),
              plq_count := Suc (plq_count q)\<rparr>, True))"

definition db_pipeline_peek :: "('e, 'r, 'd) plq \<Rightarrow> ('e, 'r, 'd) dbchain option" where
  "db_pipeline_peek q =
     (if cmd_exec (fst (plq_slots q ! plq_read q)) = None then None
      else Some (plq_slots q ! plq_read q))"

definition db_pipeline_dequeue ::
  "('e, 'r, 'd) plq \<Rightarrow> (('e, 'r, 'd) dbchain \<times> ('e, 'r, 'd) plq) option" where
  "db_pipeline_dequeue q =
     (if cmd_exec (fst (plq_slots q ! plq_read q)) = None then None
      else Some (plq_slots q ! plq_read q,
                 q\<lparr>plq_slots := (plq_slots q)[plq_read q := (cmd_zero, [])],
                   plq_read := ring_next (plq_size q) (plq_read q),
                   plq_count := plq_count q - 1\<rparr>))"

section \<open>The current chain\<close>

definition db_pipeline_enqueue_current ::
  "('e, 'r, 'd) server_db \<Rightarrow> ('e, 'r, 'd) dbcmd \<Rightarrow> ('e, 'r, 'd) server_db" where
  "db_pipeline_enqueue_current db cmd =
     db\<lparr>ctx_chain := ctx_chain db @
          [if cmd_client cmd = None then cmd\<lparr>cmd_client := ctx_client db\<rparr> else cmd]\<rparr>"

definition db_pipeline_reset_current :: "('e, 'r, 'd) server_db \<Rightarrow> ('e, 'r, 'd) server_db" where
  "db_pipeline_reset_current db = db\<lparr>ctx_client := None, ctx_chain := []\<rparr>"

text \<open>The result of the insertion is ignored: a chain that the full ring refuses is dropped.\<close>

definition db_pipeline_current_done :: "('e, 'r, 'd) server_db \<Rightarrow> ('e, 'r, 'd) server_db" where
  "db_pipeline_current_done db =
     (case ctx_chain db of
        [] \<Rightarrow> db
      | head # rest \<Rightarrow>
          db_pipeline_reset_current
            (db\<lparr>db_queue := fst (db_pipeline_enqueue (db_queue db) (head, rest))\<rparr>))"

definition db_pipeline_set_ctx :: "('e, 'r, 'd) server_db \<Rightarrow> nat option \<Rightarrow> ('e, 'r, 'd) server_db" where
  "db_pipeline_set_ctx db c = db\<lparr>ctx_client := c\<rparr>"

text \<open>\<open>pq_sent\<close> records the queries with their parameter values; \<open>None\<close> is an SQL NULL.\<close>

definition db_async_params ::
  "('e, 'r, 'd) server_db \<Rightarrow> string \<Rightarrow> string option list \<Rightarrow> ('e, 'r, 'd) dbcmd option \<Rightarrow>
    ('e, 'r, 'd) server_db \<times> int" where
  "db_async_params db query vals cmd =
     (case cmd of
        None \<Rightarrow> (db, 0)
      | Some c \<Rightarrow>
          (let ret = pq_send db (length (pq_sent db));
               db1 = db\<lparr>pq_sent := pq_sent db @ [(query, vals)]\<rparr>
           in if ret \<noteq> 1 then (db1, ret) else (db_pipeline_enqueue_current db1 c, ret)))"

definition db_async_exec ::
  "('e, 'r, 'd) server_db \<Rightarrow> string \<Rightarrow> ('e, 'r, 'd) dbcmd option \<Rightarrow> ('e, 'r, 'd) server_db \<times> int" where
  "db_async_exec db query cmd = db_async_params db query [] cmd"

definition db_async_begin ::
  "'r \<Rightarrow> ('e, 'r, 'd) server_db \<Rightarrow> ('e, 'r, 'd) dbcmd \<Rightarrow> ('e, 'r, 'd) server_db \<times> ('e, 'r, 'd) dbcmd \<times> int" where
  "db_async_begin begin_result db ctx =
     (let ctx' = ctx\<lparr>cmd_exec_res := Some begin_result, cmd_flags := cmd_flags ctx OR DB_CTX_DONT_FREE\<rparr>;
          (db', ret) = db_async_exec db ''BEGIN;'' (Some ctx')
      in (db', ctx', ret))"

definition db_async_commit :: "'r \<Rightarrow> ('e, 'r, 'd) server_db \<Rightarrow> ('e, 'r, 'd) server_db \<times> int" where
  "db_async_commit begin_result db =
     db_async_exec db ''COMMIT;'' (Some (cmd_zero\<lparr>cmd_exec_res := Some begin_result\<rparr>))"

definition db_async_rollback :: "'r \<Rightarrow> ('e, 'r, 'd) server_db \<Rightarrow> ('e, 'r, 'd) server_db \<times> int" where
  "db_async_rollback begin_result db =
     db_async_exec db ''ROLLBACK;'' (Some (cmd_zero\<lparr>cmd_exec_res := Some begin_result\<rparr>))"

section \<open>Results\<close>

datatype pg_status = PGRES_COMMAND_OK | PGRES_TUPLES_OK | PGRES_FATAL_ERROR | PGRES_PIPELINE_SYNC
  | PGRES_OTHER

definition begin_result :: "pg_status \<Rightarrow> ('e, 'r, 'd) dbcmd \<Rightarrow> ('e, 'r, 'd) dbcmd" where
  "begin_result status ctx =
     ctx\<lparr>cmd_ret := (if status = PGRES_FATAL_ERROR then DB_ASYNC_ERROR else DB_ASYNC_OK)\<rparr>"

text \<open>
  What the callbacks do: \<open>run_res\<close> handles one result for one command, \<open>run_exec\<close> gets the
  command and the commands behind it in its chain and may change its data, \<open>send_error\<close> is
  the JSON error message to a client, and \<open>null_res\<close> is the call of a result callback that is
  NULL. \<open>'s\<close> is the rest of the server.
\<close>

record ('e, 'r, 'd, 'res, 's) db_callbacks =
  run_res :: "'r \<Rightarrow> 's \<Rightarrow> 'res \<Rightarrow> pg_status \<Rightarrow> ('e, 'r, 'd) dbcmd \<Rightarrow> 's \<times> ('e, 'r, 'd) dbcmd"
  run_exec :: "'e \<Rightarrow> ('e, 'r, 'd) server_db \<Rightarrow> 's \<Rightarrow> ('e, 'r, 'd) dbchain \<Rightarrow>
    ('e, 'r, 'd) server_db \<times> 's \<times> ('e, 'r, 'd) dbcmd \<times> string option"
  send_error :: "'s \<Rightarrow> nat \<Rightarrow> string \<Rightarrow> 's"
  null_res :: "'s \<Rightarrow> 's"

definition db_exec_cmd ::
  "('e, 'r, 'd, 'res, 's) db_callbacks \<Rightarrow> 'e \<Rightarrow> ('e, 'r, 'd) server_db \<times> 's \<Rightarrow> ('e, 'r, 'd) dbchain \<Rightarrow>
    (('e, 'r, 'd) server_db \<times> 's) \<times> ('e, 'r, 'd) dbcmd" where
  "db_exec_cmd cb e ew chain =
     (let (db1, s1, cmd1, errmsg) = run_exec cb e (fst ew) (snd ew) chain;
          s2 = (case (errmsg, cmd_client cmd1) of
                  (Some msg, Some c) \<Rightarrow> send_error cb s1 c msg
                | _ \<Rightarrow> s1)
      in ((db_pipeline_current_done db1, s2), cmd1))"

text \<open>
  The chain is executed in order; the result has the commands as their callbacks left them, which
  is what \<^verbatim>\<open>db_cmd_free\<close> then frees.
\<close>

fun exec_nodes ::
  "('e, 'r, 'd, 'res, 's) db_callbacks \<Rightarrow> ('e, 'r, 'd) server_db \<times> 's \<Rightarrow> ('e, 'r, 'd) dbcmd list \<Rightarrow>
    (('e, 'r, 'd) server_db \<times> 's) \<times> ('e, 'r, 'd) dbcmd list" where
  "exec_nodes cb ew [] = (ew, [])"
| "exec_nodes cb ew (cmd # rest) =
     (let (ew1, cmd1) = (case cmd_exec cmd of None \<Rightarrow> (ew, cmd) | Some e \<Rightarrow> db_exec_cmd cb e ew (cmd, rest));
          (ew2, done2) = exec_nodes cb ew1 rest
      in (ew2, cmd1 # done2))"

definition db_cmd_free :: "('e, 'r, 'd) dbcmd list \<Rightarrow> 'd list" where
  "db_cmd_free cmds =
     concat (map (\<lambda>c. if cmd_flags c AND DB_CTX_DONT_FREE = 0
                      then (case cmd_data c of None \<Rightarrow> [] | Some d \<Rightarrow> [d]) else []) cmds)"

definition db_exec_cmd_chain ::
  "('e, 'r, 'd, 'res, 's) db_callbacks \<Rightarrow> ('e, 'r, 'd) server_db \<times> 's \<Rightarrow> ('e, 'r, 'd) dbchain \<Rightarrow>
    (('e, 'r, 'd) server_db \<times> 's) \<times> 'd list" where
  "db_exec_cmd_chain cb ew chain =
     (let (ew', cmds) = exec_nodes cb ew (fst chain # snd chain) in (ew', db_cmd_free cmds))"

text \<open>The command a result belongs to: the first busy one, or the last of the chain.\<close>

fun busy_index :: "('e, 'r, 'd) dbcmd list \<Rightarrow> nat" where
  "busy_index [] = 0"
| "busy_index [c] = 0"
| "busy_index (c # c' # cs) = (if cmd_ret c \<noteq> DB_ASYNC_BUSY then Suc (busy_index (c' # cs)) else 0)"

text \<open>One result. \<^verbatim>\<open>exec_res\<close> is called without a check that there is one.\<close>

definition process_result ::
  "('e, 'r, 'd, 'res, 's) db_callbacks \<Rightarrow> 'res \<times> pg_status \<Rightarrow>
    (('e, 'r, 'd) server_db \<times> 's) \<times> 'd list \<Rightarrow> (('e, 'r, 'd) server_db \<times> 's) \<times> 'd list" where
  "process_result cb = (\<lambda>(res, status) ((db, s), fr).
     (if status = PGRES_PIPELINE_SYNC then ((db, s), fr)
      else (case db_pipeline_peek (db_queue db) of
              None \<Rightarrow> ((db, s), fr)
            | Some chain \<Rightarrow>
                (let nodes = fst chain # snd chain;
                     k = busy_index nodes;
                     (s1, node) = (case cmd_exec_res (nodes ! k) of
                                     None \<Rightarrow> (null_res cb s, nodes ! k)
                                   | Some r \<Rightarrow> run_res cb r s res status (nodes ! k));
                     nodes1 = nodes[k := node];
                     q = db_queue db;
                     q1 = q\<lparr>plq_slots := (plq_slots q)[plq_read q := (hd nodes1, tl nodes1)]\<rparr>
                 in if Suc k = length nodes then
                      (case db_pipeline_dequeue q1 of
                         None \<Rightarrow> ((db\<lparr>db_queue := q1\<rparr>, s1), fr)
                       | Some (ch, q2) \<Rightarrow>
                           (let (ew, fr') = db_exec_cmd_chain cb (db\<lparr>db_queue := q2\<rparr>, s1) ch
                            in (ew, fr @ fr')))
                    else ((db\<lparr>db_queue := q1\<rparr>, s1), fr)))))"

text \<open>
  One call of \<^verbatim>\<open>db_process_results\<close> reads results until \<^verbatim>\<open>PQgetResult\<close> returns NULL, which
  it does after each query of a pipeline; \<open>results\<close> are those of one call, or of several calls
  one after the other (\<open>db_process_results_calls\<close>).
\<close>

definition db_process_results ::
  "('e, 'r, 'd, 'res, 's) db_callbacks \<Rightarrow> ('res \<times> pg_status) list \<Rightarrow> ('e, 'r, 'd) server_db \<times> 's \<Rightarrow>
    (('e, 'r, 'd) server_db \<times> 's) \<times> 'd list" where
  "db_process_results cb results ew = fold (process_result cb) results (ew, [])"

lemma process_result_frees:
  "process_result cb r (ew, fr) =
     (fst (process_result cb r (ew, [])), fr @ snd (process_result cb r (ew, [])))"
  by (cases r; cases ew)
    (simp add: process_result_def Let_def case_prod_beta split: option.split)

lemma fold_process_result_frees:
  "fold (process_result cb) rs (ew, fr) =
     (fst (fold (process_result cb) rs (ew, [])), fr @ snd (fold (process_result cb) rs (ew, [])))"
proof (induction rs arbitrary: ew fr)
  case (Cons r rs)
  let ?x = "process_result cb r (ew, [])"
  show ?case
    using Cons.IH [of "fst ?x" "fr @ snd ?x"] Cons.IH [of "fst ?x" "snd ?x"] process_result_frees [of cb r ew fr]
    by simp
qed simp

text \<open>Whatever the calls the results are read in, the outcome is that of one call with all of them.\<close>

lemma db_process_results_calls:
  "fold (\<lambda>rs (ew, fr). case db_process_results cb rs ew of (ew', fr') \<Rightarrow> (ew', fr @ fr')) calls (ew, fr0) =
     (case db_process_results cb (concat calls) ew of (ew', fr') \<Rightarrow> (ew', fr0 @ fr'))"
proof (induction calls arbitrary: ew fr0)
  case (Cons rs calls)
  obtain ew1 fr1 where one: "db_process_results cb rs ew = (ew1, fr1)" by fastforce
  have "db_process_results cb (concat (rs # calls)) ew = (case db_process_results cb (concat calls) ew1 of
      (ew', fr') \<Rightarrow> (ew', fr1 @ fr'))"
    using one fold_process_result_frees [of cb "concat calls" ew1 fr1]
    by (simp add: db_process_results_def case_prod_beta)
  then show ?case using one Cons.IH [of ew1 "fr0 @ fr1"] by (simp add: case_prod_beta)
qed (simp add: db_process_results_def)

section \<open>The ring is a bounded queue\<close>

text \<open>
  The code tells a full ring by the client of the write slot and an empty one by the callback of
  the read slot, so it is a queue for chains whose head has both.
\<close>

definition chain_ok :: "('e, 'r, 'd) dbchain \<Rightarrow> bool" where
  "chain_ok ch \<longleftrightarrow> cmd_client (fst ch) \<noteq> None \<and> cmd_exec (fst ch) \<noteq> None"

definition free_slot :: "('e, 'r, 'd) dbchain \<Rightarrow> bool" where
  "free_slot ch \<longleftrightarrow> cmd_client (fst ch) = None \<and> cmd_exec (fst ch) = None"

definition ring_slot :: "('e, 'r, 'd) plq \<Rightarrow> nat \<Rightarrow> ('e, 'r, 'd) dbchain" where
  "ring_slot q j = plq_slots q ! ((plq_read q + j) mod plq_size q)"

definition ring_contents :: "('e, 'r, 'd) plq \<Rightarrow> ('e, 'r, 'd) dbchain list" where
  "ring_contents q = map (ring_slot q) [0..<plq_count q]"

definition ring_ok :: "('e, 'r, 'd) plq \<Rightarrow> bool" where
  "ring_ok q \<longleftrightarrow>
     0 < plq_size q \<and> length (plq_slots q) = plq_size q \<and> plq_read q < plq_size q \<and>
     plq_count q \<le> plq_size q \<and> plq_write q = (plq_read q + plq_count q) mod plq_size q \<and>
     (\<forall>j<plq_count q. chain_ok (ring_slot q j)) \<and>
     (\<forall>j<plq_size q. plq_count q \<le> j \<longrightarrow> free_slot (ring_slot q j))"

lemma ring_next_mod: "p < n \<Longrightarrow> ring_next n p = Suc p mod n"
  by (cases "Suc p = n") (auto simp: ring_next_def)

lemma ring_index_inj:
  assumes "j < n" "k < n" "(r + j) mod n = (r + k) mod (n::nat)"
  shows "j = k"
proof -
  have "b = c" if "b \<le> c" "c < n" "(r + b) mod n = (r + c) mod n" for b c
  proof -
    have "n dvd (r + c) - (r + b)"
      using that mod_eq_dvd_iff_nat [of "r + b" "r + c" n] by simp
    then have "n dvd c - b" by simp
    with that show ?thesis by (auto dest: dvd_imp_le)
  qed
  from this [of j k] this [of k j] assms show ?thesis by (cases "j \<le> k") auto
qed

lemma ring_slot_update:
  assumes "length (plq_slots q) = plq_size q" "j < plq_size q" "k < plq_size q"
    and "plq_slots q' = (plq_slots q)[(plq_read q + k) mod plq_size q := ch]"
    and "plq_read q' = plq_read q" "plq_size q' = plq_size q"
  shows "ring_slot q' j = (if j = k then ch else ring_slot q j)"
proof -
  have "(plq_read q + j) mod plq_size q < plq_size q" using assms(2) by simp
  then show ?thesis
    using assms ring_index_inj [of j "plq_size q" k "plq_read q"]
    by (auto simp: ring_slot_def nth_list_update)
qed

lemma ring_write_slot:
  assumes "ring_ok q" "plq_count q < plq_size q"
  shows "plq_slots q ! plq_write q = ring_slot q (plq_count q)"
  using assms by (simp add: ring_ok_def ring_slot_def)

lemma enqueue_room:
  assumes ok: "ring_ok q" and ch: "chain_ok ch" and room: "plq_count q < plq_size q"
  obtains q' where "db_pipeline_enqueue q ch = (q', True)" "ring_ok q'"
    "ring_contents q' = ring_contents q @ [ch]" "plq_size q' = plq_size q"
    "plq_count q' = Suc (plq_count q)"
proof -
  let ?n = "plq_size q" and ?c = "plq_count q"
  let ?q' = "q\<lparr>plq_slots := (plq_slots q)[plq_write q := ch],
    plq_write := ring_next ?n (plq_write q), plq_count := Suc ?c\<rparr>"
  have w: "plq_write q = (plq_read q + ?c) mod ?n" "plq_write q < ?n"
    using ok by (auto simp: ring_ok_def)
  have "free_slot (ring_slot q ?c)" using ok room by (simp add: ring_ok_def)
  then have e: "db_pipeline_enqueue q ch = (?q', True)"
    using ring_write_slot [OF ok room] by (simp add: db_pipeline_enqueue_def free_slot_def)
  have upd: "ring_slot ?q' j = (if j = ?c then ch else ring_slot q j)" if "j < ?n" for j
    by (rule ring_slot_update [OF _ that room]) (use ok w in \<open>simp_all add: ring_ok_def\<close>)
  have "plq_write ?q' = (plq_read q + Suc ?c) mod ?n"
    using w ring_next_mod [OF w(2)] by (simp add: mod_Suc_eq)
  then have ok': "ring_ok ?q'"
    using ok room upd ch by (auto simp: ring_ok_def less_Suc_eq)
  have "ring_contents ?q' = ring_contents q @ [ch]"
    using upd room by (simp add: ring_contents_def)
  then show thesis by (rule that [OF e ok']) simp_all
qed

lemma enqueue_full:
  assumes ok: "ring_ok q" and full: "plq_count q = plq_size q"
  shows "db_pipeline_enqueue q ch = (q, False)"
proof -
  have "chain_ok (ring_slot q 0)" using ok full by (simp add: ring_ok_def)
  moreover have "plq_slots q ! plq_write q = ring_slot q 0"
    using ok full by (simp add: ring_ok_def ring_slot_def)
  ultimately show ?thesis by (simp add: db_pipeline_enqueue_def chain_ok_def)
qed

lemma read_slot: "ring_ok q \<Longrightarrow> plq_slots q ! plq_read q = ring_slot q 0"
  by (simp add: ring_ok_def ring_slot_def)

lemma ring_contents_Cons:
  "0 < plq_count q \<Longrightarrow> ring_contents q = ring_slot q 0 # map (\<lambda>j. ring_slot q (Suc j)) [0..<plq_count q - 1]"
  by (cases "plq_count q") (simp_all add: ring_contents_def upt_conv_Cons map_Suc_upt [symmetric]
      comp_def del: upt_Suc)

lemma dequeue_empty:
  "ring_ok q \<Longrightarrow> plq_count q = 0 \<Longrightarrow> db_pipeline_dequeue q = None \<and> db_pipeline_peek q = None"
  using read_slot [of q]
  by (auto simp: db_pipeline_dequeue_def db_pipeline_peek_def ring_ok_def free_slot_def)

lemma free_slot_zero [simp]: "free_slot (cmd_zero, [])"
  by (simp add: free_slot_def cmd_zero_def)

lemma dequeue_cons:
  assumes ok: "ring_ok q" and ne: "0 < plq_count q"
  obtains q' where "db_pipeline_dequeue q = Some (ring_slot q 0, q')" "ring_ok q'"
    "ring_contents q = ring_slot q 0 # ring_contents q'" "plq_size q' = plq_size q"
    "db_pipeline_peek q = Some (ring_slot q 0)"
proof -
  let ?n = "plq_size q" and ?c = "plq_count q"
  let ?q' = "q\<lparr>plq_slots := (plq_slots q)[plq_read q := (cmd_zero, [])],
    plq_read := ring_next ?n (plq_read q), plq_count := ?c - 1\<rparr>"
  have r: "plq_read q < ?n" and n: "0 < ?n" using ok by (simp_all add: ring_ok_def)
  have live: "chain_ok (ring_slot q 0)" using ok ne by (simp add: ring_ok_def)
  then have e: "db_pipeline_dequeue q = Some (ring_slot q 0, ?q')"
    "db_pipeline_peek q = Some (ring_slot q 0)"
    using read_slot [OF ok]
    by (simp_all add: db_pipeline_dequeue_def db_pipeline_peek_def chain_ok_def)
  define q0 where "q0 = q\<lparr>plq_slots := (plq_slots q)[plq_read q := (cmd_zero, [])]\<rparr>"
  have upd: "ring_slot q0 j = (if j = 0 then (cmd_zero, []) else ring_slot q j)" if "j < ?n" for j
    by (rule ring_slot_update [OF _ that n]) (use ok r in \<open>simp_all add: ring_ok_def q0_def\<close>)
  have shift: "ring_slot ?q' j = ring_slot q0 (Suc j mod ?n)" for j
  proof -
    have "(Suc (plq_read q) mod ?n + j) mod ?n = (plq_read q + Suc j mod ?n) mod ?n"
      by (metis add_Suc_shift mod_add_left_eq mod_add_right_eq)
    then show ?thesis using ring_next_mod [OF r] by (simp add: ring_slot_def q0_def)
  qed
  have slot: "ring_slot ?q' j = (if Suc j = ?n then (cmd_zero, []) else ring_slot q (Suc j))" if "j < ?n" for j
    using that upd [of "Suc j mod ?n"] shift [of j] n by (auto simp: mod_Suc)
  have wr: "plq_write q = (plq_read ?q' + (?c - 1)) mod ?n"
  proof -
    have s: "Suc (plq_read q) + (?c - 1) = plq_read q + ?c" using ne by simp
    have "(Suc (plq_read q) mod ?n + (?c - 1)) mod ?n = (Suc (plq_read q) + (?c - 1)) mod ?n"
      by (rule mod_add_left_eq)
    then have "(ring_next ?n (plq_read q) + (?c - 1)) mod ?n = (plq_read q + ?c) mod ?n"
      unfolding s ring_next_mod [OF r] .
    moreover have "plq_write q = (plq_read q + ?c) mod ?n" using ok by (simp add: ring_ok_def)
    ultimately show ?thesis by simp
  qed
  have cn: "?c \<le> ?n" using ok by (simp add: ring_ok_def)
  have free': "free_slot (ring_slot ?q' j)" if "j < ?n" "?c - 1 \<le> j" for j
    using slot [OF that(1)] that ok by (simp add: ring_ok_def)
  have live': "ring_slot ?q' j = ring_slot q (Suc j)" if "j < ?c - 1" for j
  proof -
    have "j < ?n" "Suc j \<noteq> ?n" using that cn by linarith+
    with slot [of j] show ?thesis by presburger
  qed
  have "chain_ok (ring_slot ?q' j)" if "j < ?c - 1" for j
    using live' [OF that] that ok by (simp add: ring_ok_def)
  with free' have ok': "ring_ok ?q'"
    unfolding ring_ok_def using ok ne wr cn ring_next_mod [OF r] n by (simp add: ring_ok_def)
  have "ring_contents q = ring_slot q 0 # ring_contents ?q'"
    unfolding ring_contents_Cons [OF ne] using live' by (simp add: ring_contents_def)
  then show thesis by (rule that [OF e(1) ok' _ _ e(2)]) simp_all
qed

interpretation ring: bounded_queue db_pipeline_enqueue db_pipeline_dequeue db_pipeline_peek
  ring_contents ring_ok chain_ok plq_size
proof (unfold_locales, goal_cases)
  case (1 q a)
  then have "plq_count q < plq_size q" by (simp add: ring_contents_def)
  from enqueue_room [OF 1(1,2) this] show ?case by metis
next
  case (2 q a)
  then show ?case by (intro enqueue_full) (simp_all add: ring_contents_def)
next
  case (3 q)
  then show ?case using dequeue_empty [of q] by (simp add: ring_contents_def)
next
  case (4 q a as)
  have "0 < plq_count q" using 4(2) by (cases "plq_count q") (simp_all add: ring_contents_def)
  from dequeue_cons [OF 4(1) this] 4(2) show ?case by (metis list.inject)
next
  case (5 q)
  show ?case
  proof (cases "plq_count q = 0")
    case True
    then show ?thesis using dequeue_empty [OF 5] by (simp add: ring_contents_def)
  next
    case False
    then have "0 < plq_count q" by simp
    from dequeue_cons [OF 5 this] show ?thesis by (metis list.simps(5))
  qed
next
  case (6 q)
  then show ?case by (simp add: ring_contents_def ring_ok_def)
qed

lemma ring_ok_init: "0 < n \<Longrightarrow> ring_ok (db_init_queue n)"
  by (simp add: ring_ok_def db_init_queue_def ring_slot_def)

lemma ring_contents_init [simp]: "ring_contents (db_init_queue n) = []"
  by (simp add: ring_contents_def db_init_queue_def)

lemma plq_size_init [simp]: "plq_size (db_init_queue n) = n"
  by (simp add: db_init_queue_def)

lemma plq_count_init [simp]: "plq_count (db_init_queue n) = 0"
  by (simp add: db_init_queue_def)

text \<open>
  C22. For chains whose head has a client and a callback, the ring of a worker is a bounded
  first-in first-out queue: any sequence of insertions of such chains and of removals on a fresh
  ring of \<open>n\<close> slots takes out the same chains in the same order, and holds the same chains at the
  end, as a list that refuses insertions beyond \<open>n\<close> elements. It is not one for chains without a
  client, such as those of broadcasts: a ring full of them is not seen to be full, and the next
  insertion overwrites the oldest (\<open>clientless_chain_overwritten\<close>).
\<close>

theorem pipeline_ring_is_fifo:
  assumes "0 < n" and "\<forall>ch\<in>set (enq_elems ops). chain_ok ch"
  shows "(let (q, out) = fold (queue_step db_pipeline_enqueue db_pipeline_dequeue) ops (db_init_queue n, [])
          in (ring_contents q, out)) = fold (list_step n) ops ([], [])"
  using ring.run_simulates(2) [OF ring_ok_init [OF assms(1)] assms(2), of "[]"]
  by (simp add: case_prod_beta)

definition demo_cmd :: "nat option \<Rightarrow> nat \<Rightarrow> (nat, nat, nat) dbcmd" where
  "demo_cmd c k = cmd_zero\<lparr>cmd_client := c, cmd_exec := Some k, cmd_exec_res := Some k\<rparr>"

lemma pipeline_ring_is_fifo_witness:
  "(let (q, out) = fold (queue_step db_pipeline_enqueue db_pipeline_dequeue)
        [Queue_enq (demo_cmd (Some 7) 1, []), Queue_enq (demo_cmd (Some 8) 2, []),
         Queue_enq (demo_cmd (Some 9) 3, []), Queue_deq] (db_init_queue 2, [])
    in (ring_contents q, out)) = ([(demo_cmd (Some 8) 2, [])], [(demo_cmd (Some 7) 1, [])])"
  by (subst pipeline_ring_is_fifo) (simp_all add: chain_ok_def demo_cmd_def list_step_def)

subsection \<open>The chain of an event\<close>

definition attributed :: "nat \<Rightarrow> ('e, 'r, 'd) dbcmd \<Rightarrow> ('e, 'r, 'd) dbcmd" where
  "attributed c cmd = (if cmd_client cmd = None then cmd\<lparr>cmd_client := Some c\<rparr> else cmd)"

lemma enqueue_current_fold:
  "ctx_client db = Some c \<Longrightarrow>
   fold (\<lambda>cmd db. db_pipeline_enqueue_current db cmd) cmds db =
     db\<lparr>ctx_chain := ctx_chain db @ map (attributed c) cmds\<rparr>"
  by (induction cmds arbitrary: db) (simp_all add: db_pipeline_enqueue_current_def attributed_def)

lemma attributed_client: "cmd_client (attributed c cmd) \<noteq> None"
  by (simp add: attributed_def)

lemma current_done_cases:
  assumes "ring_ok (db_queue db)" "ctx_chain db = head # rest" "chain_ok (head, rest)"
  shows "ring_ok (db_queue (db_pipeline_current_done db))"
    "ring_contents (db_queue (db_pipeline_current_done db)) =
       (if plq_count (db_queue db) < plq_size (db_queue db)
        then ring_contents (db_queue db) @ [(head, rest)] else ring_contents (db_queue db))"
    "ctx_chain (db_pipeline_current_done db) = []" "ctx_client (db_pipeline_current_done db) = None"
proof -
  note d = db_pipeline_current_done_def db_pipeline_reset_current_def
  let ?q = "db_queue db"
  have "ring_ok (db_queue (db_pipeline_current_done db)) \<and>
    ring_contents (db_queue (db_pipeline_current_done db)) =
       (if plq_count ?q < plq_size ?q then ring_contents ?q @ [(head, rest)] else ring_contents ?q)"
  proof (cases "plq_count ?q < plq_size ?q")
    case True
    then obtain q' where "db_pipeline_enqueue ?q (head, rest) = (q', True)" "ring_ok q'"
      "ring_contents q' = ring_contents ?q @ [(head, rest)]"
      using enqueue_room [OF assms(1,3)] by blast
    with True assms(2) show ?thesis by (simp add: d)
  next
    case False
    then have "plq_count ?q = plq_size ?q" using assms(1) by (simp add: ring_ok_def)
    from enqueue_full [OF assms(1) this] assms(1,2) False show ?thesis by (simp add: d)
  qed
  then show "ring_ok (db_queue (db_pipeline_current_done db))"
    "ring_contents (db_queue (db_pipeline_current_done db)) =
       (if plq_count ?q < plq_size ?q then ring_contents ?q @ [(head, rest)] else ring_contents ?q)"
    by blast+
  show "ctx_chain (db_pipeline_current_done db) = []" "ctx_client (db_pipeline_current_done db) = None"
    using assms(2) by (simp_all add: d)
qed

text \<open>
  C23. The commands that an event issues for a client reach the ring as one chain, in the order they
  were issued and with the client filled in where the caller left it open. When the ring is full
  the whole chain is lost: \<^verbatim>\<open>db_pipeline_current_done\<close> ignores that the insertion failed.
\<close>

theorem event_chain_enqueued:
  assumes "ring_ok (db_queue db)" and "cmd_exec head \<noteq> None"
  shows "let db' = db_pipeline_current_done
                     (fold (\<lambda>cmd db. db_pipeline_enqueue_current db cmd) (head # rest)
                       (db_pipeline_set_ctx (db_pipeline_reset_current db) (Some c)))
         in ring_ok (db_queue db') \<and> ctx_chain db' = [] \<and>
            ring_contents (db_queue db') =
              (if plq_count (db_queue db) < plq_size (db_queue db)
               then ring_contents (db_queue db) @ [(attributed c head, map (attributed c) rest)]
               else ring_contents (db_queue db))"
proof -
  let ?db = "db_pipeline_set_ctx (db_pipeline_reset_current db) (Some c)"
  let ?db1 = "fold (\<lambda>cmd db. db_pipeline_enqueue_current db cmd) (head # rest) ?db"
  have s: "ctx_client ?db = Some c" "ctx_chain ?db = []" "db_queue ?db = db_queue db"
    by (simp_all add: db_pipeline_set_ctx_def db_pipeline_reset_current_def)
  have f: "?db1 = ?db\<lparr>ctx_chain := attributed c head # map (attributed c) rest\<rparr>"
    using enqueue_current_fold [OF s(1), of "head # rest"] s(2) by simp
  have ok: "chain_ok (attributed c head, map (attributed c) rest)"
    using assms(2) attributed_client [of c head] by (simp add: chain_ok_def attributed_def)
  have "ring_ok (db_queue ?db1)" "ctx_chain ?db1 = attributed c head # map (attributed c) rest"
    "db_queue ?db1 = db_queue db"
    using f s(3) assms(1) by simp_all
  from current_done_cases [OF this(1,2) ok] this(3) show ?thesis by (simp only: Let_def)
qed

definition demo_db :: "(nat, nat, nat) server_db" where
  "demo_db = \<lparr>db_queue = db_init_queue 1, ctx_client = None, ctx_chain = [], pq_sent = [],
     pq_send = (\<lambda>_. 1)\<rparr>"

lemma demo_db_queue: "db_queue demo_db = db_init_queue 1"
  by (simp add: demo_db_def)

lemma event_chain_enqueued_witness:
  "ring_contents (db_queue (db_pipeline_current_done
     (fold (\<lambda>cmd db. db_pipeline_enqueue_current db cmd) [demo_cmd None 1, demo_cmd None 2]
       (db_pipeline_set_ctx (db_pipeline_reset_current demo_db) (Some 5))))) =
   [(attributed 5 (demo_cmd None 1), [attributed 5 (demo_cmd None 2)])]"
proof -
  have "ring_ok (db_queue demo_db)" "cmd_exec (demo_cmd None 1) \<noteq> None"
    using ring_ok_init [of 1] by (simp_all add: demo_db_def demo_cmd_def)
  from event_chain_enqueued [OF this, of "[demo_cmd None 2]" 5]
  show ?thesis by (simp add: Let_def demo_db_queue del: One_nat_def)
qed

subsection \<open>Chains without a client\<close>

lemma clientless_fill:
  assumes "length xs \<le> n" and "\<forall>x\<in>set xs. cmd_client (fst x) = None"
  defines "q \<equiv> fold (\<lambda>ch q. fst (db_pipeline_enqueue q ch)) xs (db_init_queue n)"
  shows "plq_slots q = xs @ replicate (n - length xs) (cmd_zero, []) \<and> plq_count q = length xs \<and>
    plq_size q = n \<and> plq_read q = 0 \<and>
    plq_write q = (if length xs = n then 0 else length xs)"
  using assms(1,2) unfolding q_def
proof (induction xs rule: rev_induct)
  case Nil
  then show ?case by (simp add: db_init_queue_def)
next
  case (snoc x xs)
  define p where "p = fold (\<lambda>ch q. fst (db_pipeline_enqueue q ch)) xs (db_init_queue n)"
  have l: "length xs < n" using snoc.prems(1) by simp
  then have p: "plq_slots p = xs @ replicate (n - length xs) (cmd_zero, [])" "plq_count p = length xs"
    "plq_size p = n" "plq_read p = 0" "plq_write p = length xs"
    using snoc.IH snoc.prems unfolding p_def by simp_all
  obtain k where k: "n - length xs = Suc k" using l by (cases "n - length xs") simp_all
  then have nk: "n - Suc (length xs) = k" by simp
  have "cmd_client (fst (plq_slots p ! plq_write p)) = None"
    using p k by (simp add: nth_append cmd_zero_def)
  then have "fst (db_pipeline_enqueue p x) =
      p\<lparr>plq_slots := (plq_slots p)[plq_write p := x],
        plq_write := ring_next (plq_size p) (plq_write p), plq_count := Suc (plq_count p)\<rparr>"
    by (simp add: db_pipeline_enqueue_def)
  then show ?case using p k nk l unfolding p_def [symmetric]
    by (auto simp: p_def [symmetric] ring_next_def)
qed

text \<open>
  The ring is not protected for chains whose head has no client: \<^verbatim>\<open>db_pipeline_enqueue\<close>
  asks whether the write slot has a client, so with \<open>n\<close> such chains waiting in a ring of \<open>n\<close>
  slots the next insertion succeeds, replaces the oldest waiting chain, and leaves a count of
  \<open>n + 1\<close>.
\<close>

theorem clientless_chain_overwritten:
  assumes "0 < n" and "length xs = n" and "\<forall>x\<in>set xs. cmd_client (fst x) = None"
  shows "\<exists>q'. db_pipeline_enqueue (fold (\<lambda>ch q. fst (db_pipeline_enqueue q ch)) xs (db_init_queue n)) y
               = (q', True) \<and> plq_slots q' = y # tl xs \<and> plq_read q' = 0 \<and> plq_count q' = Suc n"
proof -
  obtain x xs' where xs: "xs = x # xs'" using assms(1,2) by (cases xs) auto
  let ?q = "fold (\<lambda>ch q. fst (db_pipeline_enqueue q ch)) xs (db_init_queue n)"
  have q: "plq_slots ?q = xs" "plq_count ?q = n" "plq_read ?q = 0" "plq_write ?q = 0"
    using clientless_fill [of xs n] assms by simp_all
  then have "db_pipeline_enqueue ?q y =
     (?q\<lparr>plq_slots := y # xs', plq_write := ring_next (plq_size ?q) 0, plq_count := Suc n\<rparr>, True)"
    using assms(3) xs by (simp add: db_pipeline_enqueue_def)
  then show ?thesis using q xs by simp
qed

lemma clientless_chain_overwritten_witness:
  "\<exists>q'. db_pipeline_enqueue (fold (\<lambda>ch q. fst (db_pipeline_enqueue q ch))
          [(demo_cmd None 1, []), (demo_cmd None 2, [])] (db_init_queue 2)) (demo_cmd None 3, [])
        = (q', True) \<and> plq_slots q' = [(demo_cmd None 3, []), (demo_cmd None 2, [])] \<and>
        plq_read q' = 0 \<and> plq_count q' = 3"
  using clientless_chain_overwritten [of 2 "[(demo_cmd None 1, []), (demo_cmd None 2, [])]"
      "(demo_cmd None 3, [])"]
  by (simp add: demo_cmd_def)

subsection \<open>Results\<close>

lemma sync_skipped: "process_result cb (res, PGRES_PIPELINE_SYNC) x = x"
  by (simp add: process_result_def split: prod.splits)

lemma fold_sync_skipped:
  "fold (process_result cb) (filter (\<lambda>r. snd r \<noteq> PGRES_PIPELINE_SYNC) rs) x =
   fold (process_result cb) rs x"
  by (induction rs arbitrary: x) (auto simp: sync_skipped)

lemma busy_index_append:
  "\<lbrakk>\<forall>c\<in>set cs. cmd_ret c \<noteq> DB_ASYNC_BUSY; cmd_ret t = DB_ASYNC_BUSY\<rbrakk> \<Longrightarrow>
   busy_index (cs @ t # ts) = length cs"
proof (induction cs)
  case Nil
  then show ?case by (cases ts) simp_all
next
  case (Cons c cs)
  then show ?case by (cases "cs @ t # ts") simp_all
qed

text \<open>The specification: the \<open>k\<close>-th result is handled for the \<open>k\<close>-th command.\<close>

fun handle_results ::
  "('e, 'r, 'd, 'res, 's) db_callbacks \<Rightarrow> 's \<Rightarrow> ('res \<times> pg_status) list \<Rightarrow> ('e, 'r, 'd) dbcmd list \<Rightarrow>
    's \<times> ('e, 'r, 'd) dbcmd list" where
  "handle_results cb s ((res, st) # rs) (c # cs) =
     (let (s1, c1) = (case cmd_exec_res c of None \<Rightarrow> (null_res cb s, c) | Some r \<Rightarrow> run_res cb r s res st c);
          (s2, cs1) = handle_results cb s1 rs cs
      in (s2, c1 # cs1))"
| "handle_results cb s _ cs = (s, cs)"

text \<open>
  What the pipeline relies on: a result callback settles the command's \<^verbatim>\<open>ret\<close> and leaves its
  \<^verbatim>\<open>exec\<close> alone.
\<close>

definition settles :: "('e, 'r, 'd, 'res, 's) db_callbacks \<Rightarrow> ('e, 'r, 'd) dbcmd \<Rightarrow> bool" where
  "settles cb c \<longleftrightarrow>
     cmd_ret c = DB_ASYNC_BUSY \<and>
     (\<exists>r. cmd_exec_res c = Some r \<and>
        (\<forall>s res st. cmd_ret (snd (run_res cb r s res st c)) \<noteq> DB_ASYNC_BUSY \<and>
                    cmd_exec (snd (run_res cb r s res st c)) = cmd_exec c))"

definition dequeued :: "('e, 'r, 'd) plq \<Rightarrow> ('e, 'r, 'd) plq" where
  "dequeued q =
     q\<lparr>plq_slots := (plq_slots q)[plq_read q := (cmd_zero, [])],
       plq_read := ring_next (plq_size q) (plq_read q), plq_count := plq_count q - 1\<rparr>"

definition with_head :: "('e, 'r, 'd) plq \<Rightarrow> ('e, 'r, 'd) dbcmd list \<Rightarrow> ('e, 'r, 'd) plq" where
  "with_head q cs = q\<lparr>plq_slots := (plq_slots q)[plq_read q := (hd cs, tl cs)]\<rparr>"

lemma dequeued_with_head [simp]: "dequeued (with_head q cs) = dequeued q"
  by (simp add: dequeued_def with_head_def)

definition waiting :: "('e, 'r, 'd) plq \<Rightarrow> ('e, 'r, 'd) dbcmd list \<Rightarrow> bool" where
  "waiting q cs \<longleftrightarrow>
     cs \<noteq> [] \<and> plq_read q < length (plq_slots q) \<and> plq_slots q ! plq_read q = (hd cs, tl cs) \<and>
     cmd_exec (hd cs) \<noteq> None"

lemma waiting_peek: "waiting q cs \<Longrightarrow> db_pipeline_peek q = Some (hd cs, tl cs)"
  by (simp add: waiting_def db_pipeline_peek_def)

lemma waiting_dequeue: "waiting q cs \<Longrightarrow> db_pipeline_dequeue q = Some ((hd cs, tl cs), dequeued q)"
  by (simp add: waiting_def db_pipeline_dequeue_def dequeued_def)

lemma waiting_with_head:
  "\<lbrakk>waiting q cs; cs' \<noteq> []; cmd_exec (hd cs') \<noteq> None\<rbrakk> \<Longrightarrow> waiting (with_head q cs') cs'"
  by (simp add: waiting_def with_head_def)

lemma process_result_peek:
  assumes "st \<noteq> PGRES_PIPELINE_SYNC" "db_pipeline_peek (db_queue db) = Some chain"
    and "fst chain # snd chain = nodes" "busy_index nodes = k" "nodes ! k = t"
    and "cmd_exec_res t = Some r" "run_res cb r s res st t = (s1, t1)"
  shows "process_result cb (res, st) ((db, s), fr) =
    (if Suc k = length nodes then
       (case db_pipeline_dequeue (with_head (db_queue db) (nodes[k := t1])) of
          None \<Rightarrow> ((db\<lparr>db_queue := with_head (db_queue db) (nodes[k := t1])\<rparr>, s1), fr)
        | Some (ch, q2) \<Rightarrow>
            (let (ew, fr') = db_exec_cmd_chain cb (db\<lparr>db_queue := q2\<rparr>, s1) ch in (ew, fr @ fr')))
     else ((db\<lparr>db_queue := with_head (db_queue db) (nodes[k := t1])\<rparr>, s1), fr))"
  using assms by (simp add: process_result_def with_head_def Let_def split: option.split)

lemma process_result_step:
  assumes w: "waiting (db_queue db) (ds @ t # ts)"
    and ds: "\<forall>d\<in>set ds. cmd_ret d \<noteq> DB_ASYNC_BUSY"
    and t: "cmd_ret t = DB_ASYNC_BUSY" "cmd_exec_res t = Some r"
    and st: "st \<noteq> PGRES_PIPELINE_SYNC"
    and run: "run_res cb r s res st t = (s1, t1)"
    and e: "cmd_exec t1 = cmd_exec t"
  shows "process_result cb (res, st) ((db, s), fr) =
    (if ts = []
     then (let x = db_exec_cmd_chain cb (db\<lparr>db_queue := dequeued (db_queue db)\<rparr>, s1)
                     (hd (ds @ [t1]), tl (ds @ [t1])) in (fst x, fr @ snd x))
     else ((db\<lparr>db_queue := with_head (db_queue db) (ds @ t1 # ts)\<rparr>, s1), fr))"
    and "waiting (with_head (db_queue db) (ds @ t1 # ts)) (ds @ t1 # ts)"
proof -
  let ?n = "ds @ t # ts" and ?n1 = "ds @ t1 # ts" and ?q = "db_queue db"
  have hn: "hd ?n # tl ?n = ?n" by (cases ds) simp_all
  have k: "busy_index ?n = length ds" by (rule busy_index_append) (use ds t in auto)
  have "cmd_exec (hd ?n) \<noteq> None" using w by (simp add: waiting_def)
  then have "cmd_exec (hd ?n1) \<noteq> None" using e by (cases ds) simp_all
  with w show w1: "waiting (with_head ?q ?n1) ?n1" by (intro waiting_with_head [OF w]) simp_all
  have u: "?n[length ds := t1] = ?n1" and nth: "?n ! length ds = t" by simp_all
  have deq: "db_pipeline_dequeue (with_head ?q ?n1) = Some ((hd ?n1, tl ?n1), dequeued ?q)"
    using waiting_dequeue [OF w1] by simp
  have "fst (hd ?n, tl ?n) # snd (hd ?n, tl ?n) = ?n" using hn by simp
  note p = process_result_peek [OF st waiting_peek [OF w] this k nth t(2) run, of fr]
  show "process_result cb (res, st) ((db, s), fr) =
    (if ts = []
     then (let x = db_exec_cmd_chain cb (db\<lparr>db_queue := dequeued ?q\<rparr>, s1)
                     (hd (ds @ [t1]), tl (ds @ [t1])) in (fst x, fr @ snd x))
     else ((db\<lparr>db_queue := with_head ?q ?n1\<rparr>, s1), fr))"
    unfolding p u deq by (simp add: Let_def case_prod_beta)
qed

lemma process_chain:
  assumes "waiting (db_queue db) (ds @ ts)" "ts \<noteq> []"
    and "\<forall>d\<in>set ds. cmd_ret d \<noteq> DB_ASYNC_BUSY" "\<forall>t\<in>set ts. settles cb t"
    and "length rs = length ts" "\<forall>r\<in>set rs. snd r \<noteq> PGRES_PIPELINE_SYNC"
  shows "fold (process_result cb) rs ((db, s), fr) =
    (let h = handle_results cb s rs ts; cs = ds @ snd h;
         x = db_exec_cmd_chain cb (db\<lparr>db_queue := dequeued (db_queue db)\<rparr>, fst h) (hd cs, tl cs)
     in (fst x, fr @ snd x))"
  using assms
proof (induction ts arbitrary: ds rs db s)
  case Nil
  then show ?case by simp
next
  case (Cons t ts)
  obtain res st rs' where rs: "rs = (res, st) # rs'" using Cons.prems(5) by (cases rs) auto
  obtain r where r: "cmd_ret t = DB_ASYNC_BUSY" "cmd_exec_res t = Some r"
    "\<forall>s res st. cmd_ret (snd (run_res cb r s res st t)) \<noteq> DB_ASYNC_BUSY \<and>
                    cmd_exec (snd (run_res cb r s res st t)) = cmd_exec t"
    using Cons.prems(4) by (auto simp: settles_def)
  obtain s1 t1 where run: "run_res cb r s res st t = (s1, t1)" by fastforce
  have t1: "cmd_ret t1 \<noteq> DB_ASYNC_BUSY" "cmd_exec t1 = cmd_exec t"
    using r(3) [rule_format, of s res st] run by simp_all
  have nsync: "st \<noteq> PGRES_PIPELINE_SYNC" using Cons.prems(6) rs by simp
  note step = process_result_step [OF Cons.prems(1,3) r(1,2) nsync run t1(2)]
  have h: "handle_results cb s rs (t # ts) =
      (let h = handle_results cb s1 rs' ts in (fst h, t1 # snd h))"
    using rs r(2) run by (simp add: case_prod_beta Let_def)
  show ?case
  proof (cases "ts = []")
    case True
    then have "rs' = []" using Cons.prems(5) rs by simp
    then show ?thesis using True rs step(1) h by (simp add: Let_def)
  next
    case False
    have w: "waiting (db_queue (db\<lparr>db_queue := with_head (db_queue db) (ds @ t1 # ts)\<rparr>))
        ((ds @ [t1]) @ ts)" using step(2) by simp
    have "fold (process_result cb) rs' ((db\<lparr>db_queue := with_head (db_queue db) (ds @ t1 # ts)\<rparr>, s1), fr) =
      (let h = handle_results cb s1 rs' ts; cs = (ds @ [t1]) @ snd h;
         x = db_exec_cmd_chain cb (db\<lparr>db_queue := dequeued (db_queue db)\<rparr>, fst h) (hd cs, tl cs)
       in (fst x, fr @ snd x))"
      using Cons.IH [OF w False] Cons.prems(3,4,5,6) t1(1) rs by simp
    then show ?thesis using False rs step(1) h by (simp add: Let_def)
  qed
qed

text \<open>
  C24. The \<open>n\<close> query results of a chain of \<open>n\<close> commands at the head of the ring are handled one
  command after the other in the order the queries were sent, synchronisation points are skipped,
  and with the last of them the chain leaves the ring and is executed and freed exactly once,
  from the commands as their result callbacks left them.
\<close>

theorem chain_results_in_order:
  assumes "db_pipeline_dequeue (db_queue db) = Some (chain, q')"
    and "plq_read (db_queue db) < length (plq_slots (db_queue db))"
    and "\<forall>c\<in>set (fst chain # snd chain). settles cb c"
    and "length (filter (\<lambda>r. snd r \<noteq> PGRES_PIPELINE_SYNC) rs) = Suc (length (snd chain))"
  shows "db_process_results cb rs (db, s) =
    (let (s', cs) = handle_results cb s (filter (\<lambda>r. snd r \<noteq> PGRES_PIPELINE_SYNC) rs)
                      (fst chain # snd chain)
     in db_exec_cmd_chain cb (db\<lparr>db_queue := q'\<rparr>, s') (hd cs, tl cs))"
proof -
  let ?cs = "fst chain # snd chain" and ?rs = "filter (\<lambda>r. snd r \<noteq> PGRES_PIPELINE_SYNC) rs"
  have c: "chain = plq_slots (db_queue db) ! plq_read (db_queue db)" "cmd_exec (fst chain) \<noteq> None"
    "q' = dequeued (db_queue db)"
    using assms(1) by (auto simp: db_pipeline_dequeue_def dequeued_def split: if_splits)
  then have w: "waiting (db_queue db) ([] @ ?cs)" using assms(2) by (simp add: waiting_def)
  have "fold (process_result cb) rs ((db, s), []) = fold (process_result cb) ?rs ((db, s), [])"
    by (simp only: fold_sync_skipped)
  also have "\<dots> = (let h = handle_results cb s ?rs ?cs; cs = [] @ snd h;
         x = db_exec_cmd_chain cb (db\<lparr>db_queue := dequeued (db_queue db)\<rparr>, fst h) (hd cs, tl cs)
     in (fst x, [] @ snd x))"
    by (rule process_chain [OF w]) (use assms(3,4) in simp_all)
  finally show ?thesis using c(3) by (simp add: db_process_results_def Let_def case_prod_beta)
qed

definition demo_callbacks :: "(nat, nat, nat, string, string list) db_callbacks" where
  "demo_callbacks =
     \<lparr>run_res = (\<lambda>r s res st c. (s @ [res], c\<lparr>cmd_ret := DB_ASYNC_OK, cmd_data := Some r\<rparr>)),
      run_exec = (\<lambda>e db s ch. (db, s @ [''exec''], fst ch, None)),
      send_error = (\<lambda>s c msg. s @ [msg]), null_res = (\<lambda>s. s)\<rparr>"

definition demo_waiting :: "(nat, nat, nat) server_db" where
  "demo_waiting =
     demo_db\<lparr>db_queue := fst (db_pipeline_enqueue (db_init_queue 2)
        (demo_cmd (Some 5) 1, [demo_cmd (Some 5) 2]))\<rparr>"

lemma chain_results_in_order_witness:
  "snd (fst (db_process_results demo_callbacks
        [(''a'', PGRES_TUPLES_OK), (''-'', PGRES_PIPELINE_SYNC), (''b'', PGRES_COMMAND_OK)]
        (demo_waiting, []))) = [''a'', ''b'', ''exec'', ''exec'']"
  by (subst chain_results_in_order [where chain = "(demo_cmd (Some 5) 1, [demo_cmd (Some 5) 2])"
        and q' = "(db_init_queue 2)\<lparr>plq_read := 1, plq_write := 1\<rparr>"])
    (simp_all add: demo_waiting_def demo_db_def demo_cmd_def db_pipeline_enqueue_def db_init_queue_def
      db_pipeline_dequeue_def ring_next_def cmd_zero_def settles_def demo_callbacks_def db_consts
      db_exec_cmd_chain_def db_exec_cmd_def numeral_2_eq_2)

end
