(* ===== verification/Server_State.thy ===== *)
theory Server_State
  imports Server_Ht Server_Websocket Db_Pipeline
begin

text \<open>
  The state that the components of the server share (\<^verbatim>\<open>server_t\<close> of
  \<^verbatim>\<open>server/include/server.h\<close> and one event worker of \<^verbatim>\<open>server/include/server_eworker.h\<close>):
  the hash tables, the database connection of the worker, and an explicit store for the objects
  that tables, timers, events and pending commands point to.

  An address is a natural number that is never used twice. The store of a kind of object is a
  partial map from addresses; \<^verbatim>\<open>free\<close> removes the address, so that a dangling pointer is an
  address outside the map and reading or freeing it is a fault. A computation returns a fault or
  its result with the next state. The results of system calls are parameters: \<open>os\<close> numbers
  the calls and each function of \<open>chat_env\<close> gives the result of the \<open>k\<close>-th one.
\<close>

section \<open>Faults\<close>

datatype fault = Use_after_free | Null_dereference | Out_of_bounds | Uninitialised | Out_of_fuel

type_synonym 'a res = "fault + 'a"

definition bindR :: "'a res \<Rightarrow> ('a \<Rightarrow> 'b res) \<Rightarrow> 'b res" where
  "bindR r f = (case r of Inl e \<Rightarrow> Inl e | Inr x \<Rightarrow> f x)"

lemma bindR_simps [simp]: "bindR (Inl e) f = Inl e" "bindR (Inr x) f = f x"
  by (simp_all add: bindR_def)

lemma bindR_cong [fundef_cong]:
  "r = r' \<Longrightarrow> (\<And>x. r' = Inr x \<Longrightarrow> f x = f' x) \<Longrightarrow> bindR r f = bindR r' f'"
  by (simp add: bindR_def split: sum.split)

lemma bindR_Inr: "bindR r f = Inr y \<longleftrightarrow> (\<exists>x. r = Inr x \<and> f x = Inr y)"
  by (simp add: bindR_def split: sum.split)

definition deref :: "(nat \<rightharpoonup> 'a) \<Rightarrow> nat \<Rightarrow> 'a res" where
  "deref m a = (case m a of None \<Rightarrow> Inl Use_after_free | Some x \<Rightarrow> Inr x)"

lemma deref_simps [simp]:
  "m a = Some x \<Longrightarrow> deref m a = Inr x" "m a = None \<Longrightarrow> deref m a = Inl Use_after_free"
  by (simp_all add: deref_def)

definition the_ptr :: "nat option \<Rightarrow> nat res" where
  "the_ptr p = (case p of None \<Rightarrow> Inl Null_dereference | Some a \<Rightarrow> Inr a)"

lemma the_ptr_simps [simp]: "the_ptr (Some a) = Inr a" "the_ptr None = Inl Null_dereference"
  by (simp_all add: the_ptr_def)

section \<open>JSON\<close>

text \<open>
  A JSON value as json-c holds it. An object is the list of its members in order;
  \<^verbatim>\<open>json_object_object_add\<close> replaces the value of a member it already has.
\<close>

datatype json = JNull | JBool bool | JInt int | JDouble | JString string | JArray "json list"
  | JObject "(string \<times> json) list"

datatype json_type = json_type_null | json_type_boolean | json_type_int | json_type_double
  | json_type_string | json_type_array | json_type_object

fun json_type_of :: "json \<Rightarrow> json_type" where
  "json_type_of JNull = json_type_null"
| "json_type_of (JBool b) = json_type_boolean"
| "json_type_of (JInt i) = json_type_int"
| "json_type_of JDouble = json_type_double"
| "json_type_of (JString s) = json_type_string"
| "json_type_of (JArray xs) = json_type_array"
| "json_type_of (JObject ms) = json_type_object"

text \<open>A JSON \<^verbatim>\<open>null\<close> is a NULL pointer in json-c, hence \<open>None\<close> and not \<open>JNull\<close> when it is read.\<close>

fun json_object_object_get :: "json \<Rightarrow> string \<Rightarrow> json option" where
  "json_object_object_get (JObject ms) key =
     (case map_of ms key of None \<Rightarrow> None | Some JNull \<Rightarrow> None | Some v \<Rightarrow> Some v)"
| "json_object_object_get _ key = None"

fun json_object_object_add :: "json \<Rightarrow> string \<Rightarrow> json \<Rightarrow> json" where
  "json_object_object_add (JObject ms) key v =
     JObject (if key \<in> fst ` set ms then map (\<lambda>(k, w). if k = key then (k, v) else (k, w)) ms
              else ms @ [(key, v)])"
| "json_object_object_add j key v = j"

definition json_bad :: "json option \<Rightarrow> json_type \<Rightarrow> bool" where
  "json_bad j t = (case j of None \<Rightarrow> True | Some v \<Rightarrow> json_type_of v \<noteq> t)"

text \<open>The C string of a JSON string ends at its first NUL.\<close>

fun json_object_get_string :: "json \<Rightarrow> string" where
  "json_object_get_string (JString s) = cstr s 0"
| "json_object_get_string _ = []"

fun json_object_get_boolean :: "json \<Rightarrow> bool" where
  "json_object_get_boolean (JBool b) = b"
| "json_object_get_boolean (JInt i) = (i \<noteq> 0)"
| "json_object_get_boolean _ = False"

section \<open>Objects\<close>

datatype rtusm_status = USER_OFFLINE | USER_ONLINE | USER_AWAY | USER_DND

record rtusm =
  rstatus :: rtusm_status
  force_status :: bool
  typing :: bool
  typing_group_id :: u32

record rtusm_new =
  new_status :: bool
  new_typing :: bool
  new_pfp :: bool

text \<open>The character arrays of a user keep their NULs; \<open>username\<close> has 50 of them, and so on.\<close>

record db_user =
  user_id :: u32
  username :: string
  displayname :: string
  bio :: string
  uhash :: "u8 list"
  usalt :: "u8 list"
  created_at :: string
  pfp_hash :: string
  uflags :: int
  urtusm :: rtusm

record user_session =
  session_id :: u32
  ses_user_id :: u32
  ses_timerfd :: int

record db_msg =
  msg_id :: u32
  msg_user_id :: u32
  msg_group_id :: u32
  msg_content :: string
  msg_timestamp :: string
  msg_attachments :: "string option"
  attachments_inheap :: bool
  attachments_json :: "json option"
  msg_flags :: int
  parent_msg_id :: int

record tmp_msg =
  tmsg :: db_msg
  tmsg_token :: u32
  tmsg_total :: u32
  tmsg_current :: u32

datatype upload_token_type = UT_USER_PFP | UT_MSG_ATTACHMENT

text \<open>The union of an upload token; both variants of a zeroed token are zero.\<close>

datatype ut_union = Ut_user_id u32 | Ut_msg_state tmp_msg

record upload_token =
  ut_type :: upload_token_type
  ut_token :: u32
  ut_union :: ut_union
  ut_timerfd :: int
  ut_timer_seconds :: int

datatype timer_type = TIMER_CLIENT_SESSION | TIMER_UPLOAD_TOKEN

record server_timer =
  timer_fd :: int
  timer_seconds :: int
  timer_flags :: u32
  timer_exp :: u64
  ttype :: timer_type
  timer_data :: "nat option"

text \<open>The callbacks of an event; what each does is its handler below.\<close>

datatype se_read_callback = se_accept_conn_cb | se_read_client_cb | se_timer_read_cb | eventfd_dummy_read_cb
datatype se_close_callback = se_close_client_cb | se_timer_close_cb
datatype se_status = SE_OK | SE_CLOSE | SE_ERROR

record server_event =
  ev_fd :: int
  ev_err :: int
  ep_events :: u32
  listen_events :: u32
  ev_data :: "nat option"
  keep_data :: bool
  ev_read :: se_read_callback
  ev_close :: "se_close_callback option"

text \<open>
  A chat command: the key of \<^verbatim>\<open>cmd.h\<close>'s \<^verbatim>\<open>server_chatcmd_t\<close>, its name array, the
  callback and the permission bits.
\<close>

datatype chat_callback =
  server_client_user_info_cb | server_client_groups_cb | server_get_group_member_ids_cb
  | server_group_create_cb | server_get_user_cb | server_get_all_groups_cb | server_join_group_cb
  | server_group_msg_cb | server_get_group_msgs_cb | server_user_edit_account_cb
  | server_create_group_code_cb | server_join_group_code_cb | server_get_group_codes_cb
  | server_delete_group_code_cb | server_delete_group_msg_cb | server_delete_group_cb
  | server_client_register_cb | server_client_login_cb | server_client_login_session_cb

record server_chatcmd =
  chat_hash :: u64
  chat_cmd :: string
  chat_callback :: chat_callback
  chat_perms :: u16

section \<open>Database commands\<close>

text \<open>
  The callbacks of pending database commands, and what \<^verbatim>\<open>data\<close> and the union
  \<^verbatim>\<open>param\<close> of a command hold.
\<close>

datatype db_exec = do_client_login_cb | do_client_login_session_cb | do_client_register_cb
  | do_rtusm_broadcast_cb | do_get_users_cb
  | do_group_broadcast_cb | do_client_groups_cb | get_all_groups_result_cb | join_group_result_cb
  | do_group_msg_cb | do_get_group_msgs_cb | create_group_code_result_cb | join_group_code_result_cb
  | get_group_codes_result_cb | delete_group_code_result_cb | delete_msg_result_cb
  | delete_group_result_cb | get_group_owner_cb | do_get_group_member_ids_cb
  | do_save_file_img_cb | do_delete_file_cb | update_pfp_result_cb | do_insert_msg_after_cb

datatype db_exec_res = begin_result_cb | db_get_user_result_cb | db_insert_user_result_cb
  | db_get_user_json_result_cb | get_connected_users_result_cb | update_user_result_cb
  | db_get_groups_result_cb | db_get_group_member_ids_result_cb | db_get_group_msgs_result_cb
  | insert_group_msg_result_cb | db_delete_msg_result_cb | get_public_groups_result_cb
  | join_pub_group_result_cb | create_group_result_cb | db_create_group_code_result_cb
  | db_get_group_codes_result_cb | user_join_group_code_result_cb | db_delete_group_code_result_cb
  | del_group_result_cb | get_all_attachs_result_cb | get_group_owner_result_cb
  | insert_userfiles_result_cb | delete_userfile_result_cb | userfile_refcount_result_cb

record db_group =
  grp_id :: u32
  grp_owner_id :: u32
  grp_displayname :: string
  grp_desc :: string
  grp_public :: bool
  grp_created_at :: string

record db_group_code =
  invite_code :: string
  code_group_id :: u32
  code_uses :: int
  code_max_uses :: int

record db_user_file =
  file_hash :: string
  file_name :: string
  file_mime_type :: string
  file_size :: nat

text \<open>
  \<open>Data_token_msg\<close> points at the message inside an upload token; the strings of a parameter
  point into the result of the query.
\<close>

datatype db_data = Data_user nat | Data_ids "u32 list" | Data_groups "db_group list"
  | Data_code db_group_code | Data_msg db_msg | Data_token_msg nat | Data_file db_user_file
  | Data_attachs "json option list"
  | Param_login string bool | Param_session nat | Param_rtusm u32 rtusm_new rtusm "string option"
  | Param_str "string option" | Param_json json | Param_group_id u32
  | Param_member_ids u32 "string option" | Param_group_msgs u32 "string option"
  | Param_group_codes u32 "string option" | Param_del_msg u32 u32 "string option"
  | Param_group_owner u32 u32 u32 | Param_user nat | Param_token nat

type_synonym chat_db = "(db_exec, db_exec_res, db_data) server_db"
type_synonym chat_dbcmd = "(db_exec, db_exec_res, db_data) dbcmd"

section \<open>The server\<close>

record chat_server =
  clients :: "nat \<rightharpoonup> client"
  users :: "nat \<rightharpoonup> db_user"
  sessions :: "nat \<rightharpoonup> user_session"
  tokens :: "nat \<rightharpoonup> upload_token"
  timers :: "nat \<rightharpoonup> server_timer"
  events :: "nat \<rightharpoonup> server_event"
  next_addr :: nat
  event_ht :: "nat server_ght"
  client_ht :: "nat server_ght"
  user_ht :: "nat server_ght"
  session_ht :: "nat server_ght"
  upload_token_ht :: "nat server_ght"
  chat_cmd_ht :: "server_chatcmd server_ght"
  running :: bool
  epoll :: "int \<rightharpoonup> nat"
  closed :: "int list"
  os_calls :: nat
  files :: "string \<rightharpoonup> string"
  ew_db :: chat_db

record chat_env =
  json_print :: "json \<Rightarrow> string"
  json_parse :: "string \<Rightarrow> json option"
  json_get_uint64 :: "json \<Rightarrow> u64"
  json_get_int :: "json \<Rightarrow> int"
  sha512 :: "string \<Rightarrow> u8 list \<Rightarrow> u8 list"
  os_random :: "nat \<Rightarrow> u32"
  os_salt :: "nat \<Rightarrow> u8 list"
  os_timerfd_create :: "nat \<Rightarrow> int"
  os_timerfd_settime :: "nat \<Rightarrow> int"
  os_timer_read :: "nat \<Rightarrow> u64 option"
  os_epoll_add :: "nat \<Rightarrow> int"
  os_accept :: "nat \<Rightarrow> int"
  os_ssl_new :: "nat \<Rightarrow> bool"
  os_ssl_accept :: "nat \<Rightarrow> int"
  os_ssl_write :: "nat \<Rightarrow> nat \<Rightarrow> int"
  os_file :: "nat \<Rightarrow> bool"
  os_errno :: "nat \<Rightarrow> bool"
  mime_of :: "string \<Rightarrow> string option"
  sha256_hex :: "string \<Rightarrow> string"
  img_dir :: string
  vid_dir :: string
  file_dir :: string

text \<open>
  \<^verbatim>\<open>json_object_get_string\<close> of a NULL pointer is NULL, of a value that is not a string its
  JSON text.
\<close>

definition json_cstring :: "chat_env \<Rightarrow> json option \<Rightarrow> string option" where
  "json_cstring env j =
     (case j of
        None \<Rightarrow> None
      | Some (JString s) \<Rightarrow> Some (json_object_get_string (JString s))
      | Some v \<Rightarrow> Some (json_print env v))"

definition os_call :: "(nat \<Rightarrow> 'a) \<Rightarrow> chat_server \<Rightarrow> chat_server \<times> 'a" where
  "os_call f s = (s\<lparr>os_calls := Suc (os_calls s)\<rparr>, f (os_calls s))"

definition close_fd :: "int \<Rightarrow> chat_server \<Rightarrow> chat_server" where
  "close_fd fd s = s\<lparr>closed := closed s @ [fd], epoll := (epoll s)(fd := None)\<rparr>"

text \<open>File descriptors are table keys: a 32-bit integer sign-extended to 64 bits.\<close>

definition fd_key :: "int \<Rightarrow> u64" where
  "fd_key fd = word_of_int fd"

definition id_key :: "u32 \<Rightarrow> u64" where
  "id_key i = ucast i"

definition put_client :: "nat \<Rightarrow> client \<Rightarrow> chat_server \<Rightarrow> chat_server" where
  "put_client a c s = s\<lparr>clients := (clients s)(a \<mapsto> c)\<rparr>"

definition put_session :: "nat \<Rightarrow> user_session \<Rightarrow> chat_server \<Rightarrow> chat_server" where
  "put_session a x s = s\<lparr>sessions := (sessions s)(a \<mapsto> x)\<rparr>"

definition put_user :: "nat \<Rightarrow> db_user \<Rightarrow> chat_server \<Rightarrow> chat_server" where
  "put_user a u s = s\<lparr>users := (users s)(a \<mapsto> u)\<rparr>"

definition put_token :: "nat \<Rightarrow> upload_token \<Rightarrow> chat_server \<Rightarrow> chat_server" where
  "put_token a t s = s\<lparr>tokens := (tokens s)(a \<mapsto> t)\<rparr>"

definition put_timer :: "nat \<Rightarrow> server_timer \<Rightarrow> chat_server \<Rightarrow> chat_server" where
  "put_timer a t s = s\<lparr>timers := (timers s)(a \<mapsto> t)\<rparr>"

definition put_event :: "nat \<Rightarrow> server_event \<Rightarrow> chat_server \<Rightarrow> chat_server" where
  "put_event a e s = s\<lparr>events := (events s)(a \<mapsto> e)\<rparr>"

lemmas put_defs = put_client_def put_session_def put_user_def put_token_def put_timer_def put_event_def

definition set_db :: "chat_db \<Rightarrow> chat_server \<Rightarrow> chat_server" where
  "set_db db s = s\<lparr>ew_db := db\<rparr>"

section \<open>Messages to clients\<close>

definition ws_json_send :: "chat_env \<Rightarrow> chat_server \<Rightarrow> nat \<Rightarrow> json \<Rightarrow> (chat_server \<times> int) res" where
  "ws_json_send env s a j =
     bindR (deref (clients s) a) (\<lambda>c.
       (let (c', n) = ws_send c (map of_char (json_print env j)) in Inr (put_client a c' s, n)))"

definition server_get_client_fd :: "chat_server \<Rightarrow> int \<Rightarrow> nat option" where
  "server_get_client_fd s fd = server_ght_get (client_ht s) (fd_key fd)"

definition server_get_client_user_id :: "chat_server \<Rightarrow> u64 \<Rightarrow> nat option" where
  "server_get_client_user_id s i = server_ght_get (user_ht s) i"

definition server_get_event :: "chat_server \<Rightarrow> int \<Rightarrow> nat option" where
  "server_get_event s fd = server_ght_get (event_ht s) (fd_key fd)"

section \<open>Sending\<close>

lemma ws_send_facts:
  "dbuser (fst (ws_send c b)) = dbuser c" "session (fst (ws_send c b)) = session c"
  "cstate (fst (ws_send c b)) = cstate c" "sock (fst (ws_send c b)) = sock c"
  "recv (fst (ws_send c b)) = recv c"
  "snd (ws_send c b) = -1 \<Longrightarrow> cerr (fst (ws_send c b)) = CLIENT_ERR_SSL"
  by (auto simp: ws_send_def ws_send_adv_def server_send_def Let_def server_set_client_err_def
      split: if_splits)

text \<open>Sending changes only the connection of the client, and a failed one marks it.\<close>

lemma ws_json_send_ok:
  assumes "clients s a = Some c"
  obtains c' n where "ws_json_send env s a j = Inr (put_client a c' s, n)"
    "dbuser c' = dbuser c" "session c' = session c" "cstate c' = cstate c" "sock c' = sock c"
    "n = -1 \<longrightarrow> cerr c' = CLIENT_ERR_SSL"
proof -
  let ?r = "ws_send c (map of_char (json_print env j))"
  have "ws_json_send env s a j = Inr (put_client a (fst ?r) s, snd ?r)"
    using assms by (simp add: ws_json_send_def case_prod_beta Let_def)
  from that [OF this] show thesis using ws_send_facts by metis
qed

lemma put_client_sel [simp]:
  "clients (put_client a c s) = (clients s)(a \<mapsto> c)" "users (put_client a c s) = users s"
  "sessions (put_client a c s) = sessions s" "user_ht (put_client a c s) = user_ht s"
  "events (put_client a c s) = events s" "timers (put_client a c s) = timers s"
  "tokens (put_client a c s) = tokens s" "running (put_client a c s) = running s"
  "event_ht (put_client a c s) = event_ht s" "session_ht (put_client a c s) = session_ht s"
  "client_ht (put_client a c s) = client_ht s" "ew_db (put_client a c s) = ew_db s"
  "upload_token_ht (put_client a c s) = upload_token_ht s"
  by (simp_all add: put_client_def)

end
