(* ===== verification/Db_User.thy ===== *)
theory Db_User
  imports Server_State
begin

text \<open>
  The user queries of \<^verbatim>\<open>server/src/chat/db_user.c\<close>: what each sends down the pipeline and
  what its result callback makes of the rows. A result is the list of its rows, a row the list of
  the texts of its columns. The SQL texts that are loaded from files are named by their file.
\<close>

section \<open>Constants and the zeroed user\<close>

definition DB_USERNAME_MAX :: nat where "DB_USERNAME_MAX = 50"
definition DB_DISPLAYNAME_MAX :: nat where "DB_DISPLAYNAME_MAX = 50"
definition DB_PASSWORD_MAX :: nat where "DB_PASSWORD_MAX = 50"
definition DB_BIO_MAX :: nat where "DB_BIO_MAX = 256"
definition DB_TIMESTAMP_MAX :: nat where "DB_TIMESTAMP_MAX = 64"
definition DB_PFP_HASH_MAX :: nat where "DB_PFP_HASH_MAX = 65"
definition DB_PFP_NAME_MAX :: nat where "DB_PFP_NAME_MAX = 255"
definition DB_DESC_MAX :: nat where "DB_DESC_MAX = 256"
definition DB_MESSAGE_MAX :: nat where "DB_MESSAGE_MAX = 4096"
definition DB_MIME_TYPE_LEN :: nat where "DB_MIME_TYPE_LEN = 32"
definition DB_GROUP_CODE_MAX :: nat where "DB_GROUP_CODE_MAX = 8"
definition SERVER_HASH_SIZE :: nat where "SERVER_HASH_SIZE = 64"
definition SERVER_SALT_SIZE :: nat where "SERVER_SALT_SIZE = 16"

lemmas db_maxs = DB_USERNAME_MAX_def DB_DISPLAYNAME_MAX_def DB_PASSWORD_MAX_def DB_BIO_MAX_def
  DB_TIMESTAMP_MAX_def DB_PFP_HASH_MAX_def DB_PFP_NAME_MAX_def SERVER_HASH_SIZE_def SERVER_SALT_SIZE_def

definition rtusm_zero :: rtusm where
  "rtusm_zero = \<lparr>rstatus = USER_OFFLINE, force_status = False, typing = False, typing_group_id = 0\<rparr>"

definition db_user_zero :: db_user where
  "db_user_zero =
     \<lparr>user_id = 0, username = replicate DB_USERNAME_MAX NUL,
      displayname = replicate DB_DISPLAYNAME_MAX NUL, bio = replicate DB_BIO_MAX NUL,
      uhash = replicate SERVER_HASH_SIZE 0, usalt = replicate SERVER_SALT_SIZE 0,
      created_at = replicate DB_TIMESTAMP_MAX NUL, pfp_hash = replicate DB_PFP_NAME_MAX NUL,
      uflags = 0, urtusm = rtusm_zero\<rparr>"

text \<open>
  An array that is full has no terminating NUL, so reading the user name goes on into the display
  name, that into the \<^verbatim>\<open>bio\<close>, and that into the hash and the salt of the password.
\<close>

definition bytes_text :: "u8 list \<Rightarrow> string" where
  "bytes_text bs = map (\<lambda>b. char_of (unat b)) bs"

definition bio_tail :: "db_user \<Rightarrow> string" where
  "bio_tail u = bio u @ bytes_text (uhash u) @ bytes_text (usalt u) @ created_at u @ pfp_hash u"

definition username_str :: "db_user \<Rightarrow> string" where
  "username_str u = cstr (username u @ displayname u @ bio_tail u) 0"

definition displayname_str :: "db_user \<Rightarrow> string" where
  "displayname_str u = cstr (displayname u @ bio_tail u) 0"

definition bio_str :: "db_user \<Rightarrow> string" where
  "bio_str u = cstr (bio_tail u) 0"

definition created_at_str :: "db_user \<Rightarrow> string" where
  "created_at_str u = cstr (created_at u @ pfp_hash u) 0"

section \<open>Rows\<close>

definition PQgetvalue :: "string list list \<Rightarrow> nat \<Rightarrow> nat \<Rightarrow> string option" where
  "PQgetvalue res row col =
     (if row < length res \<and> col < length (res ! row) then Some (res ! row ! col) else None)"

definition opt_field :: "string option \<Rightarrow> (string \<Rightarrow> 'a \<Rightarrow> 'a) \<Rightarrow> 'a \<Rightarrow> 'a" where
  "opt_field v f u = (case v of None \<Rightarrow> u | Some x \<Rightarrow> f x u)"

definition hex_field :: "string option \<Rightarrow> u8 list \<Rightarrow> u8 list res" where
  "hex_field v dst =
     (case v of
        None \<Rightarrow> Inl Null_dereference
      | Some x \<Rightarrow> Inr (memcpy_at dst 0 (hexstr_to_u8 (x @ [NUL]) (length x))))"

definition db_row_to_user :: "db_user \<Rightarrow> string list list \<Rightarrow> nat \<Rightarrow> db_user res" where
  "db_row_to_user user0 res row =
     (let u1 = opt_field (PQgetvalue res row 0) (\<lambda>x u. u\<lparr>user_id := ucast (strtoul 10 x)\<rparr>) user0;
          u2 = opt_field (PQgetvalue res row 1)
                 (\<lambda>x u. u\<lparr>username := strncpy (username u) x DB_USERNAME_MAX\<rparr>) u1;
          u3 = opt_field (PQgetvalue res row 2)
                 (\<lambda>x u. u\<lparr>displayname := strncpy (displayname u) x DB_DISPLAYNAME_MAX\<rparr>) u2;
          u4 = opt_field (PQgetvalue res row 3) (\<lambda>x u. u\<lparr>bio := strncpy (bio u) x DB_BIO_MAX\<rparr>) u3
      in bindR (hex_field (PQgetvalue res row 4) (uhash u4)) (\<lambda>h.
         bindR (hex_field (PQgetvalue res row 5) (usalt u4)) (\<lambda>sa.
           (let u5 = u4\<lparr>uhash := h, usalt := sa\<rparr>;
                u6 = opt_field (PQgetvalue res row 6) (\<lambda>x u. u\<lparr>uflags := sint (atoi x)\<rparr>) u5;
                u7 = opt_field (PQgetvalue res row 7)
                       (\<lambda>x u. u\<lparr>created_at := strncpy (created_at u) x DB_TIMESTAMP_MAX\<rparr>) u6;
                u8 = opt_field (PQgetvalue res row 8)
                       (\<lambda>x u. u\<lparr>pfp_hash := strncpy (pfp_hash u) x DB_PFP_HASH_MAX\<rparr>) u7
            in Inr u8))))"

section \<open>Result callbacks\<close>

definition db_get_user_result ::
  "chat_server \<Rightarrow> string list list \<Rightarrow> pg_status \<Rightarrow> chat_dbcmd \<Rightarrow> (chat_server \<times> chat_dbcmd) res" where
  "db_get_user_result s res status ctx0 =
     (let ctx = ctx0\<lparr>cmd_ret := DB_ASYNC_ERROR\<rparr>
      in if status = PGRES_TUPLES_OK then
           (if length res = 0 then Inr (s, ctx)
            else bindR (db_row_to_user db_user_zero res 0) (\<lambda>user.
                   Inr ((put_user (next_addr s) user s)\<lparr>next_addr := Suc (next_addr s)\<rparr>,
                        ctx\<lparr>cmd_ret := DB_ASYNC_OK, cmd_data := Some (Data_user (next_addr s))\<rparr>)))
         else Inr (s, ctx\<lparr>cmd_data := None\<rparr>))"

definition db_insert_user_result ::
  "chat_server \<Rightarrow> string list list \<Rightarrow> pg_status \<Rightarrow> chat_dbcmd \<Rightarrow> (chat_server \<times> chat_dbcmd) res" where
  "db_insert_user_result s res status ctx0 =
     (let ctx = ctx0\<lparr>cmd_ret := DB_ASYNC_ERROR\<rparr>
      in if status = PGRES_TUPLES_OK then
           (case (cmd_data ctx, PQgetvalue res 0 0) of
              (Some (Data_user a), Some x) \<Rightarrow>
                bindR (deref (users s) a) (\<lambda>user.
                  Inr (put_user a (user\<lparr>user_id := ucast (strtoul 10 x)\<rparr>) s,
                       ctx\<lparr>cmd_ret := DB_ASYNC_OK\<rparr>))
            | _ \<Rightarrow> Inl Null_dereference)
         else Inr (s, ctx))"

definition db_get_user_json_result ::
  "chat_server \<Rightarrow> string list list \<Rightarrow> pg_status \<Rightarrow> chat_dbcmd \<Rightarrow> (chat_server \<times> chat_dbcmd) res" where
  "db_get_user_json_result s res status ctx =
     Inr (s, case (status, PQgetvalue res 0 0) of
               (PGRES_TUPLES_OK, Some x) \<Rightarrow>
                 ctx\<lparr>cmd_param := Some (Param_str (Some x)), cmd_ret := DB_ASYNC_OK\<rparr>
             | _ \<Rightarrow> ctx\<lparr>cmd_ret := DB_ASYNC_ERROR\<rparr>)"

definition get_connected_users_result ::
  "chat_server \<Rightarrow> string list list \<Rightarrow> pg_status \<Rightarrow> chat_dbcmd \<Rightarrow> (chat_server \<times> chat_dbcmd) res" where
  "get_connected_users_result s res status ctx =
     (if status = PGRES_TUPLES_OK \<and> length res \<noteq> 0 then
        (if \<exists>i\<in>{0..<length res}. PQgetvalue res i 0 = None then Inl Null_dereference
         else Inr (s, ctx\<lparr>cmd_data := Some (Data_ids
                      (map (\<lambda>i. ucast (strtoul 0 (the (PQgetvalue res i 0)))) [0..<length res])),
                    cmd_data_size := int (length res), cmd_ret := DB_ASYNC_OK\<rparr>))
      else Inr (s, ctx\<lparr>cmd_ret := DB_ASYNC_ERROR\<rparr>))"

definition update_user_result ::
  "chat_server \<Rightarrow> string list list \<Rightarrow> pg_status \<Rightarrow> chat_dbcmd \<Rightarrow> (chat_server \<times> chat_dbcmd) res" where
  "update_user_result s res status ctx =
     Inr (s, ctx\<lparr>cmd_ret := (if status = PGRES_COMMAND_OK then DB_ASYNC_OK else DB_ASYNC_ERROR)\<rparr>)"

section \<open>Queries\<close>

text \<open>A parameter in binary format is its bytes; \<open>%u\<close> prints an id in decimal.\<close>

definition u32_text :: "u32 \<Rightarrow> string" where
  "u32_text i = dec_digits (unat i)"

definition db_async_get_user :: "chat_db \<Rightarrow> u32 \<Rightarrow> chat_dbcmd \<Rightarrow> chat_db \<times> bool" where
  "db_async_get_user db uid ctx =
     (let (db', ret) = db_async_params db ''SELECT * FROM Users WHERE user_id = $1::int;''
                         [Some (u32_text uid)]
                         (Some (ctx\<lparr>cmd_exec_res := Some db_get_user_result_cb\<rparr>))
      in (db', ret = 1))"

definition db_async_get_user_username :: "chat_db \<Rightarrow> string \<Rightarrow> chat_dbcmd \<Rightarrow> chat_db \<times> bool" where
  "db_async_get_user_username db name ctx =
     (let (db', ret) = db_async_params db ''SELECT * FROM Users WHERE username = $1::varchar(50);''
                         [Some name]
                         (Some (ctx\<lparr>cmd_exec_res := Some db_get_user_result_cb\<rparr>))
      in (db', ret = 1))"

definition db_async_get_user_array :: "chat_db \<Rightarrow> string \<Rightarrow> chat_dbcmd \<Rightarrow> chat_db \<times> bool" where
  "db_async_get_user_array db array ctx =
     (let (db', ret) = db_async_params db ''select_user_json.sql''
                         [Some array]
                         (Some (ctx\<lparr>cmd_exec_res := Some db_get_user_json_result_cb\<rparr>))
      in (db', ret = 1))"

text \<open>\<open>a\<close> is the address of the user, \<open>user\<close> what it holds.\<close>

definition db_async_insert_user :: "chat_db \<Rightarrow> nat \<Rightarrow> db_user \<Rightarrow> chat_dbcmd \<Rightarrow> chat_db \<times> bool" where
  "db_async_insert_user db a user ctx =
     (let (db', ret) = db_async_params db ''insert_user.sql''
                         [Some (username_str user), Some (displayname_str user),
                          Some (bytes_text (uhash user)), Some (bytes_text (usalt user))]
                         (Some (ctx\<lparr>cmd_exec_res := Some db_insert_user_result_cb,
                                    cmd_data := Some (Data_user a)\<rparr>))
      in (db', ret = 1))"

text \<open>\<^verbatim>\<open>return ret;\<close> as \<^verbatim>\<open>bool\<close>: every result but 0 is true.\<close>

definition db_async_get_connected_users :: "chat_db \<Rightarrow> u32 \<Rightarrow> chat_dbcmd \<Rightarrow> chat_db \<times> bool" where
  "db_async_get_connected_users db uid ctx =
     (let (db', ret) = db_async_params db ''select_connected_users.sql''
                         [Some (u32_text uid)]
                         (Some (ctx\<lparr>cmd_exec_res := Some get_connected_users_result_cb\<rparr>))
      in (db', ret \<noteq> 0))"

definition flag_text :: "string option \<Rightarrow> string option" where
  "flag_text v = Some (if v = None then ''false'' else ''true'')"

definition db_async_update_user ::
  "chat_db \<Rightarrow> string option \<Rightarrow> string option \<Rightarrow> string option \<Rightarrow> u32 \<Rightarrow> chat_dbcmd \<Rightarrow> chat_db \<times> bool" where
  "db_async_update_user db name disp pfp uid ctx =
     (let (db', ret) = db_async_params db ''update_user.sql''
                         [flag_text name, name, flag_text disp, disp, flag_text pfp, pfp,
                          Some (u32_text uid)]
                         (Some (ctx\<lparr>cmd_exec_res := Some update_user_result_cb\<rparr>))
      in (db', ret \<noteq> 0))"

end
