(* ===== verification/Chat_Rtusm.thy ===== *)
theory Chat_Rtusm
  imports Db_User
begin

text \<open>
  Real-time user status (\<^verbatim>\<open>server/src/chat/rtusm.c\<close>): a change of a user's status asks the
  database for the users that share a group with the user, and the result callback sends the
  change to those of them that are connected.
\<close>

definition rtusm_get_status_str :: "rtusm_status \<Rightarrow> string" where
  "rtusm_get_status_str st =
     (case st of USER_OFFLINE \<Rightarrow> ''offline'' | USER_ONLINE \<Rightarrow> ''online'' | USER_AWAY \<Rightarrow> ''away''
      | USER_DND \<Rightarrow> ''dnd'')"

text \<open>\<^verbatim>\<open>json_object_new_int\<close> takes a signed 32-bit integer.\<close>

definition json_new_int :: "u32 \<Rightarrow> json" where
  "json_new_int i = JInt (sint i)"

definition rtusm_json :: "u32 \<Rightarrow> rtusm_new \<Rightarrow> rtusm \<Rightarrow> string option \<Rightarrow> json" where
  "rtusm_json uid new st pfp =
     (let j0 = json_object_object_add (JObject []) ''cmd'' (JString ''rtusm'');
          j1 = json_object_object_add j0 ''user_id'' (json_new_int uid);
          j2 = (if new_status new
                then json_object_object_add j1 ''status'' (JString (rtusm_get_status_str (rstatus st)))
                else j1);
          j3 = (if new_typing new \<and> typing_group_id st \<noteq> 0
                then json_object_object_add
                       (json_object_object_add j2 ''typing'' (JBool (typing st)))
                       ''typing_group_id'' (json_new_int (typing_group_id st))
                else j2)
      in if new_pfp new
         then json_object_object_add j3 ''pfp_name''
                (case pfp of None \<Rightarrow> JNull | Some p \<Rightarrow> JString p)
         else j3)"

fun send_to_users :: "chat_env \<Rightarrow> json \<Rightarrow> u32 list \<Rightarrow> chat_server \<Rightarrow> chat_server res" where
  "send_to_users env j [] s = Inr s"
| "send_to_users env j (uid # uids) s =
     (case server_get_client_user_id s (id_key uid) of
        None \<Rightarrow> send_to_users env j uids s
      | Some c \<Rightarrow> bindR (ws_json_send env s c j) (\<lambda>(s1, n). send_to_users env j uids s1))"

definition do_rtusm_broadcast ::
  "chat_env \<Rightarrow> chat_server \<Rightarrow> chat_dbcmd \<Rightarrow> (chat_server \<times> chat_dbcmd \<times> string option) res" where
  "do_rtusm_broadcast env s ctx =
     (if cmd_ret ctx = DB_ASYNC_ERROR \<or> cmd_data_size ctx = 0 then Inr (s, ctx, None)
      else (case (cmd_param ctx, cmd_data ctx) of
              (Some (Param_rtusm uid new st pfp), Some (Data_ids ids)) \<Rightarrow>
                bindR (send_to_users env (rtusm_json uid new st pfp) ids s)
                  (\<lambda>s1. Inr (s1, ctx, None))
            | _ \<Rightarrow> Inl Null_dereference))"

definition rtusm_broadcast :: "chat_server \<Rightarrow> nat \<Rightarrow> rtusm_new \<Rightarrow> chat_server res" where
  "rtusm_broadcast s a new =
     bindR (deref (users s) a) (\<lambda>user.
       (let pfp = (if new_pfp new then Some (cstr (take DB_PFP_HASH_MAX (pfp_hash user)) 0) else None);
            ctx = cmd_zero\<lparr>cmd_exec := Some do_rtusm_broadcast_cb,
                    cmd_param := Some (Param_rtusm (user_id user) new (urtusm user) pfp)\<rparr>
        in Inr (set_db (fst (db_async_get_connected_users (ew_db s) (user_id user) ctx)) s)))"

definition server_rtusm_set_user_status :: "chat_server \<Rightarrow> nat option \<Rightarrow> rtusm_status \<Rightarrow> chat_server res" where
  "server_rtusm_set_user_status s p st =
     (case p of
        None \<Rightarrow> Inr s
      | Some a \<Rightarrow> bindR (deref (users s) a) (\<lambda>user.
          Inr (put_user a (user\<lparr>urtusm := (urtusm user)\<lparr>rstatus := st\<rparr>\<rparr>) s)))"

definition server_rtusm_user_disconnect :: "chat_server \<Rightarrow> nat \<Rightarrow> chat_server res" where
  "server_rtusm_user_disconnect s a =
     bindR (deref (users s) a) (\<lambda>user.
       rtusm_broadcast
         (put_user a (user\<lparr>urtusm := (urtusm user)\<lparr>rstatus := USER_OFFLINE, typing_group_id := 0,
                       typing := False\<rparr>\<rparr>) s)
         a \<lparr>new_status = True, new_typing = False, new_pfp = False\<rparr>)"

definition server_rtusm_user_connect :: "chat_server \<Rightarrow> nat \<Rightarrow> chat_server res" where
  "server_rtusm_user_connect s a =
     bindR (deref (users s) a) (\<lambda>user.
       rtusm_broadcast
         (put_user a (user\<lparr>urtusm := (urtusm user)\<lparr>rstatus := USER_ONLINE\<rparr>\<rparr>) s)
         a \<lparr>new_status = True, new_typing = False, new_pfp = False\<rparr>)"

definition server_rtusm_user_pfp_change :: "chat_server \<Rightarrow> nat \<Rightarrow> chat_server res" where
  "server_rtusm_user_pfp_change s a =
     rtusm_broadcast s a \<lparr>new_status = False, new_typing = False, new_pfp = True\<rparr>"

end
