(* ===== verification/Server_Events.thy ===== *)
theory Server_Events
  imports Chat_Rtusm
begin

text \<open>
  The life cycle of the objects the server owns: epoll events
  (\<^verbatim>\<open>server/src/server_events.c\<close>), timers (\<^verbatim>\<open>server/src/server_timer.c\<close>), user sessions
  (\<^verbatim>\<open>server/src/chat/user_session.c\<close>), upload tokens (\<^verbatim>\<open>server/src/chat/upload_token.c\<close>) and
  the accepting and freeing of clients (\<^verbatim>\<open>server/src/server_client.c\<close>).

  These modules call each other: deleting an event runs its close callback, closing a timer runs
  its expiry, the expiry of an upload token deletes the token, and deleting a token deletes the
  event of its timer. The functions between take the deletion of an event as the argument
  \<open>del\<close>, and \<open>server_del_event\<close> ties the knot with fuel; one unit of it is always enough
  (\<open>del_event_fuel\<close>).
\<close>

section \<open>Constants\<close>

definition EPOLLIN :: u32 where "EPOLLIN = 0x1"
definition EPOLLERR :: u32 where "EPOLLERR = 0x8"
definition EPOLLHUP :: u32 where "EPOLLHUP = 0x10"
definition EPOLLRDHUP :: u32 where "EPOLLRDHUP = 0x2000"
definition EPOLLONESHOT :: u32 where "EPOLLONESHOT = 0x40000000"
definition DEFAULT_EPEV :: u32 where "DEFAULT_EPEV = EPOLLIN OR EPOLLRDHUP OR EPOLLONESHOT"
definition TIMER_ONCE :: u32 where "TIMER_ONCE = 0x80"
definition EPIPE :: int where "EPIPE = 32"

lemmas epoll_consts = EPOLLIN_def EPOLLERR_def EPOLLHUP_def EPOLLRDHUP_def EPOLLONESHOT_def
  DEFAULT_EPEV_def

section \<open>Events\<close>

definition server_event_add :: "chat_env \<Rightarrow> chat_server \<Rightarrow> nat \<Rightarrow> (chat_server \<times> int) res" where
  "server_event_add env s a =
     bindR (deref (events s) a) (\<lambda>e.
       (let e1 = (if listen_events e = 0 then e\<lparr>listen_events := DEFAULT_EPEV\<rparr> else e);
            (s1, ret) = os_call (os_epoll_add env) (put_event a e1 s)
        in if ret = -1 \<or> epoll s1 (ev_fd e1) \<noteq> None then Inr (s1, -1)
           else Inr (s1\<lparr>epoll := (epoll s1)(ev_fd e1 \<mapsto> a)\<rparr>, 0)))"

definition server_event_remove :: "chat_server \<Rightarrow> nat \<Rightarrow> (chat_server \<times> int) res" where
  "server_event_remove s a =
     bindR (deref (events s) a) (\<lambda>e.
       Inr (s\<lparr>epoll := (epoll s)(ev_fd e := None)\<rparr>, if epoll s (ev_fd e) = None then -1 else 0))"

definition server_event_rearm :: "chat_server \<Rightarrow> nat \<Rightarrow> (chat_server \<times> int) res" where
  "server_event_rearm s a =
     bindR (deref (events s) a) (\<lambda>e.
       if epoll s (ev_fd e) = None then Inr (s, -1)
       else Inr (s\<lparr>epoll := (epoll s)(ev_fd e \<mapsto> a)\<rparr>, 0))"

definition new_event_err :: "chat_server \<Rightarrow> nat \<Rightarrow> int \<Rightarrow> (chat_server \<times> nat option) res" where
  "new_event_err s a fd =
     bindR (server_event_remove s a) (\<lambda>(s1, r).
       Inr (s1\<lparr>event_ht := fst (server_ght_del (event_ht s1) (fd_key fd)),
               events := (events s1)(a := None)\<rparr>, None))"

definition server_new_event ::
  "chat_env \<Rightarrow> chat_server \<Rightarrow> int \<Rightarrow> nat option \<Rightarrow> se_read_callback \<Rightarrow> se_close_callback option \<Rightarrow>
    (chat_server \<times> nat option) res" where
  "server_new_event env s fd data read_callback close_callback =
     (if data \<noteq> None \<and> close_callback = None then Inr (s, None)
      else
        (let a = next_addr s;
             se = \<lparr>ev_fd = fd, ev_err = 0, ep_events = 0, listen_events = DEFAULT_EPEV, ev_data = data,
                   keep_data = False, ev_read = read_callback, ev_close = close_callback\<rparr>;
             s1 = (put_event a se s)\<lparr>next_addr := Suc a\<rparr>;
             (ht, ok) = server_ght_insert (event_ht s1) (fd_key fd) (Some a);
             s2 = s1\<lparr>event_ht := ht\<rparr>
         in if \<not> ok then new_event_err s2 a fd
            else bindR (server_event_add env s2 a) (\<lambda>(s3, ret).
                   if ret = -1 then new_event_err s3 a fd else Inr (s3, Some a))))"

section \<open>Sessions\<close>

definition server_new_user_session ::
  "chat_env \<Rightarrow> chat_server \<Rightarrow> nat option \<Rightarrow> (chat_server \<times> nat option) res" where
  "server_new_user_session env s client =
     (case client of
        None \<Rightarrow> Inr (s, None)
      | Some c \<Rightarrow>
          (let a = next_addr s;
               (s1, r) = os_call (os_random env) s;
               s2 = (put_session a \<lparr>session_id = r, ses_user_id = 0, ses_timerfd = 0\<rparr> s1)
                      \<lparr>next_addr := Suc a\<rparr>
           in bindR (deref (clients s2) c) (\<lambda>cl.
                Inr ((put_client c (cl\<lparr>session := Some a\<rparr>) s2)
                       \<lparr>session_ht := fst (server_ght_insert (session_ht s2) (id_key r) (Some a))\<rparr>,
                     Some a))))"

definition server_get_user_session :: "chat_server \<Rightarrow> u32 \<Rightarrow> nat option" where
  "server_get_user_session s i = server_ght_get (session_ht s) (id_key i)"

fun find_session_uid :: "chat_server \<Rightarrow> u32 \<Rightarrow> nat list \<Rightarrow> nat option res" where
  "find_session_uid s uid [] = Inr None"
| "find_session_uid s uid (a # as) =
     bindR (deref (sessions s) a) (\<lambda>x.
       if ses_user_id x = uid then Inr (Some a) else find_session_uid s uid as)"

definition server_get_client_session_uid :: "chat_server \<Rightarrow> u32 \<Rightarrow> nat option res" where
  "server_get_client_session_uid s uid = find_session_uid s uid (ght_foreach (session_ht s))"

definition server_del_user_session :: "chat_server \<Rightarrow> nat option \<Rightarrow> chat_server res" where
  "server_del_user_session s p =
     (case p of
        None \<Rightarrow> Inr s
      | Some a \<Rightarrow> bindR (deref (sessions s) a) (\<lambda>x.
          Inr (s\<lparr>session_ht := fst (server_ght_del (session_ht s) (id_key (session_id x))),
                 sessions := (sessions s)(a := None)\<rparr>)))"

section \<open>Upload tokens\<close>

type_synonym del_fun = "nat option \<Rightarrow> chat_server \<Rightarrow> chat_server res"

definition server_get_upload_token :: "chat_server \<Rightarrow> u32 \<Rightarrow> nat option" where
  "server_get_upload_token s i = server_ght_get (upload_token_ht s) (id_key i)"

text \<open>
  The attachment texts of a message token are part of its value here, so that freeing them is
  freeing the token.
\<close>

definition server_del_upload_token :: "del_fun \<Rightarrow> chat_server \<Rightarrow> nat option \<Rightarrow> chat_server res" where
  "server_del_upload_token del s p =
     (case p of
        None \<Rightarrow> Inr s
      | Some a \<Rightarrow>
          bindR (deref (tokens s) a) (\<lambda>ut.
          bindR (if ut_timerfd ut \<noteq> 0 then del (server_get_event s (ut_timerfd ut)) s else Inr s) (\<lambda>s1.
          bindR (deref (tokens s1) a) (\<lambda>ut1.
            Inr (s1\<lparr>upload_token_ht :=
                      fst (server_ght_del (upload_token_ht s1) (id_key (ut_token ut1))),
                    tokens := (tokens s1)(a := None)\<rparr>)))))"

section \<open>Timers\<close>

definition timer_user_session :: "chat_server \<Rightarrow> server_timer \<Rightarrow> (chat_server \<times> se_status) res" where
  "timer_user_session s timer =
     bindR (the_ptr (timer_data timer)) (\<lambda>a.
     bindR (deref (sessions s) a) (\<lambda>x.
     bindR (server_del_user_session s (Some a)) (\<lambda>s1. Inr (s1, SE_CLOSE))))"

definition timer_ut :: "del_fun \<Rightarrow> chat_server \<Rightarrow> server_timer \<Rightarrow> (chat_server \<times> se_status) res" where
  "timer_ut del s timer =
     bindR (the_ptr (timer_data timer)) (\<lambda>a.
     bindR (deref (tokens s) a) (\<lambda>ut.
     bindR (server_del_upload_token del (put_token a (ut\<lparr>ut_timerfd := 0\<rparr>) s) (Some a))
       (\<lambda>s1. Inr (s1, SE_CLOSE))))"

definition server_timer_exp :: "del_fun \<Rightarrow> chat_server \<Rightarrow> server_timer \<Rightarrow> (chat_server \<times> se_status) res" where
  "server_timer_exp del s timer =
     (case ttype timer of
        TIMER_CLIENT_SESSION \<Rightarrow> timer_user_session s timer
      | TIMER_UPLOAD_TOKEN \<Rightarrow> timer_ut del s timer)"

definition server_close_timer ::
  "del_fun \<Rightarrow> chat_server \<Rightarrow> nat option \<Rightarrow> bool \<Rightarrow> chat_server res" where
  "server_close_timer del s p keep =
     (case p of
        None \<Rightarrow> Inr s
      | Some a \<Rightarrow>
          bindR (deref (timers s) a) (\<lambda>timer.
          bindR (if keep then Inr s
                 else bindR (server_timer_exp del s timer) (\<lambda>(s1, st). Inr s1)) (\<lambda>s1.
            Inr ((close_fd (timer_fd timer) s1)\<lparr>timers := (timers s1)(a := None)\<rparr>))))"

text \<open>
  The zeroed timer has the type \<open>TIMER_CLIENT_SESSION\<close> and a NULL session, which is what the
  error path of \<^verbatim>\<open>server_addtimer\<close> expires when \<^verbatim>\<open>timerfd_create\<close> has failed.
\<close>

definition timer_zero :: server_timer where
  "timer_zero = \<lparr>timer_fd = 0, timer_seconds = 0, timer_flags = 0, timer_exp = 0,
     ttype = TIMER_CLIENT_SESSION, timer_data = None\<rparr>"

definition set_timerfd :: "chat_server \<Rightarrow> timer_type \<Rightarrow> nat \<Rightarrow> int \<Rightarrow> chat_server res" where
  "set_timerfd s type d fd =
     (case type of
        TIMER_CLIENT_SESSION \<Rightarrow>
          bindR (deref (sessions s) d) (\<lambda>x. Inr (put_session d (x\<lparr>ses_timerfd := fd\<rparr>) s))
      | TIMER_UPLOAD_TOKEN \<Rightarrow>
          bindR (deref (tokens s) d) (\<lambda>x. Inr (put_token d (x\<lparr>ut_timerfd := fd\<rparr>) s)))"

definition server_addtimer ::
  "chat_env \<Rightarrow> del_fun \<Rightarrow> chat_server \<Rightarrow> int \<Rightarrow> u32 \<Rightarrow> timer_type \<Rightarrow> nat \<Rightarrow>
    (chat_server \<times> nat option) res" where
  "server_addtimer env del s seconds flags type d =
     (let a = next_addr s;
          (s1, fd) = os_call (os_timerfd_create env) (s\<lparr>next_addr := Suc a\<rparr>);
          error = (\<lambda>s'. bindR (server_close_timer del s' (Some a) False) (\<lambda>s''. Inr (s'', None)))
      in if fd = -1 then error (put_timer a (timer_zero\<lparr>timer_fd := fd\<rparr>) s1)
         else
           (let timer = \<lparr>timer_fd = fd, timer_seconds = seconds, timer_flags = flags, timer_exp = 0,
                         ttype = type, timer_data = Some d\<rparr>
            in bindR (set_timerfd (put_timer a timer s1) type d fd) (\<lambda>s2.
                 (let (s3, ret) = os_call (os_timerfd_settime env) s2
                  in if ret = -1 then error s3
                     else bindR (server_new_event env s3 fd (Some a) se_timer_read_cb
                                   (Some se_timer_close_cb)) (\<lambda>(s4, ev).
                            case ev of None \<Rightarrow> error s4 | Some e \<Rightarrow> Inr (s4, Some a))))))"

text \<open>
  \<^verbatim>\<open>server_timer_set\<close> and \<^verbatim>\<open>server_timer_get\<close>: the kernel keeps the interval and
  reports the seconds that are left (an argument).
\<close>

definition server_timer_set :: "chat_env \<Rightarrow> chat_server \<Rightarrow> nat \<Rightarrow> int \<Rightarrow> (chat_server \<times> int) res" where
  "server_timer_set env s a seconds =
     bindR (deref (timers s) a) (\<lambda>timer.
       (let (s1, ret) = os_call (os_timerfd_settime env) s
        in Inr (if ret = -1 then s1 else put_timer a (timer\<lparr>timer_seconds := seconds\<rparr>) s1, ret)))"

definition server_timer_get :: "chat_server \<Rightarrow> nat \<Rightarrow> int option \<Rightarrow> int res" where
  "server_timer_get s a left =
     bindR (deref (timers s) a) (\<lambda>timer. Inr (case left of None \<Rightarrow> -1 | Some sec \<Rightarrow> sec))"

section \<open>New upload tokens\<close>

definition db_msg_zero :: db_msg where
  "db_msg_zero = \<lparr>msg_id = 0, msg_user_id = 0, msg_group_id = 0, 
     msg_content = replicate DB_MESSAGE_MAX NUL, msg_timestamp = replicate DB_TIMESTAMP_MAX NUL,
     msg_attachments = None, attachments_inheap = False, attachments_json = None, msg_flags = 0,
     parent_msg_id = 0\<rparr>"

definition tmp_msg_zero :: tmp_msg where
  "tmp_msg_zero = \<lparr>tmsg = db_msg_zero, tmsg_token = 0, tmsg_total = 0, tmsg_current = 0\<rparr>"

definition server_new_upload_token ::
  "chat_env \<Rightarrow> del_fun \<Rightarrow> chat_server \<Rightarrow> u32 \<Rightarrow> (chat_server \<times> nat) res" where
  "server_new_upload_token env del s uid =
     (let a = next_addr s;
          (s1, r) = os_call (os_random env) s;
          ut = \<lparr>ut_type = UT_USER_PFP, ut_token = r, ut_union = Ut_user_id uid, ut_timerfd = 0,
                ut_timer_seconds = 0\<rparr>;
          s2 = (put_token a ut s1)\<lparr>next_addr := Suc a\<rparr>;
          s3 = s2\<lparr>upload_token_ht := fst (server_ght_insert (upload_token_ht s2) (id_key r) (Some a))\<rparr>
      in bindR (server_addtimer env del s3 10 TIMER_ONCE TIMER_UPLOAD_TOKEN a) (\<lambda>(s4, t).
           case t of
             None \<Rightarrow> Inr (s4, a)
           | Some ta \<Rightarrow>
               bindR (deref (timers s4) ta) (\<lambda>timer.
               bindR (deref (tokens s4) a) (\<lambda>ut1.
                 Inr (put_token a (ut1\<lparr>ut_timerfd := timer_fd timer,
                        ut_timer_seconds := timer_seconds timer\<rparr>) s4, a)))))"

definition server_new_upload_token_attach ::
  "chat_env \<Rightarrow> del_fun \<Rightarrow> chat_server \<Rightarrow> (chat_server \<times> nat) res" where
  "server_new_upload_token_attach env del s =
     bindR (server_new_upload_token env del s 0) (\<lambda>(s1, a).
     bindR (deref (tokens s1) a) (\<lambda>ut.
       Inr (put_token a (ut\<lparr>ut_type := UT_MSG_ATTACHMENT, ut_union := Ut_msg_state tmp_msg_zero\<rparr>) s1, a)))"

definition server_send_upload_token ::
  "chat_env \<Rightarrow> chat_server \<Rightarrow> nat \<Rightarrow> string \<Rightarrow> nat \<Rightarrow> (chat_server \<times> int) res" where
  "server_send_upload_token env s c packet_type a =
     bindR (deref (tokens s) a) (\<lambda>ut.
       ws_json_send env s c
         (json_object_object_add
            (json_object_object_add (JObject []) ''cmd'' (JString packet_type))
            ''upload_token'' (JInt (uint (ut_token ut)))))"

section \<open>Freeing clients and deleting events\<close>

text \<open>
  \<^verbatim>\<open>server_free_client\<close>: the user's name is read for the log, the session of a client that
  goes away gets half an hour to be picked up again, and the user and the client are freed.
\<close>

definition expire_session :: "chat_env \<Rightarrow> del_fun \<Rightarrow> nat \<Rightarrow> chat_server \<Rightarrow> chat_server res" where
  "expire_session env del sa s =
     bindR (deref (sessions s) sa) (\<lambda>x.
       if ses_timerfd x = 0 \<and> running s then
         bindR (server_addtimer env del s (30 * 60) TIMER_ONCE TIMER_CLIENT_SESSION sa) (\<lambda>(s1, t).
           case t of
             None \<Rightarrow> Inr s1
           | Some ta \<Rightarrow>
               bindR (deref (timers s1) ta) (\<lambda>timer.
               bindR (deref (sessions s1) sa) (\<lambda>x1.
                 Inr (put_session sa (x1\<lparr>ses_timerfd := timer_fd timer\<rparr>) s1))))
       else Inr s)"

definition free_dbuser :: "nat option \<Rightarrow> chat_server \<Rightarrow> chat_server res" where
  "free_dbuser p s =
     (case p of
        None \<Rightarrow> Inr s
      | Some u \<Rightarrow> bindR (deref (users s) u) (\<lambda>user.
          Inr (s\<lparr>user_ht := fst (server_ght_del (user_ht s) (id_key (user_id user))),
                 users := (users s)(u := None)\<rparr>)))"

definition server_free_client :: "chat_env \<Rightarrow> del_fun \<Rightarrow> chat_server \<Rightarrow> nat option \<Rightarrow> chat_server res" where
  "server_free_client env del s p =
     (case p of
        None \<Rightarrow> Inr s
      | Some a \<Rightarrow>
          bindR (deref (clients s) a) (\<lambda>c.
          bindR (case dbuser c of None \<Rightarrow> Inr () | Some u \<Rightarrow> bindR (deref (users s) u) (\<lambda>_. Inr ())) (\<lambda>_.
            (let s1 = s\<lparr>client_ht := fst (server_ght_del (client_ht s) (fd_key (sock c)))\<rparr>
             in bindR (case session c of None \<Rightarrow> Inr s1 | Some sa \<Rightarrow> expire_session env del sa s1) (\<lambda>s2.
                bindR (free_dbuser (dbuser c) s2) (\<lambda>s3.
                  Inr ((close_fd (sock c) s3)\<lparr>clients := (clients s3)(a := None)\<rparr>)))))))"

definition se_close_client ::
  "chat_env \<Rightarrow> del_fun \<Rightarrow> chat_server \<Rightarrow> server_event \<Rightarrow> (chat_server \<times> se_status) res" where
  "se_close_client env del s ev =
     bindR (the_ptr (ev_data ev)) (\<lambda>a.
     bindR (deref (clients s) a) (\<lambda>c.
     bindR (if ev_err ev = EPIPE then Inr (put_client a (server_set_client_err c CLIENT_ERR_SSL) s)
            else (case dbuser c of
                    Some u \<Rightarrow> if running s then server_rtusm_user_disconnect s u else Inr s
                  | None \<Rightarrow> Inr s)) (\<lambda>s1.
     bindR (server_free_client env del s1 (Some a)) (\<lambda>s2. Inr (s2, SE_OK)))))"

definition se_timer_close ::
  "del_fun \<Rightarrow> chat_server \<Rightarrow> server_event \<Rightarrow> (chat_server \<times> se_status) res" where
  "se_timer_close del s ev =
     bindR (server_close_timer del s (ev_data ev) (keep_data ev)) (\<lambda>s1. Inr (s1, SE_OK))"

definition run_close ::
  "chat_env \<Rightarrow> del_fun \<Rightarrow> se_close_callback \<Rightarrow> chat_server \<Rightarrow> server_event \<Rightarrow> (chat_server \<times> se_status) res" where
  "run_close env del cb s ev =
     (case cb of
        se_close_client_cb \<Rightarrow> se_close_client env del s ev
      | se_timer_close_cb \<Rightarrow> se_timer_close del s ev)"

fun server_del_event :: "chat_env \<Rightarrow> nat \<Rightarrow> nat option \<Rightarrow> chat_server \<Rightarrow> chat_server res" where
  "server_del_event env 0 p s = Inl Out_of_fuel"
| "server_del_event env (Suc n) p s =
     (case p of
        None \<Rightarrow> Inr s
      | Some a \<Rightarrow>
          bindR (deref (events s) a) (\<lambda>se.
          bindR (server_event_remove s a) (\<lambda>(s1, r).
          bindR (case ev_close se of
                   Some cb \<Rightarrow> bindR (run_close env (server_del_event env n) cb s1 se) (\<lambda>(s2, st). Inr s2)
                 | None \<Rightarrow> Inr (close_fd (ev_fd se) s1)) (\<lambda>s2.
          bindR (deref (events s2) a) (\<lambda>se2.
            Inr ((if running s2
                  then s2\<lparr>event_ht := fst (server_ght_del (event_ht s2) (fd_key (ev_fd se2)))\<rparr>
                  else s2)\<lparr>events := (events s2)(a := None)\<rparr>))))))"

section \<open>One unit of fuel is enough\<close>

text \<open>
  The expiry of an upload token clears the token's timer first, so that the deletion of the token
  does not delete the event again: \<open>del\<close> is never called from a close callback.
\<close>

lemma timer_ut_eq:
  "timer_ut del s timer =
     bindR (the_ptr (timer_data timer)) (\<lambda>a.
     bindR (deref (tokens s) a) (\<lambda>ut.
       Inr (s\<lparr>upload_token_ht := fst (server_ght_del (upload_token_ht s) (id_key (ut_token ut))),
              tokens := (tokens s)(a := None)\<rparr>, SE_CLOSE)))"
  by (simp add: timer_ut_def server_del_upload_token_def put_token_def deref_def the_ptr_def
      split: option.split)

lemma server_timer_exp_del: "server_timer_exp del s timer = server_timer_exp del' s timer"
  by (simp add: server_timer_exp_def timer_ut_eq split: timer_type.split)

lemma server_close_timer_del: "server_close_timer del s p keep = server_close_timer del' s p keep"
  unfolding server_close_timer_def by (subst server_timer_exp_del [of del _ _ del']) (rule refl)

lemma server_addtimer_del: "server_addtimer env del s sec fl ty d = server_addtimer env del' s sec fl ty d"
  unfolding server_addtimer_def by (subst server_close_timer_del [of del _ _ _ del']) (rule refl)

lemma server_free_client_del: "server_free_client env del s p = server_free_client env del' s p"
  unfolding server_free_client_def expire_session_def
  by (subst server_addtimer_del [of env del _ _ _ _ _ del']) (rule refl)

lemma run_close_del: "run_close env del cb s ev = run_close env del' cb s ev"
  unfolding run_close_def se_close_client_def se_timer_close_def
  by (subst server_free_client_del [of env del _ _ del'], subst server_close_timer_del [of del _ _ _ del'])
    (rule refl)

lemma del_event_fuel: "server_del_event env (Suc n) p s = server_del_event env (Suc 0) p s"
  by (simp only: server_del_event.simps(2) run_close_del [of env "server_del_event env n" _ _ _ "server_del_event env 0"])

definition del_event :: "chat_env \<Rightarrow> del_fun" where
  "del_event env = server_del_event env (Suc 0)"

lemma del_event_Some:
  "del_event env (Some a) s =
     bindR (deref (events s) a) (\<lambda>se.
     bindR (server_event_remove s a) (\<lambda>(s1, r).
     bindR (case ev_close se of
              Some cb \<Rightarrow> bindR (run_close env (del_event env) cb s1 se) (\<lambda>(s2, st). Inr s2)
            | None \<Rightarrow> Inr (close_fd (ev_fd se) s1)) (\<lambda>s2.
     bindR (deref (events s2) a) (\<lambda>se2.
       Inr ((if running s2
             then s2\<lparr>event_ht := fst (server_ght_del (event_ht s2) (fd_key (ev_fd se2)))\<rparr>
             else s2)\<lparr>events := (events s2)(a := None)\<rparr>)))))"
proof -
  have r: "run_close env (server_del_event env 0) cb s' se = run_close env (del_event env) cb s' se"
    for cb s' se by (rule run_close_del)
  have "del_event env (Some a) s = server_del_event env (Suc 0) (Some a) s"
    by (simp only: del_event_def)
  then show ?thesis by (simp only: server_del_event.simps(2) option.case r)
qed

lemma del_event_None [simp]: "del_event env None s = Inr s"
  by (simp add: del_event_def)

section \<open>Processing an event\<close>

definition se_timer_read :: "chat_env \<Rightarrow> chat_server \<Rightarrow> nat \<Rightarrow> (chat_server \<times> se_status) res" where
  "se_timer_read env s a =
     bindR (deref (events s) a) (\<lambda>ev.
     bindR (the_ptr (ev_data ev)) (\<lambda>ta.
     bindR (deref (timers s) ta) (\<lambda>timer.
       (let (s1, r) = os_call (os_timer_read env) s
        in case r of
             None \<Rightarrow> Inr (s1, SE_ERROR)
           | Some ticks \<Rightarrow>
               (let timer1 = timer\<lparr>timer_exp := timer_exp timer + ticks\<rparr>
                in bindR (server_timer_exp (del_event env) (put_timer ta timer1 s1) timer1) (\<lambda>(s2, ret).
                   bindR (deref (events s2) a) (\<lambda>ev2.
                     Inr (if ret = SE_CLOSE then put_event a (ev2\<lparr>keep_data := True\<rparr>) s2 else s2,
                          ret))))))))"

text \<open>
  \<open>rd\<close> is what the event's read callback does with the event at the address, and \<open>sockerr\<close>
  the result of \<^verbatim>\<open>server_print_sockerr\<close>.
\<close>

definition server_process_event ::
  "chat_env \<Rightarrow> (se_read_callback \<Rightarrow> chat_server \<Rightarrow> nat \<Rightarrow> (chat_server \<times> se_status) res) \<Rightarrow> int \<Rightarrow>
    chat_server \<Rightarrow> nat \<Rightarrow> chat_server res" where
  "server_process_event env rd sockerr s a =
     bindR (deref (events s) a) (\<lambda>se.
       (let ev = ep_events se
        in if ev AND EPOLLERR \<noteq> 0 then
             del_event env (Some a) (put_event a (se\<lparr>ev_err := sockerr\<rparr>) s)
           else if ev AND (EPOLLRDHUP OR EPOLLHUP) \<noteq> 0 then del_event env (Some a) s
           else if ev AND EPOLLIN \<noteq> 0 then
             bindR (rd (ev_read se) s a) (\<lambda>(s1, ret).
               if ret = SE_CLOSE \<or> ret = SE_ERROR then del_event env (Some a) s1
               else bindR (deref (events s1) a) (\<lambda>se1.
                      if listen_events se1 AND EPOLLONESHOT \<noteq> 0
                      then bindR (server_event_rearm s1 a) (\<lambda>(s2, r). Inr s2)
                      else Inr s1))
           else Inr s))"

section \<open>Accepting clients\<close>

definition server_client_ssl_handsake :: "chat_env \<Rightarrow> chat_server \<Rightarrow> client \<Rightarrow> chat_server \<times> client \<times> int" where
  "server_client_ssl_handsake env s c =
     (let (s1, ssl) = os_call (os_ssl_new env) s
      in if \<not> ssl then (s1, c, -1)
         else (let (s2, ret) = os_call (os_ssl_accept env) s1
               in (s2, if ret = 1 then c else server_set_client_err c CLIENT_ERR_SSL, 0)))"

definition server_accept_client ::
  "chat_env \<Rightarrow> chat_server \<Rightarrow> (chat_server \<times> nat option) res" where
  "server_accept_client env s =
     (let a = next_addr s;
          (s1, fd) = os_call (os_accept env) (s\<lparr>next_addr := Suc a\<rparr>);
          c = client_zero fd (os_ssl_write env a);
          err = (\<lambda>s'. bindR (server_free_client env (del_event env) s' (Some a)) (\<lambda>s''. Inr (s'', None)))
      in if fd = -1 then err (put_client a c s1)
         else
           (let (s2, c1, hs) = server_client_ssl_handsake env s1 c
            in if hs = -1 then err (put_client a c1 s2)
               else
                 (let s3 = (put_client a c1 s2)\<lparr>client_ht :=
                             fst (server_ght_insert (client_ht s2) (fd_key fd) (Some a))\<rparr>
                  in bindR (server_new_event env s3 fd (Some a) se_read_client_cb
                              (Some se_close_client_cb)) (\<lambda>(s4, ev).
                       case ev of None \<Rightarrow> err s4 | Some e \<Rightarrow> Inr (s4, Some a)))))"

definition se_accept_conn :: "chat_env \<Rightarrow> chat_server \<Rightarrow> (chat_server \<times> se_status) res" where
  "se_accept_conn env s =
     bindR (server_accept_client env s) (\<lambda>(s1, c).
       Inr (s1, if c = None then SE_ERROR else SE_OK))"

section \<open>Timers of upload tokens\<close>

text \<open>An event at \<open>ea\<close> for the timer at \<open>ta\<close>, which is of type \<open>ty\<close> and for the object at \<open>d\<close>.\<close>

definition timer_armed :: "chat_server \<Rightarrow> int \<Rightarrow> nat \<Rightarrow> nat \<Rightarrow> timer_type \<Rightarrow> nat \<Rightarrow> bool" where
  "timer_armed s fd ea ta ty d \<longleftrightarrow>
     (\<exists>e t. events s ea = Some e \<and> ev_fd e = fd \<and> ev_data e = Some ta \<and>
        ev_read e = se_timer_read_cb \<and> ev_close e = Some se_timer_close_cb \<and> \<not> keep_data e \<and>
        timers s ta = Some t \<and> timer_fd t = fd \<and> ttype t = ty \<and> timer_data t = Some d)"

text \<open>What is left when the timer and its event are gone, and the token with them.\<close>

definition timer_gone :: "chat_server \<Rightarrow> int \<Rightarrow> nat \<Rightarrow> nat \<Rightarrow> chat_server" where
  "timer_gone s fd ea ta =
     s\<lparr>events := (events s)(ea := None), timers := (timers s)(ta := None),
       event_ht := fst (server_ght_del (event_ht s) (fd_key fd)),
       epoll := (epoll s)(fd := None), closed := closed s @ [fd]\<rparr>"

definition token_gone :: "chat_server \<Rightarrow> nat \<Rightarrow> upload_token \<Rightarrow> chat_server" where
  "token_gone s a ut =
     s\<lparr>tokens := (tokens s)(a := None),
       upload_token_ht := fst (server_ght_del (upload_token_ht s) (id_key (ut_token ut)))\<rparr>"

definition session_gone :: "chat_server \<Rightarrow> nat \<Rightarrow> user_session \<Rightarrow> chat_server" where
  "session_gone s a x =
     s\<lparr>sessions := (sessions s)(a := None),
       session_ht := fst (server_ght_del (session_ht s) (id_key (session_id x)))\<rparr>"

lemmas gone_defs = timer_gone_def token_gone_def session_gone_def

lemma del_timer_event:
  assumes "timer_armed s fd ea ta ty d" "running s"
    and "server_timer_exp (del_event env) (s\<lparr>epoll := (epoll s)(fd := None)\<rparr>) (the (timers s ta)) =
      Inr (s1, st)"
    and "events s1 = events s" "timers s1 = timers s" "event_ht s1 = event_ht s" "running s1"
      "epoll s1 = (epoll s)(fd := None)" "closed s1 = closed s"
  shows "del_event env (Some ea) s = Inr (timer_gone s1 fd ea ta)"
proof -
  obtain e t where e: "events s ea = Some e" "ev_fd e = fd" "ev_data e = Some ta"
      "ev_close e = Some se_timer_close_cb" "\<not> keep_data e"
    and t: "timers s ta = Some t" "timer_fd t = fd"
    using assms(1) by (auto simp: timer_armed_def)
  have "server_timer_exp (del_event env) (s\<lparr>epoll := (epoll s)(fd := None)\<rparr>) t = Inr (s1, st)"
    using assms(3) t by simp
  then show ?thesis
    using e t assms
    by (simp add: del_event_Some server_event_remove_def run_close_def se_timer_close_def
        server_close_timer_def close_fd_def timer_gone_def)
qed

lemma timer_exp_token:
  "\<lbrakk>ttype t = TIMER_UPLOAD_TOKEN; timer_data t = Some a; tokens s a = Some ut\<rbrakk> \<Longrightarrow>
   server_timer_exp del s t = Inr (token_gone s a ut, SE_CLOSE)"
  by (simp add: server_timer_exp_def timer_ut_eq token_gone_def)

lemma timer_exp_session:
  "\<lbrakk>ttype t = TIMER_CLIENT_SESSION; timer_data t = Some a; sessions s a = Some x\<rbrakk> \<Longrightarrow>
   server_timer_exp del s t = Inr (session_gone s a x, SE_CLOSE)"
  by (simp add: server_timer_exp_def timer_user_session_def server_del_user_session_def
      session_gone_def)

lemma del_token_event:
  assumes "timer_armed s fd ea ta TIMER_UPLOAD_TOKEN a" "tokens s a = Some ut" "running s"
  shows "del_event env (Some ea) s = Inr (timer_gone (token_gone s a ut) fd ea ta)"
proof -
  obtain t where t: "timers s ta = Some t" "ttype t = TIMER_UPLOAD_TOKEN" "timer_data t = Some a"
    using assms(1) by (auto simp: timer_armed_def)
  have "server_timer_exp (del_event env) (s\<lparr>epoll := (epoll s)(fd := None)\<rparr>) (the (timers s ta)) =
      Inr (token_gone (s\<lparr>epoll := (epoll s)(fd := None)\<rparr>) a ut, SE_CLOSE)"
    using timer_exp_token [OF t(2,3), of "s\<lparr>epoll := (epoll s)(fd := None)\<rparr>" ut] t(1) assms(2) by simp
  from del_timer_event [OF assms(1,3) this] assms(3) show ?thesis
    by (simp add: token_gone_def timer_gone_def)
qed

lemma del_session_event:
  assumes "timer_armed s fd ea ta TIMER_CLIENT_SESSION a" "sessions s a = Some x" "running s"
  shows "del_event env (Some ea) s = Inr (timer_gone (session_gone s a x) fd ea ta)"
proof -
  obtain t where t: "timers s ta = Some t" "ttype t = TIMER_CLIENT_SESSION" "timer_data t = Some a"
    using assms(1) by (auto simp: timer_armed_def)
  have "server_timer_exp (del_event env) (s\<lparr>epoll := (epoll s)(fd := None)\<rparr>) (the (timers s ta)) =
      Inr (session_gone (s\<lparr>epoll := (epoll s)(fd := None)\<rparr>) a x, SE_CLOSE)"
    using timer_exp_session [OF t(2,3), of "s\<lparr>epoll := (epoll s)(fd := None)\<rparr>" x] t(1) assms(2) by simp
  from del_timer_event [OF assms(1,3) this] assms(3) show ?thesis
    by (simp add: session_gone_def timer_gone_def)
qed

text \<open>An event with \<^verbatim>\<open>keep_data\<close> set closes its timer and leaves the timer's object alone.\<close>

lemma del_kept_event:
  assumes "events s ea = Some e" "ev_fd e = fd" "ev_data e = Some ta"
    "ev_close e = Some se_timer_close_cb" "keep_data e"
    "timers s ta = Some t" "timer_fd t = fd" "running s"
  shows "del_event env (Some ea) s = Inr (timer_gone s fd ea ta)"
  using assms
  by (simp add: del_event_Some server_event_remove_def run_close_def se_timer_close_def
      server_close_timer_def close_fd_def timer_gone_def)

text \<open>What the timer event does when it fires: the read callback and the deletion of the event.\<close>

definition fires :: "server_event \<Rightarrow> bool" where
  "fires e \<longleftrightarrow> ep_events e AND EPOLLERR = 0 \<and> ep_events e AND (EPOLLRDHUP OR EPOLLHUP) = 0 \<and>
     ep_events e AND EPOLLIN \<noteq> 0"

text \<open>An event as \<^verbatim>\<open>epoll_wait\<close> reports it: the worker stores the reported bits in it.\<close>

definition reported :: "chat_server \<Rightarrow> nat \<Rightarrow> u32 \<Rightarrow> chat_server" where
  "reported s ea bits = put_event ea ((the (events s ea))\<lparr>ep_events := bits\<rparr>) s"

lemma reported_sel [simp]:
  "tokens (reported s ea b) = tokens s" "sessions (reported s ea b) = sessions s"
  "timers (reported s ea b) = timers s" "running (reported s ea b) = running s"
  "os_calls (reported s ea b) = os_calls s" "clients (reported s ea b) = clients s"
  "upload_token_ht (reported s ea b) = upload_token_ht s" "session_ht (reported s ea b) = session_ht s"
  "timer_armed (reported s ea b) fd ea ta ty d = timer_armed s fd ea ta ty d" if "events s ea \<noteq> None"
  using that by (auto simp: reported_def put_event_def timer_armed_def)

lemma reported_fires [simp]: "fires (the (events (reported s ea EPOLLIN) ea))"
  by (simp add: reported_def put_event_def fires_def epoll_consts)

lemma process_timer_event:
  assumes e: "events s ea = Some e" "fires e" "rd (ev_read e) s ea = Inr (put_event ea e2 s2, SE_CLOSE)"
    and e2: "ev_fd e2 = fd" "ev_data e2 = Some ta" "ev_close e2 = Some se_timer_close_cb" "keep_data e2"
    and t: "timers s2 ta = Some t" "timer_fd t = fd" "running s2"
  shows "server_process_event env rd err s ea = Inr (timer_gone s2 fd ea ta)"
proof -
  have "del_event env (Some ea) (put_event ea e2 s2) = Inr (timer_gone (put_event ea e2 s2) fd ea ta)"
    by (rule del_kept_event [OF _ e2(1,2,3,4)]) (use t in \<open>simp_all add: put_event_def\<close>)
  moreover have "timer_gone (put_event ea e2 s2) fd ea ta = timer_gone s2 fd ea ta"
    by (simp add: timer_gone_def put_event_def)
  ultimately show ?thesis using e by (simp add: server_process_event_def fires_def)
qed

text \<open>The state in which the expiry of a timer runs.\<close>

definition ticked :: "chat_server \<Rightarrow> nat \<Rightarrow> server_timer \<Rightarrow> chat_server" where
  "ticked s ta t = put_timer ta t (s\<lparr>os_calls := Suc (os_calls s)\<rparr>)"

lemma ticked_sel [simp]:
  "events (ticked s ta t) = events s" "tokens (ticked s ta t) = tokens s"
  "sessions (ticked s ta t) = sessions s" "running (ticked s ta t) = running s"
  "timers (ticked s ta t) ta = Some t"
  by (simp_all add: ticked_def put_timer_def)

lemma se_timer_read_fires:
  assumes "events s ea = Some e" "ev_data e = Some ta" "timers s ta = Some t"
    "os_timer_read env (os_calls s) = Some n"
    and "server_timer_exp (del_event env) (ticked s ta (t\<lparr>timer_exp := timer_exp t + n\<rparr>))
           (t\<lparr>timer_exp := timer_exp t + n\<rparr>) = Inr (s2, SE_CLOSE)" "events s2 = events s"
  shows "se_timer_read env s ea = Inr (put_event ea (e\<lparr>keep_data := True\<rparr>) s2, SE_CLOSE)"
  using assms by (simp add: se_timer_read_def os_call_def ticked_def [symmetric] Let_def)

lemma process_token_timer:
  assumes armed: "timer_armed s fd ea ta TIMER_UPLOAD_TOKEN a" and ut: "tokens s a = Some ut"
    and run: "running s" and e: "fires (the (events s ea))"
    and rd: "rd se_timer_read_cb = se_timer_read env" and n: "os_timer_read env (os_calls s) = Some n"
  shows "server_process_event env rd err s ea =
    Inr (timer_gone (token_gone (s\<lparr>os_calls := Suc (os_calls s)\<rparr>) a ut) fd ea ta)"
proof -
  obtain ev t where ev: "events s ea = Some ev" "ev_fd ev = fd" "ev_data ev = Some ta"
      "ev_read ev = se_timer_read_cb" "ev_close ev = Some se_timer_close_cb"
    and t: "timers s ta = Some t" "timer_fd t = fd" "ttype t = TIMER_UPLOAD_TOKEN" "timer_data t = Some a"
    using armed by (auto simp: timer_armed_def)
  let ?t = "t\<lparr>timer_exp := timer_exp t + n\<rparr>"
  have "server_timer_exp (del_event env) (ticked s ta ?t) ?t = Inr (token_gone (ticked s ta ?t) a ut, SE_CLOSE)"
    by (rule timer_exp_token) (use t ut in simp_all)
  from se_timer_read_fires [OF ev(1,3) t(1) n this]
  have "se_timer_read env s ea =
      Inr (put_event ea (ev\<lparr>keep_data := True\<rparr>) (token_gone (ticked s ta ?t) a ut), SE_CLOSE)"
    by (simp add: token_gone_def)
  then have "server_process_event env rd err s ea = Inr (timer_gone (token_gone (ticked s ta ?t) a ut) fd ea ta)"
    by (intro process_timer_event [OF ev(1), where ?e2.0 = "ev\<lparr>keep_data := True\<rparr>" and t = ?t]) (use ev t e rd run in \<open>simp_all add: token_gone_def\<close>)
  then show ?thesis by (simp add: timer_gone_def token_gone_def ticked_def put_timer_def)
qed

lemma process_session_timer:
  assumes armed: "timer_armed s fd ea ta TIMER_CLIENT_SESSION a" and x: "sessions s a = Some x"
    and run: "running s" and e: "fires (the (events s ea))"
    and rd: "rd se_timer_read_cb = se_timer_read env" and n: "os_timer_read env (os_calls s) = Some n"
  shows "server_process_event env rd err s ea =
    Inr (timer_gone (session_gone (s\<lparr>os_calls := Suc (os_calls s)\<rparr>) a x) fd ea ta)"
proof -
  obtain ev t where ev: "events s ea = Some ev" "ev_fd ev = fd" "ev_data ev = Some ta"
      "ev_read ev = se_timer_read_cb" "ev_close ev = Some se_timer_close_cb"
    and t: "timers s ta = Some t" "timer_fd t = fd" "ttype t = TIMER_CLIENT_SESSION" "timer_data t = Some a"
    using armed by (auto simp: timer_armed_def)
  let ?t = "t\<lparr>timer_exp := timer_exp t + n\<rparr>"
  have "server_timer_exp (del_event env) (ticked s ta ?t) ?t = Inr (session_gone (ticked s ta ?t) a x, SE_CLOSE)"
    by (rule timer_exp_session) (use t x in simp_all)
  from se_timer_read_fires [OF ev(1,3) t(1) n this]
  have "se_timer_read env s ea =
      Inr (put_event ea (ev\<lparr>keep_data := True\<rparr>) (session_gone (ticked s ta ?t) a x), SE_CLOSE)"
    by (simp add: session_gone_def)
  then have "server_process_event env rd err s ea = Inr (timer_gone (session_gone (ticked s ta ?t) a x) fd ea ta)"
    by (intro process_timer_event [OF ev(1), where ?e2.0 = "ev\<lparr>keep_data := True\<rparr>" and t = ?t]) (use ev t e rd run in \<open>simp_all add: session_gone_def\<close>)
  then show ?thesis by (simp add: timer_gone_def session_gone_def ticked_def put_timer_def)
qed

section \<open>Example states\<close>

definition empty_table :: "nat \<Rightarrow> 'v server_ght" where
  "empty_table n = the (server_ght_init n False)"

lemma empty_table_ok:
  assumes "0 < n"
  shows "ght_ok (empty_table n)" "server_ght_get (empty_table n) = Map.empty"
    "ght_room_for (empty_table n) (Suc (Suc 0))" "ght_room_for (empty_table n) 1"
proof -
  have e: "empty_table n = \<lparr>ght_table = replicate n empty_slot, ght_size = n, min_size = n, ght_count = 0,
      ignore_resize = False, has_free = False, load = 0, max_load = f32_0_7, min_load = f32_0_2\<rparr>"
    using assms by (simp add: empty_table_def server_ght_init_def)
  show ok: "ght_ok (empty_table n)"
    unfolding e using assms by (simp add: ght_ok_def live_count_sum sum_list_replicate)
  show "server_ght_get (empty_table n) = Map.empty"
    by (rule get_empty_table [OF ok, of n]) (simp add: e)
  show "ght_room_for (empty_table n) (Suc (Suc 0))" "ght_room_for (empty_table n) 1" by (simp_all add: ght_room_for_def e)
qed

definition demo_env :: chat_env where
  "demo_env = \<lparr>json_print = (\<lambda>j. ''{}''), json_parse = (\<lambda>s. None), json_get_uint64 = (\<lambda>j. 0),
     json_get_int = (\<lambda>j. 0), sha512 = (\<lambda>p s. replicate 64 0), os_random = (\<lambda>k. 77),
     os_salt = (\<lambda>k. replicate 16 0), os_timerfd_create = (\<lambda>k. 9), os_timerfd_settime = (\<lambda>k. 0),
     os_timer_read = (\<lambda>k. Some 1), os_epoll_add = (\<lambda>k. 0), os_accept = (\<lambda>k. 7),
     os_ssl_new = (\<lambda>k. True), os_ssl_accept = (\<lambda>k. 1), os_ssl_write = (\<lambda>a k. 1),
     os_file = (\<lambda>k. True), os_errno = (\<lambda>k. False), mime_of = (\<lambda>d. Some ''image/png''), sha256_hex = (\<lambda>d. ''ab''),
     img_dir = ''img'', vid_dir = ''vid'', file_dir = ''file''\<rparr>"

definition demo_server_db :: chat_db where
  "demo_server_db = \<lparr>db_queue = db_init_queue 128, ctx_client = None, ctx_chain = [], pq_sent = [],
     pq_send = (\<lambda>k. 1)\<rparr>"

definition server_start :: chat_server where
  "server_start = \<lparr>clients = Map.empty, users = Map.empty, sessions = Map.empty, tokens = Map.empty,
     timers = Map.empty, events = Map.empty, next_addr = 0, event_ht = empty_table 10,
     client_ht = empty_table 10, user_ht = empty_table 10, session_ht = empty_table 10,
     upload_token_ht = empty_table 10, chat_cmd_ht = empty_table 30, running = True,
     epoll = Map.empty, closed = [], os_calls = 0, files = Map.empty, ew_db = demo_server_db\<rparr>"

definition demo_timer_event :: server_event where
  "demo_timer_event = \<lparr>ev_fd = 9, ev_err = 0, ep_events = EPOLLIN, listen_events = DEFAULT_EPEV,
     ev_data = Some 2, keep_data = False, ev_read = se_timer_read_cb,
     ev_close = Some se_timer_close_cb\<rparr>"

definition demo_token :: upload_token where
  "demo_token = \<lparr>ut_type = UT_USER_PFP, ut_token = 77, ut_union = Ut_user_id 5, ut_timerfd = 9,
     ut_timer_seconds = 10\<rparr>"

definition demo_token_server :: chat_server where
  "demo_token_server = server_start
     \<lparr>tokens := [1 \<mapsto> demo_token],
      timers := [2 \<mapsto> \<lparr>timer_fd = 9, timer_seconds = 10, timer_flags = TIMER_ONCE, timer_exp = 0,
                       ttype = TIMER_UPLOAD_TOKEN, timer_data = Some 1\<rparr>],
      events := [3 \<mapsto> demo_timer_event], next_addr := 4, epoll := [9 \<mapsto> 3],
      event_ht := fst (server_ght_insert (empty_table 10) (fd_key 9) (Some 3)),
      upload_token_ht := fst (server_ght_insert (empty_table 10) (id_key 77) (Some 1))\<rparr>"

lemma demo_token_server_facts:
  "timer_armed demo_token_server 9 3 2 TIMER_UPLOAD_TOKEN 1" "tokens demo_token_server 1 = Some demo_token"
  "running demo_token_server" "events demo_token_server 3 = Some demo_timer_event" "fires demo_timer_event"
  by (simp_all add: demo_token_server_def timer_armed_def demo_timer_event_def server_start_def fires_def
      epoll_consts)

section \<open>Properties\<close>

text \<open>
  Deleting an upload token directly while its timer is armed frees it twice: the event's
  close callback expires the timer, which deletes the token, and \<^verbatim>\<open>server_del_upload_token\<close>
  goes on with the freed token.
\<close>

lemma del_armed_token_double_free:
  assumes "timer_armed s fd ea ta TIMER_UPLOAD_TOKEN a" and "tokens s a = Some ut" and "running s"
    and "ut_timerfd ut = fd" and "fd \<noteq> 0" and "server_get_event s fd = Some ea"
  shows "server_del_upload_token (server_del_event env (Suc n)) s (Some a) = Inl Use_after_free"
proof -
  have "server_del_event env (Suc n) (Some ea) s = Inr (timer_gone (token_gone s a ut) fd ea ta)"
    by (rule trans [OF del_event_fuel del_token_event [unfolded del_event_def, OF assms(1,2,3)]])
  then show ?thesis
    using assms by (simp add: server_del_upload_token_def timer_gone_def token_gone_def)
qed

lemma insert_get:
  assumes "ght_ok ht" "k \<noteq> 0" "server_ght_get ht k = None" "ght_room_for ht (Suc n)"
  shows "ght_ok (fst (server_ght_insert ht k (Some v)))"
    "server_ght_get (fst (server_ght_insert ht k (Some v))) = (server_ght_get ht)(k \<mapsto> v)"
    "ght_room_for (fst (server_ght_insert ht k (Some v))) n" "snd (server_ght_insert ht k (Some v))"
  using ght.insert_new [OF assms, of v] by auto

lemma demo_get_event: "server_get_event demo_token_server 9 = Some 3"
proof -
  have "fd_key 9 \<noteq> 0" by (simp add: fd_key_def)
  from insert_get(2) [OF empty_table_ok(1) this _ empty_table_ok(3), of 10 "3::nat"] show ?thesis
    by (simp add: server_get_event_def demo_token_server_def empty_table_ok)
qed

text \<open>
  C28. An upload token with an armed timer is freed exactly once when its timer's event goes,
  whether the timer fires in the event loop or the upload handler deletes that event: token, timer
  and event leave the heap, the descriptor is closed, and \<^verbatim>\<open>server_ght_del\<close> is called once for
  the token's number and once for the descriptor (with what it does to the chains of the two
  tables). Both ways leave the same server behind, except for the system call that read the timer.
  Deleting the token itself, with \<^verbatim>\<open>server_del_upload_token\<close>, frees it twice.
\<close>

theorem upload_token_freed_once:
  assumes "timer_armed s fd ea ta TIMER_UPLOAD_TOKEN a" and "tokens s a = Some ut" and "running s"
    and "fires (the (events s ea))" and "rd se_timer_read_cb = se_timer_read env"
    and "os_timer_read env (os_calls s) = Some n"
    and "ut_timerfd ut = fd" and "fd \<noteq> 0" and "server_get_event s fd = Some ea"
  shows "del_event env (Some ea) s = Inr (timer_gone (token_gone s a ut) fd ea ta) \<and>
    server_process_event env rd err s ea =
      Inr (timer_gone (token_gone (s\<lparr>os_calls := Suc (os_calls s)\<rparr>) a ut) fd ea ta) \<and>
    server_del_upload_token (del_event env) s (Some a) = Inl Use_after_free"
  using del_token_event [OF assms(1,2,3)] process_token_timer [where rd = rd, OF assms(1-6)]
    del_armed_token_double_free [OF assms(1,2,3,7-9), of env 0]
  by (simp add: del_event_def)

lemma upload_token_freed_once_witness:
  "server_del_upload_token (del_event demo_env) demo_token_server (Some 1) = Inl Use_after_free \<and>
   tokens (timer_gone (token_gone demo_token_server 1 demo_token) 9 3 2) 1 = None \<and>
   del_event demo_env (Some 3) demo_token_server =
     Inr (timer_gone (token_gone demo_token_server 1 demo_token) 9 3 2)"
  using upload_token_freed_once [where rd = "\<lambda>cb. se_timer_read demo_env" and env = demo_env and n = 1,
      OF demo_token_server_facts(1,2,3)] demo_token_server_facts demo_get_event
  by (simp add: demo_token_def timer_gone_def token_gone_def demo_env_def)

subsection \<open>Failing timers\<close>

text \<open>
  When \<^verbatim>\<open>timerfd_create\<close> fails, \<^verbatim>\<open>server_addtimer\<close> dereferences NULL: its error path
  expires the timer it has not filled in yet, whose type is 0, a session timer, with a NULL
  session. A server that is out of file descriptors crashes at the next upload token, or when a
  client with a session disconnects.
\<close>

theorem timerfd_failure_crashes:
  assumes "os_timerfd_create env (os_calls s) = -1"
  shows "server_addtimer env del s seconds flags type d = Inl Null_dereference \<and>
    (sessions s d = Some x \<and> ses_timerfd x = 0 \<and> running s \<longrightarrow>
      expire_session env del d s = Inl Null_dereference)"
proof -
  have "server_addtimer env del s sec fl ty d = Inl Null_dereference" for sec fl ty
    using assms
    by (simp add: server_addtimer_def os_call_def server_close_timer_def put_timer_def timer_zero_def
        server_timer_exp_def timer_user_session_def)
  then show ?thesis by (simp add: expire_session_def)
qed

lemma timerfd_failure_crashes_witness:
  "server_addtimer (demo_env\<lparr>os_timerfd_create := \<lambda>k. -1\<rparr>) (\<lambda>p s. Inr s) server_start 10 TIMER_ONCE
     TIMER_UPLOAD_TOKEN 1 = Inl Null_dereference"
  using timerfd_failure_crashes [of "demo_env\<lparr>os_timerfd_create := \<lambda>k. -1\<rparr>" server_start "\<lambda>p s. Inr s"
      10 TIMER_ONCE TIMER_UPLOAD_TOKEN 1] by simp

text \<open>
  When the timer of a new upload token cannot be set, the error path expires it and so frees
  the token, but \<^verbatim>\<open>server_new_upload_token\<close> returns the freed token all the same: sending it
  to the client, as both callers do, reads freed memory.
\<close>

theorem unarmed_token_dangles:
  assumes "os_timerfd_create env (Suc (os_calls s)) \<noteq> -1"
    and "os_timerfd_settime env (Suc (Suc (os_calls s))) = -1"
  shows "\<exists>s' a. server_new_upload_token env del s uid = Inr (s', a) \<and> tokens s' a = None \<and>
    server_send_upload_token env s' c packet_type a = Inl Use_after_free"
  using assms
  by (simp add: server_new_upload_token_def server_addtimer_def os_call_def set_timerfd_def put_timer_def
      put_token_def server_close_timer_def server_timer_exp_def timer_ut_eq close_fd_def
      server_send_upload_token_def Let_def)

lemma unarmed_token_dangles_witness:
  "\<exists>s' a. server_new_upload_token (demo_env\<lparr>os_timerfd_settime := \<lambda>k. -1\<rparr>) (\<lambda>p s. Inr s) server_start 5 =
     Inr (s', a) \<and> tokens s' a = None"
proof -
  have "os_timerfd_create (demo_env\<lparr>os_timerfd_settime := \<lambda>k. -1\<rparr>) (Suc (os_calls server_start)) \<noteq> -1"
    "os_timerfd_settime (demo_env\<lparr>os_timerfd_settime := \<lambda>k. -1\<rparr>) (Suc (Suc (os_calls server_start))) = -1"
    by (simp_all add: demo_env_def)
  from unarmed_token_dangles [OF this, of "\<lambda>p s. Inr s" 5 0 "''edit_account''"] show ?thesis by blast
qed

subsection \<open>The life of an upload token\<close>

text \<open>The table of events has room and does not know the descriptor, and epoll does not either.\<close>

definition fd_free :: "chat_server \<Rightarrow> int \<Rightarrow> bool" where
  "fd_free s fd \<longleftrightarrow> ght_ok (event_ht s) \<and> ght_room_for (event_ht s) 1 \<and> fd_key fd \<noteq> 0 \<and>
     server_get_event s fd = None \<and> epoll s fd = None"

lemma new_event_ok:
  assumes "fd_free s fd" "os_epoll_add env (os_calls s) \<noteq> -1"
  shows "\<exists>ht. server_ght_get ht (fd_key fd) = Some (next_addr s) \<and> ght_ok ht \<and>
    server_new_event env s fd (Some d) rcb (Some ccb) =
      Inr (s\<lparr>events := (events s)(next_addr s \<mapsto>
               \<lparr>ev_fd = fd, ev_err = 0, ep_events = 0, listen_events = DEFAULT_EPEV, ev_data = Some d,
                keep_data = False, ev_read = rcb, ev_close = Some ccb\<rparr>),
             next_addr := Suc (next_addr s), event_ht := ht, os_calls := Suc (os_calls s),
             epoll := (epoll s)(fd \<mapsto> next_addr s)\<rparr>, Some (next_addr s))"
proof -
  let ?a = "next_addr s"
  obtain ht where ht: "server_ght_insert (event_ht s) (fd_key fd) (Some ?a) = (ht, True)"
      "server_ght_get ht (fd_key fd) = Some ?a" "ght_ok ht"
    using ght.insert_new [of "event_ht s" "fd_key fd" 0 ?a] assms(1)
    by (auto simp: fd_free_def server_get_event_def)
  have "DEFAULT_EPEV \<noteq> 0" by (simp add: epoll_consts)
  then show ?thesis
    using ht assms
    by (intro exI [of _ ht])
      (simp add: server_new_event_def put_event_def server_event_add_def os_call_def fd_free_def Let_def)
qed

lemma new_upload_token_ok:
  assumes r: "id_key (os_random env (os_calls s)) \<noteq> 0"
      "server_get_upload_token s (os_random env (os_calls s)) = None"
      "ght_ok (upload_token_ht s)" "ght_room_for (upload_token_ht s) 1"
    and fd: "os_timerfd_create env (Suc (os_calls s)) = fd" "fd \<noteq> -1" "fd_free s fd"
    and set: "os_timerfd_settime env (Suc (Suc (os_calls s))) \<noteq> -1"
    and add: "os_epoll_add env (Suc (Suc (Suc (os_calls s)))) \<noteq> -1"
  shows "\<exists>s' a ea ta. server_new_upload_token env del s uid = Inr (s', a) \<and>
    server_get_upload_token s' (os_random env (os_calls s)) = Some a \<and>
    tokens s' a = Some \<lparr>ut_type = UT_USER_PFP, ut_token = os_random env (os_calls s),
      ut_union = Ut_user_id uid, ut_timerfd = fd, ut_timer_seconds = 10\<rparr> \<and>
    timer_armed s' fd ea ta TIMER_UPLOAD_TOKEN a \<and> server_get_event s' fd = Some ea \<and>
    epoll s' fd = Some ea \<and> running s' = running s \<and> ght_ok (upload_token_ht s') \<and>
    sessions s' = sessions s \<and> clients s' = clients s \<and> os_calls s' = os_calls s + 4"
proof -
  let ?a = "next_addr s" and ?r = "os_random env (os_calls s)"
  obtain uht where uht: "server_ght_insert (upload_token_ht s) (id_key ?r) (Some ?a) = (uht, True)"
      "server_ght_get uht (id_key ?r) = Some ?a" "ght_ok uht"
    using ght.insert_new [of "upload_token_ht s" "id_key ?r" 0 ?a] r
    by (auto simp: server_get_upload_token_def)
  define ut where "ut = \<lparr>ut_type = UT_USER_PFP, ut_token = ?r, ut_union = Ut_user_id uid,
    ut_timerfd = fd, ut_timer_seconds = 0\<rparr>"
  define t where "t = \<lparr>timer_fd = fd, timer_seconds = 10, timer_flags = TIMER_ONCE, timer_exp = 0,
    ttype = TIMER_UPLOAD_TOKEN, timer_data = Some ?a\<rparr>"
  define s2 where "s2 = s\<lparr>tokens := (tokens s)(?a \<mapsto> ut), timers := (timers s)(Suc ?a \<mapsto> t),
    next_addr := Suc (Suc ?a), upload_token_ht := uht, os_calls := Suc (Suc (Suc (os_calls s)))\<rparr>"
  have "fd_free s2 fd" using fd(3) by (simp add: fd_free_def s2_def server_get_event_def)
  then obtain ht where ht: "server_ght_get ht (fd_key fd) = Some (Suc (Suc ?a))"
    and ev: "server_new_event env s2 fd (Some (Suc ?a)) se_timer_read_cb (Some se_timer_close_cb) =
      Inr (s2\<lparr>events := (events s2)(Suc (Suc ?a) \<mapsto>
               \<lparr>ev_fd = fd, ev_err = 0, ep_events = 0, listen_events = DEFAULT_EPEV, ev_data = Some (Suc ?a),
                keep_data = False, ev_read = se_timer_read_cb, ev_close = Some se_timer_close_cb\<rparr>),
             next_addr := Suc (Suc (Suc ?a)), event_ht := ht,
             os_calls := Suc (Suc (Suc (Suc (os_calls s)))),
             epoll := (epoll s2)(fd \<mapsto> Suc (Suc ?a))\<rparr>, Some (Suc (Suc ?a)))"
    using new_event_ok [of s2 fd env "Suc ?a" se_timer_read_cb se_timer_close_cb] add
    by (auto simp: s2_def)
  define s4 where "s4 = s2\<lparr>events := (events s2)(Suc (Suc ?a) \<mapsto>
               \<lparr>ev_fd = fd, ev_err = 0, ep_events = 0, listen_events = DEFAULT_EPEV, ev_data = Some (Suc ?a),
                keep_data = False, ev_read = se_timer_read_cb, ev_close = Some se_timer_close_cb\<rparr>),
             next_addr := Suc (Suc (Suc ?a)), event_ht := ht,
             os_calls := Suc (Suc (Suc (Suc (os_calls s)))),
             epoll := (epoll s2)(fd \<mapsto> Suc (Suc ?a))\<rparr>"
  define sa where "sa = s\<lparr>os_calls := Suc (os_calls s), tokens := (tokens s)(?a \<mapsto> ut\<lparr>ut_timerfd := 0\<rparr>),
    next_addr := Suc ?a, upload_token_ht := uht\<rparr>"
  have "server_addtimer env del sa 10 TIMER_ONCE TIMER_UPLOAD_TOKEN ?a = Inr (s4, Some (Suc ?a))"
  proof -
    have "put_token ?a ut (put_timer (Suc ?a) t (sa\<lparr>next_addr := Suc (Suc ?a), os_calls := Suc (Suc (os_calls s))\<rparr>))
        \<lparr>os_calls := Suc (Suc (Suc (os_calls s)))\<rparr> = s2"
      by (simp add: put_token_def put_timer_def sa_def s2_def)
    then show ?thesis
      using fd set ev
      by (simp add: server_addtimer_def os_call_def set_timerfd_def put_token_def put_timer_def sa_def
          t_def ut_def s4_def)
  qed
  then have "server_new_upload_token env del s uid =
      Inr (put_token ?a (ut\<lparr>ut_timer_seconds := 10\<rparr>) s4, ?a)"
    using uht by (simp add: server_new_upload_token_def os_call_def put_token_def sa_def ut_def s4_def s2_def t_def Let_def)
  then show ?thesis
    by (intro exI [of _ "put_token ?a (ut\<lparr>ut_timer_seconds := 10\<rparr>) s4"] exI [of _ ?a]
        exI [of _ "Suc (Suc ?a)"] exI [of _ "Suc ?a"])
      (use ht uht in \<open>simp add: put_token_def ut_def s4_def s2_def t_def timer_armed_def
        server_get_event_def server_get_upload_token_def\<close>)
qed

lemma del_get:
  assumes "ght_ok ht" "k \<noteq> 0" "server_ght_get ht k = Some v"
  shows "server_ght_get (fst (server_ght_del ht k)) k = None"
proof -
  have "ght_room_for ht 0" using unsigned_less [of "ght_count ht"] by (simp add: ght_room_for_def)
  from ght.del_present [OF assms this] show ?thesis by auto
qed

text \<open>
  C29. The life of an upload token. When the system calls succeed, the random token is new and
  the timer's descriptor is free, the new token is found under its number and its ten-second
  timer is armed in epoll and in the table of events; when epoll reports that timer, processing
  its event (the read callback, the expiry and the deletion of the event) ends with the number no
  longer found and token, timer and event freed.
\<close>

theorem upload_token_life:
  assumes "id_key (os_random env (os_calls s)) \<noteq> 0"
      "server_get_upload_token s (os_random env (os_calls s)) = None"
      "ght_ok (upload_token_ht s)" "ght_room_for (upload_token_ht s) 1"
    and "os_timerfd_create env (Suc (os_calls s)) = fd" "fd \<noteq> -1" "fd_free s fd"
    and "os_timerfd_settime env (Suc (Suc (os_calls s))) \<noteq> -1"
    and "os_epoll_add env (Suc (Suc (Suc (os_calls s)))) \<noteq> -1" and "running s"
    and "rd se_timer_read_cb = se_timer_read env" and "os_timer_read env (os_calls s + 4) = Some n"
  shows "\<exists>s' a ea ta s''. server_new_upload_token env del s uid = Inr (s', a) \<and>
    server_get_upload_token s' (os_random env (os_calls s)) = Some a \<and>
    tokens s' a = Some \<lparr>ut_type = UT_USER_PFP, ut_token = os_random env (os_calls s),
      ut_union = Ut_user_id uid, ut_timerfd = fd, ut_timer_seconds = 10\<rparr> \<and>
    timer_armed s' fd ea ta TIMER_UPLOAD_TOKEN a \<and> server_get_event s' fd = Some ea \<and>
    epoll s' fd = Some ea \<and>
    server_process_event env rd err (reported s' ea EPOLLIN) ea = Inr s'' \<and>
    server_get_upload_token s'' (os_random env (os_calls s)) = None \<and>
    tokens s'' a = None \<and> timers s'' ta = None \<and> events s'' ea = None \<and> epoll s'' fd = None"
proof -
  let ?r = "os_random env (os_calls s)"
  obtain s' a ea ta where s': "server_new_upload_token env del s uid = Inr (s', a)"
    "server_get_upload_token s' ?r = Some a"
    "tokens s' a = Some \<lparr>ut_type = UT_USER_PFP, ut_token = ?r, ut_union = Ut_user_id uid,
      ut_timerfd = fd, ut_timer_seconds = 10\<rparr>"
    "timer_armed s' fd ea ta TIMER_UPLOAD_TOKEN a" "server_get_event s' fd = Some ea"
    "epoll s' fd = Some ea" "running s'" "ght_ok (upload_token_ht s')" "os_calls s' = os_calls s + 4"
    using new_upload_token_ok [OF assms(1-9), of del uid] assms(10) by auto
  let ?ut = "the (tokens s' a)" and ?w = "reported s' ea EPOLLIN"
  have ev: "events s' ea \<noteq> None" using s'(4) by (auto simp: timer_armed_def)
  have gone: "server_ght_get (fst (server_ght_del (upload_token_ht s') (id_key ?r))) (id_key ?r) = None"
    using del_get [OF s'(8) assms(1), of a] s'(2) by (simp add: server_get_upload_token_def)
  have "server_process_event env rd err ?w ea =
      Inr (timer_gone (token_gone (?w\<lparr>os_calls := Suc (os_calls ?w)\<rparr>) a ?ut) fd ea ta)"
    by (rule process_token_timer) (use s' ev assms(11,12) in simp_all)
  then show ?thesis
    using s' gone ev
    by (intro exI [of _ s'] exI [of _ a] exI [of _ ea] exI [of _ ta]
        exI [of _ "timer_gone (token_gone (?w\<lparr>os_calls := Suc (os_calls ?w)\<rparr>) a ?ut) fd ea ta"])
      (simp add: gone_defs server_get_upload_token_def)
qed

lemma server_start_ok:
  "ght_ok (upload_token_ht server_start)" "ght_room_for (upload_token_ht server_start) 1"
  "fd_free server_start 9" "running server_start" "server_get_upload_token server_start r = None"
proof -
  have "fd_key 9 \<noteq> 0" by (simp add: fd_key_def)
  then show "ght_ok (upload_token_ht server_start)" "ght_room_for (upload_token_ht server_start) 1"
    "fd_free server_start 9" "running server_start" "server_get_upload_token server_start r = None"
    by (simp_all add: server_start_def fd_free_def empty_table_ok [simplified] server_get_event_def
        server_get_upload_token_def)
qed

lemma upload_token_life_witness:
  "\<exists>s' a. server_new_upload_token demo_env (del_event demo_env) server_start 5 = Inr (s', a) \<and>
     server_get_upload_token s' 77 = Some a \<and>
     (\<exists>ea s''. server_process_event demo_env (\<lambda>cb. se_timer_read demo_env) 0 (reported s' ea EPOLLIN) ea = Inr s'' \<and>
        server_get_upload_token s'' 77 = None)"
proof -
  have p: "id_key (os_random demo_env (os_calls server_start)) \<noteq> 0"
    "os_timerfd_create demo_env (Suc (os_calls server_start)) = 9" "(9::int) \<noteq> -1"
    "os_timerfd_settime demo_env (Suc (Suc (os_calls server_start))) \<noteq> -1"
    "os_epoll_add demo_env (Suc (Suc (Suc (os_calls server_start)))) \<noteq> -1"
    "os_random demo_env (os_calls server_start) = 77"
    "os_timer_read demo_env (os_calls server_start + 4) = Some 1"
    by (simp_all add: demo_env_def id_key_def)
  have rd: "(\<lambda>cb. se_timer_read demo_env) se_timer_read_cb = se_timer_read demo_env" by simp
  from upload_token_life [where rd = "\<lambda>cb. se_timer_read demo_env", OF p(1) server_start_ok(5,1,2) p(2,3)
      server_start_ok(3) p(4,5) server_start_ok(4) rd p(7), of "del_event demo_env" 5 0]
  show ?thesis unfolding p(6) by blast
qed

end
