(* ===== verification/User_Login.thy ===== *)
theory User_Login
  imports Server_Events
begin

text \<open>
  Registration and login (\<^verbatim>\<open>server/src/chat/user_login.c\<close>). A chat command checks its JSON
  payload and sends a query; the callback that runs when the result is in logs the client in, by
  password, by session number or as a new user. A command returns the server, the response object
  as it left it, and the error message of the \<^verbatim>\<open>const char*\<close> result.
\<close>

section \<open>Checking the payload\<close>

type_synonym chat_result = "(chat_server \<times> json \<times> string option) res"
type_synonym exec_result = "(chat_server \<times> chat_dbcmd \<times> string option) res"

text \<open>\<^verbatim>\<open>RET_IF_JSON_BAD\<close>: return the error, or go on with the member.\<close>

definition JSON_INVALID_STR :: "string \<Rightarrow> string" where
  "JSON_INVALID_STR key = CHR 0x22 # key @ CHR 0x22 # '' is invalid or not found''"

definition ret_if_json_bad ::
  "json \<Rightarrow> string \<Rightarrow> json_type \<Rightarrow> chat_server \<Rightarrow> json \<Rightarrow> (json \<Rightarrow> chat_result) \<Rightarrow> chat_result" where
  "ret_if_json_bad payload key ty s resp go =
     (let v = json_object_object_get payload key
      in if json_bad v ty then Inr (s, resp, Some (JSON_INVALID_STR key)) else go (the v))"

lemma ret_if_json_bad_simps:
  "json_bad (json_object_object_get p key) ty \<Longrightarrow>
     ret_if_json_bad p key ty s resp go = Inr (s, resp, Some (JSON_INVALID_STR key))"
  "\<not> json_bad (json_object_object_get p key) ty \<Longrightarrow>
     ret_if_json_bad p key ty s resp go = go (the (json_object_object_get p key))"
  by (simp_all add: ret_if_json_bad_def)

section \<open>Logging a client in\<close>

definition session_json :: "u32 \<Rightarrow> json" where
  "session_json i =
     json_object_object_add (json_object_object_add (JObject []) ''cmd'' (JString ''session''))
       ''id'' (JInt (uint i))"

text \<open>The last part of \<^verbatim>\<open>server_set_client_logged_in\<close>: the expiry of a used session stops.\<close>

definition stop_session_timer :: "chat_env \<Rightarrow> nat option \<Rightarrow> chat_server \<Rightarrow> chat_server res" where
  "stop_session_timer env sess s =
     (case sess of
        None \<Rightarrow> Inr s
      | Some sa \<Rightarrow>
          bindR (deref (sessions s) sa) (\<lambda>x.
            if ses_timerfd x = 0 then Inr s
            else bindR (case server_get_event s (ses_timerfd x) of
                          None \<Rightarrow> Inr s
                        | Some ea \<Rightarrow>
                            bindR (deref (events s) ea) (\<lambda>e.
                              del_event env (Some ea) (put_event ea (e\<lparr>keep_data := True\<rparr>) s))) (\<lambda>s1.
                 bindR (deref (sessions s1) sa) (\<lambda>x1.
                   Inr (put_session sa (x1\<lparr>ses_timerfd := 0\<rparr>) s1)))))"

definition server_set_client_logged_in ::
  "chat_env \<Rightarrow> chat_server \<Rightarrow> nat option \<Rightarrow> nat option \<Rightarrow> nat option \<Rightarrow> (chat_server \<times> string option) res" where
  "server_set_client_logged_in env s client user sess =
     bindR (case sess of None \<Rightarrow> Inr 0
            | Some sa \<Rightarrow> bindR (deref (sessions s) sa) (\<lambda>x. Inr (session_id x))) (\<lambda>sid.
     bindR (the_ptr user) (\<lambda>ua.
     bindR (deref (users s) ua) (\<lambda>u.
       if server_get_client_user_id s (id_key (user_id u)) \<noteq> None
       then Inr (s, Some ''Someone else already logged in'')
       else
         bindR (the_ptr client) (\<lambda>ca.
         bindR (deref (clients s) ca) (\<lambda>c.
           (let s1 = (put_client ca (c\<lparr>dbuser := Some ua\<rparr>) s)
                       \<lparr>user_ht := fst (server_ght_insert (user_ht s) (id_key (user_id u)) (Some ca))\<rparr>
            in bindR (ws_json_send env s1 ca (session_json sid)) (\<lambda>(s2, n).
               bindR (if n = -1 then Inr s2
                      else bindR (deref (clients s2) ca) (\<lambda>c2.
                             Inr (put_client ca (c2\<lparr>cstate := cstate c2 OR CLIENT_STATE_LOGGED_IN,
                                    session := sess\<rparr>) s2))) (\<lambda>s3.
               bindR (stop_session_timer env sess s3) (\<lambda>s4. Inr (s4, None))))))))))"

section \<open>Login by session\<close>

definition do_client_login_session :: "chat_env \<Rightarrow> chat_server \<Rightarrow> chat_dbcmd \<Rightarrow> exec_result" where
  "do_client_login_session env s ctx =
     (case cmd_param ctx of
        Some (Param_session sa) \<Rightarrow>
          if cmd_ret ctx = DB_ASYNC_ERROR then
            bindR (server_del_user_session s (Some sa)) (\<lambda>s1.
              Inr (s1, ctx, Some ''Could not find user from session''))
          else
            bindR (server_set_client_logged_in env s (cmd_client ctx)
                     (case cmd_data ctx of Some (Data_user ua) \<Rightarrow> Some ua | _ \<Rightarrow> None) (Some sa)) (\<lambda>(s1, err).
              Inr (s1, if err = None then ctx\<lparr>cmd_data := None\<rparr> else ctx, err))
      | _ \<Rightarrow> Inl Null_dereference)"

definition server_client_login_session ::
  "chat_env \<Rightarrow> chat_server \<Rightarrow> nat \<Rightarrow> json \<Rightarrow> json \<Rightarrow> chat_result" where
  "server_client_login_session env s client payload resp =
     ret_if_json_bad payload ''id'' json_type_int s resp (\<lambda>j.
       (let sid = ucast (json_get_uint64 env j)
        in case server_get_user_session s sid of
             None \<Rightarrow> Inr (s, resp, Some ''Invalid session ID or session expired'')
           | Some sa \<Rightarrow>
               bindR (deref (sessions s) sa) (\<lambda>x.
                 (let (db, ok) = db_async_get_user (ew_db s) (ses_user_id x)
                        (cmd_zero\<lparr>cmd_exec := Some do_client_login_session_cb,
                                  cmd_param := Some (Param_session sa)\<rparr>)
                  in Inr (set_db db s, resp,
                          if ok then None else Some ''Internal error: async-get-user'')))))"

section \<open>Login by password\<close>

text \<open>
  The command's \<^verbatim>\<open>user_login_param_t\<close> holds 50 characters of the password and the session
  flag behind them. A password of 50 characters or more has no terminating NUL there, so it
  reads on into the flag.
\<close>

definition login_password :: "string \<Rightarrow> bool \<Rightarrow> string" where
  "login_password password do_session =
     cstr (strncpy (replicate DB_PASSWORD_MAX NUL) password DB_PASSWORD_MAX @
           [if do_session then CHR 0x01 else NUL, NUL]) 0"

definition new_session_for :: "chat_env \<Rightarrow> bool \<Rightarrow> nat option \<Rightarrow> nat \<Rightarrow> chat_server \<Rightarrow> (chat_server \<times> nat option) res" where
  "new_session_for env do_session client ua s =
     (if do_session then
        bindR (server_new_user_session env s client) (\<lambda>(s1, p).
        bindR (the_ptr p) (\<lambda>sa.
        bindR (deref (sessions s1) sa) (\<lambda>x.
        bindR (deref (users s1) ua) (\<lambda>u.
          Inr (put_session sa (x\<lparr>ses_user_id := user_id u\<rparr>) s1, Some sa)))))
      else Inr (s, None))"

definition do_client_login :: "chat_env \<Rightarrow> chat_server \<Rightarrow> chat_dbcmd \<Rightarrow> exec_result" where
  "do_client_login env s ctx =
     (if cmd_ret ctx = DB_ASYNC_ERROR then Inr (s, ctx, Some ''Incorrect Username or Password'')
      else (case (cmd_data ctx, cmd_param ctx) of
              (Some (Data_user ua), Some (Param_login password do_session)) \<Rightarrow>
                bindR (deref (users s) ua) (\<lambda>u.
                  if uhash u = sha512 env (login_password password do_session) (usalt u) then
                    bindR (new_session_for env do_session (cmd_client ctx) ua s) (\<lambda>(s1, sess).
                    bindR (server_set_client_logged_in env s1 (cmd_client ctx) (Some ua) sess) (\<lambda>(s2, err).
                      Inr (s2, if err = None then ctx\<lparr>cmd_data := None\<rparr> else ctx, err)))
                  else Inr (s, ctx, Some ''Incorrect Username or Password''))
            | _ \<Rightarrow> Inr (s, ctx, Some ''Internal error: ctx->data'')))"

definition server_client_login :: "chat_env \<Rightarrow> chat_server \<Rightarrow> nat \<Rightarrow> json \<Rightarrow> json \<Rightarrow> chat_result" where
  "server_client_login env s client payload resp =
     ret_if_json_bad payload ''username'' json_type_string s resp (\<lambda>uj.
     ret_if_json_bad payload ''password'' json_type_string s resp (\<lambda>pj.
     ret_if_json_bad payload ''session'' json_type_boolean s resp (\<lambda>sj.
       (let (db, ok) = db_async_get_user_username (ew_db s) (json_object_get_string uj)
              (cmd_zero\<lparr>cmd_exec := Some do_client_login_cb,
                        cmd_param := Some (Param_login (json_object_get_string pj)
                                             (json_object_get_boolean sj))\<rparr>)
        in Inr (set_db db s, resp, if ok then None else Some (''Failed to do async sql.'' @ [CHR 0x0A]))))))"

section \<open>Registration\<close>

definition do_client_register :: "chat_env \<Rightarrow> chat_server \<Rightarrow> chat_dbcmd \<Rightarrow> exec_result" where
  "do_client_register env s ctx =
     (if cmd_ret ctx = DB_ASYNC_ERROR then Inr (s, ctx, Some ''Username already taken'')
      else (case (cmd_data ctx, cmd_param ctx) of
              (Some (Data_user ua), Some (Param_login password do_session)) \<Rightarrow>
                bindR (new_session_for env do_session (cmd_client ctx) ua s) (\<lambda>(s1, sess).
                bindR (server_set_client_logged_in env s1 (cmd_client ctx) (Some ua) sess) (\<lambda>(s2, err).
                  Inr (s2, if err = None then ctx\<lparr>cmd_data := None\<rparr> else ctx, err)))
            | _ \<Rightarrow> Inl Null_dereference))"

definition new_user :: "chat_env \<Rightarrow> u8 list \<Rightarrow> string \<Rightarrow> string \<Rightarrow> string \<Rightarrow> db_user" where
  "new_user env salt name disp password =
     db_user_zero\<lparr>username := strncpy (username db_user_zero) name DB_USERNAME_MAX,
       displayname := strncpy (displayname db_user_zero) disp DB_USERNAME_MAX,
       usalt := salt, uhash := sha512 env password salt\<rparr>"

definition server_client_register :: "chat_env \<Rightarrow> chat_server \<Rightarrow> nat \<Rightarrow> json \<Rightarrow> json \<Rightarrow> chat_result" where
  "server_client_register env s client payload resp =
     ret_if_json_bad payload ''username'' json_type_string s resp (\<lambda>uj.
     ret_if_json_bad payload ''displayname'' json_type_string s resp (\<lambda>dj.
     ret_if_json_bad payload ''password'' json_type_string s resp (\<lambda>pj.
     ret_if_json_bad payload ''session'' json_type_boolean s resp (\<lambda>sj.
       (let a = next_addr s;
            (s1, salt) = os_call (os_salt env) s;
            user = new_user env salt (json_object_get_string uj) (json_object_get_string dj)
                     (json_object_get_string pj);
            s2 = (put_user a user s1)\<lparr>next_addr := Suc a\<rparr>;
            (db, ok) = db_async_insert_user (ew_db s2) a user
              (cmd_zero\<lparr>cmd_exec := Some do_client_register_cb,
                        cmd_param := Some (Param_login [] (json_object_get_boolean sj))\<rparr>);
            s3 = set_db db s2
        in if ok then Inr (s3, resp, None)
           else Inr (s3\<lparr>users := (users s3)(a := None)\<rparr>, resp,
                     Some ''Internal error: async-insert-user''))))))"

section \<open>Lemmas\<close>

lemma set_logged_in_refused:
  "\<lbrakk>users s ua = Some u; server_get_client_user_id s (id_key (user_id u)) = Some other;
    sess = None \<or> (\<exists>sa x. sess = Some sa \<and> sessions s sa = Some x)\<rbrakk> \<Longrightarrow>
   server_set_client_logged_in env s client (Some ua) sess = Inr (s, Some ''Someone else already logged in'')"
  by (auto simp: server_set_client_logged_in_def)

definition logged_in_as :: "chat_server \<Rightarrow> nat \<Rightarrow> nat \<Rightarrow> u32 \<Rightarrow> bool" where
  "logged_in_as s ca ua uid \<longleftrightarrow>
     server_get_client_user_id s (id_key uid) = Some ca \<and>
     (\<exists>c. clients s ca = Some c \<and> dbuser c = Some ua \<and>
        (cerr c = CLIENT_ERR_SSL \<or> has_state c CLIENT_STATE_LOGGED_IN))"

lemma logged_in_state: "has_state (c\<lparr>cstate := x OR CLIENT_STATE_LOGGED_IN, session := p\<rparr>) CLIENT_STATE_LOGGED_IN"
proof -
  have "bit ((x OR CLIENT_STATE_LOGGED_IN) AND CLIENT_STATE_LOGGED_IN) 3"
    by (simp add: client_states bit_simps)
  then show ?thesis by (auto simp: has_state_def)
qed

lemma set_logged_in_core:
  assumes u: "users s ua = Some u" "server_get_client_user_id s (id_key (user_id u)) = None"
    and c: "clients s ca = Some c"
    and ht: "ght_ok (user_ht s)" "ght_room_for (user_ht s) 1" "id_key (user_id u) \<noteq> 0"
    and sess: "\<And>sa. sess = Some sa \<Longrightarrow> sessions s sa \<noteq> None"
  obtains c' where
    "server_set_client_logged_in env s (Some ca) (Some ua) sess =
       bindR (stop_session_timer env sess ((put_client ca c' s)
           \<lparr>user_ht := fst (server_ght_insert (user_ht s) (id_key (user_id u)) (Some ca))\<rparr>)) (\<lambda>s4. Inr (s4, None))"
    "server_ght_get (fst (server_ght_insert (user_ht s) (id_key (user_id u)) (Some ca))) =
       (server_ght_get (user_ht s))(id_key (user_id u) \<mapsto> ca)"
    "ght_ok (fst (server_ght_insert (user_ht s) (id_key (user_id u)) (Some ca)))"
    "dbuser c' = Some ua" "cerr c' = CLIENT_ERR_SSL \<or> has_state c' CLIENT_STATE_LOGGED_IN"
    "sock c' = sock c" "session c' = sess \<or> session c' = session c"
proof -
  define s1 where "s1 = (put_client ca (c\<lparr>dbuser := Some ua\<rparr>) s)
     \<lparr>user_ht := fst (server_ght_insert (user_ht s) (id_key (user_id u)) (Some ca))\<rparr>"
  have "server_ght_get (user_ht s) (id_key (user_id u)) = None"
    using u(2) by (simp add: server_get_client_user_id_def)
  from ght.insert_new [OF ht(1,3) this, of 0 ca] ht(2)
  have ins: "server_ght_get (user_ht s1) = (server_ght_get (user_ht s))(id_key (user_id u) \<mapsto> ca)"
    "ght_ok (user_ht s1)" by (auto simp: s1_def)
  have c1: "clients s1 ca = Some (c\<lparr>dbuser := Some ua\<rparr>)" by (simp add: s1_def)
  let ?c1 = "c\<lparr>dbuser := Some ua\<rparr>"
  let ?i = "case sess of None \<Rightarrow> 0 | Some sa \<Rightarrow> session_id (the (sessions s sa))"
  have sid: "(case sess of None \<Rightarrow> Inr 0
      | Some sa \<Rightarrow> bindR (deref (sessions s) sa) (\<lambda>x. Inr (session_id x))) = Inr ?i"
    using sess by (auto split: option.split)
  obtain c2 n where send: "ws_json_send env s1 ca (session_json ?i) = Inr (put_client ca c2 s1, n)"
      "dbuser c2 = Some ua" "session c2 = session c" "sock c2 = sock c" "n = -1 \<longrightarrow> cerr c2 = CLIENT_ERR_SSL"
    by (rule ws_json_send_ok [OF c1, of env "session_json ?i"]) auto
  define c' where "c' = (if n = -1 then c2
    else c2\<lparr>cstate := cstate c2 OR CLIENT_STATE_LOGGED_IN, session := sess\<rparr>)"
  have put: "put_client ca c' s1 = (put_client ca c' s)
      \<lparr>user_ht := fst (server_ght_insert (user_ht s) (id_key (user_id u)) (Some ca))\<rparr>"
    "put_client ca c' (put_client ca c2 s1) = put_client ca c' s1"
    by (simp_all add: s1_def put_client_def)
  show thesis
  proof (rule that [of c'])
    show "server_set_client_logged_in env s (Some ca) (Some ua) sess =
       bindR (stop_session_timer env sess ((put_client ca c' s)
           \<lparr>user_ht := fst (server_ght_insert (user_ht s) (id_key (user_id u)) (Some ca))\<rparr>)) (\<lambda>s4. Inr (s4, None))"
      unfolding put(1) [symmetric] using u c send(1) sid put(2)
      by (simp add: server_set_client_logged_in_def s1_def [symmetric] c'_def split: if_splits)
    show "cerr c' = CLIENT_ERR_SSL \<or> has_state c' CLIENT_STATE_LOGGED_IN"
      using send(5) logged_in_state [where c = c2 and x = "cstate c2" and p = sess] by (simp add: c'_def)
  qed (use ins send in \<open>simp_all add: s1_def c'_def\<close>)
qed

lemma set_logged_in_with:
  assumes u: "users s ua = Some u" "server_get_client_user_id s (id_key (user_id u)) = None"
    and c: "clients s ca = Some c"
    and ht: "ght_ok (user_ht s)" "ght_room_for (user_ht s) 1" "id_key (user_id u) \<noteq> 0"
    and sess: "\<And>sa. sess = Some sa \<Longrightarrow> \<exists>x. sessions s sa = Some x \<and> ses_timerfd x = 0"
  shows "\<exists>s'. server_set_client_logged_in env s (Some ca) (Some ua) sess = Inr (s', None) \<and>
    logged_in_as s' ca ua (user_id u) \<and> users s' = users s \<and> sessions s' = sessions s \<and>
    (\<forall>a. a \<noteq> ca \<longrightarrow> clients s' a = clients s a) \<and>
    server_ght_get (user_ht s') = (server_ght_get (user_ht s))(id_key (user_id u) \<mapsto> ca) \<and>
    ght_ok (user_ht s') \<and> user_ht s' = fst (server_ght_insert (user_ht s) (id_key (user_id u)) (Some ca)) \<and>
    client_ht s' = client_ht s \<and> session_ht s' = session_ht s \<and> running s' = running s \<and>
    (\<exists>c'. clients s' ca = Some c' \<and> sock c' = sock c \<and> (session c' = sess \<or> session c' = session c))"
proof -
  have "\<And>sa. sess = Some sa \<Longrightarrow> sessions s sa \<noteq> None" using sess by fastforce
  then obtain c' where c': "server_set_client_logged_in env s (Some ca) (Some ua) sess =
       bindR (stop_session_timer env sess ((put_client ca c' s)
           \<lparr>user_ht := fst (server_ght_insert (user_ht s) (id_key (user_id u)) (Some ca))\<rparr>)) (\<lambda>s4. Inr (s4, None))"
    "server_ght_get (fst (server_ght_insert (user_ht s) (id_key (user_id u)) (Some ca))) =
       (server_ght_get (user_ht s))(id_key (user_id u) \<mapsto> ca)"
    "ght_ok (fst (server_ght_insert (user_ht s) (id_key (user_id u)) (Some ca)))"
    "dbuser c' = Some ua" "cerr c' = CLIENT_ERR_SSL \<or> has_state c' CLIENT_STATE_LOGGED_IN"
    "sock c' = sock c" "session c' = sess \<or> session c' = session c"
    by (rule set_logged_in_core [OF u c ht])
  define s' where "s' = (put_client ca c' s)
     \<lparr>user_ht := fst (server_ght_insert (user_ht s) (id_key (user_id u)) (Some ca))\<rparr>"
  have "stop_session_timer env sess s' = Inr s'"
    using sess by (auto simp: stop_session_timer_def s'_def split: option.split)
  then show ?thesis
    using c' by (intro exI [of _ s']) (auto simp: s'_def [symmetric], auto simp: s'_def logged_in_as_def server_get_client_user_id_def)
qed

lemmas set_logged_in_ok = set_logged_in_with [where sess = None, simplified option.distinct False_implies_equals]

text \<open>A new session is in the heap and in the client, and changes nothing of the table of users.\<close>

lemma new_session_for_ok:
  assumes "users s ua = Some u" "clients s ca = Some c"
  shows "new_session_for env True (Some ca) ua s = Inr
    ((put_client ca (c\<lparr>session := Some (next_addr s)\<rparr>) s)
       \<lparr>sessions := (sessions s)(next_addr s \<mapsto> \<lparr>session_id = os_random env (os_calls s), ses_user_id = user_id u,
                                              ses_timerfd = 0\<rparr>),
        session_ht := fst (server_ght_insert (session_ht s) (id_key (os_random env (os_calls s))) (Some (next_addr s))),
        next_addr := Suc (next_addr s), os_calls := Suc (os_calls s)\<rparr>, Some (next_addr s))"
  using assms
  by (simp add: new_session_for_def server_new_user_session_def os_call_def put_client_def put_session_def Let_def)

section \<open>Properties\<close>


definition demo_user :: db_user where
  "demo_user = db_user_zero\<lparr>user_id := 5, username := ''bob'' @ replicate 47 NUL\<rparr>"

definition demo_login_ctx :: chat_dbcmd where
  "demo_login_ctx = cmd_zero\<lparr>cmd_ret := DB_ASYNC_OK, cmd_client := Some 4, cmd_data := Some (Data_user 6),
     cmd_param := Some (Param_login ''secret'' False)\<rparr>"

definition demo_login_server :: chat_server where
  "demo_login_server = server_start\<lparr>clients := [4 \<mapsto> client_zero 7 (\<lambda>k. 1)], users := [6 \<mapsto> demo_user],
     next_addr := 7\<rparr>"

lemma demo_login_facts:
  "users demo_login_server 6 = Some demo_user"
  "server_get_client_user_id demo_login_server (id_key (user_id demo_user)) = None"
  "clients demo_login_server 4 = Some (client_zero 7 (\<lambda>k. 1))"
  "ght_ok (user_ht demo_login_server)" "ght_room_for (user_ht demo_login_server) 1"
  "id_key (user_id demo_user) \<noteq> 0"
  by (simp_all add: demo_login_server_def demo_user_def server_start_def server_get_client_user_id_def
      empty_table_ok [simplified] id_key_def)


text \<open>
  A user has one connection: while a client is entered for the user, every other login for
  that user, by password, by registration or by session, is refused, and a login by password
  without a session changes nothing at all.
\<close>

theorem second_login_refused:
  assumes "users s ua = Some u" and "server_get_client_user_id s (id_key (user_id u)) = Some other"
    and "cmd_data ctx = Some (Data_user ua)" and "cmd_ret ctx = DB_ASYNC_OK"
    and "cmd_param ctx = Some (Param_login password False)"
    and "uhash u = sha512 env (login_password password False) (usalt u)"
  shows "do_client_login env s ctx = Inr (s, ctx, Some ''Someone else already logged in'') \<and>
    do_client_register env s ctx = Inr (s, ctx, Some ''Someone else already logged in'') \<and>
    (sessions s sa = Some x \<longrightarrow>
       do_client_login_session env s (ctx\<lparr>cmd_param := Some (Param_session sa)\<rparr>) =
         Inr (s, ctx\<lparr>cmd_param := Some (Param_session sa)\<rparr>, Some ''Someone else already logged in''))"
  using assms set_logged_in_refused [OF assms(1,2)]
  by (simp add: do_client_login_def do_client_register_def do_client_login_session_def
      new_session_for_def db_consts)

lemma second_login_refused_witness:
  "\<exists>s. do_client_login demo_env s demo_login_ctx =
     Inr (s, demo_login_ctx, Some ''Someone else already logged in'')"
proof -
  let ?s = "demo_login_server\<lparr>user_ht := fst (server_ght_insert (user_ht demo_login_server)
    (id_key (user_id demo_user)) (Some 9))\<rparr>"
  have "server_get_client_user_id ?s (id_key (user_id demo_user)) = Some 9"
    using ght.insert_new [OF demo_login_facts(4,6), of 0 9] demo_login_facts(2,5)
    by (auto simp: server_get_client_user_id_def)
  moreover have "uhash demo_user = sha512 demo_env (login_password ''secret'' False) (usalt demo_user)"
    by (simp add: demo_user_def demo_env_def db_user_zero_def SERVER_HASH_SIZE_def)
  ultimately have "do_client_login demo_env ?s demo_login_ctx =
      Inr (?s, demo_login_ctx, Some ''Someone else already logged in'')"
    using second_login_refused [of ?s 6 demo_user 9 demo_login_ctx "''secret''" demo_env 0 undefined]
      demo_login_facts(1)
    by (simp add: demo_login_ctx_def)
  then show ?thesis by blast
qed

text \<open>
  Passwords that a login cannot use: registration hashes the whole password, but a login
  keeps 50 characters without a terminating NUL, so that a password of more than 50 characters,
  or of exactly 50 with a session, is hashed as a different string, while shorter ones are
  hashed as they are.
\<close>

theorem login_password_exact:
  assumes "NUL \<notin> set password" and "CHR 0x01 \<notin> set password"
  shows "login_password password do_session = password \<longleftrightarrow>
    length password < 50 \<or> (length password = 50 \<and> \<not> do_session)"
proof -
  have n: "CHR 0x01 \<noteq> NUL" by (simp add: NUL_def)
  have tw: "takeWhile (\<lambda>c. c \<noteq> NUL) (take 50 password @ r) = take 50 password @ takeWhile (\<lambda>c. c \<noteq> NUL) r" for r
    using assms(1) by (intro takeWhile_append2) (auto dest: in_set_takeD)
  consider "length password < 50" | "length password = 50" | "50 < length password" by linarith
  then show ?thesis
  proof cases
    case 1
    then obtain k where "50 - length password = Suc k" by (cases "50 - length password") simp_all
    with 1 tw show ?thesis by (simp add: login_password_def cstr_def strncpy_def DB_PASSWORD_MAX_def)
  next
    case 2
    with tw n show ?thesis by (simp add: login_password_def cstr_def strncpy_def DB_PASSWORD_MAX_def)
  next
    case 3
    define t where "t = takeWhile (\<lambda>c. c \<noteq> NUL) [if do_session then CHR 0x01 else NUL, NUL]"
    have l: "login_password password do_session = take 50 password @ t"
      using 3 tw by (simp add: login_password_def cstr_def strncpy_def DB_PASSWORD_MAX_def t_def)
    have "take 50 password @ t \<noteq> password"
    proof
      assume e: "take 50 password @ t = password"
      then have "set t \<subseteq> set password" by (metis set_append sup_ge2)
      then have "t = []" using assms(2) n by (auto simp: t_def split: if_splits)
      with e 3 show False by (metis append_Nil2 length_take min.absorb4 less_irrefl)
    qed
    with 3 l show ?thesis by simp
  qed
qed

lemma login_password_exact_witness:
  "login_password (replicate 50 CHR ''a'') True \<noteq> replicate 50 CHR ''a''"
  using login_password_exact [of "replicate 50 CHR ''a''" True] by (simp add: NUL_def)

lemma stop_timer_armed:
  assumes "timer_armed s fd ea ta TIMER_CLIENT_SESSION sa" and "sessions s sa = Some x"
    and "ses_timerfd x = fd" "fd \<noteq> 0" and "server_get_event s fd = Some ea" and "running s"
  shows "stop_session_timer env (Some sa) s =
    Inr (put_session sa (x\<lparr>ses_timerfd := 0\<rparr>) (timer_gone s fd ea ta))"
proof -
  obtain e t where e: "events s ea = Some e" "ev_fd e = fd" "ev_data e = Some ta"
      "ev_close e = Some se_timer_close_cb" and t: "timers s ta = Some t" "timer_fd t = fd"
    using assms(1) by (auto simp: timer_armed_def)
  let ?s = "put_event ea (e\<lparr>keep_data := True\<rparr>) s"
  have "del_event env (Some ea) ?s = Inr (timer_gone ?s fd ea ta)"
    by (rule del_kept_event [where e = "e\<lparr>keep_data := True\<rparr>" and t = t])
      (use e t assms(6) in \<open>simp_all add: put_event_def\<close>)
  moreover have "timer_gone ?s fd ea ta = timer_gone s fd ea ta"
    by (simp add: timer_gone_def put_event_def)
  moreover have "sessions (timer_gone s fd ea ta) = sessions s" by (simp add: timer_gone_def)
  ultimately show ?thesis using e assms by (simp add: stop_session_timer_def)
qed

text \<open>The expiry timer of a session that loses its client.\<close>

lemma expire_session_ok:
  assumes x: "sessions s sa = Some x" "ses_timerfd x = 0" "running s"
    and fd: "os_timerfd_create env (os_calls s) = fd" "fd \<noteq> -1" "fd_free s fd"
    and set: "os_timerfd_settime env (Suc (os_calls s)) \<noteq> -1"
    and add: "os_epoll_add env (Suc (Suc (os_calls s))) \<noteq> -1"
  shows "\<exists>s' ea ta. expire_session env del sa s = Inr s' \<and> sessions s' = (sessions s)(sa \<mapsto> x\<lparr>ses_timerfd := fd\<rparr>) \<and>
    timer_armed s' fd ea ta TIMER_CLIENT_SESSION sa \<and> server_get_event s' fd = Some ea \<and>
    running s' \<and> session_ht s' = session_ht s \<and> user_ht s' = user_ht s \<and> client_ht s' = client_ht s \<and>
    clients s' = clients s \<and> users s' = users s \<and> os_calls s' = os_calls s + 3"
proof -
  let ?a = "next_addr s"
  define t where "t = \<lparr>timer_fd = fd, timer_seconds = 1800, timer_flags = TIMER_ONCE, timer_exp = 0,
    ttype = TIMER_CLIENT_SESSION, timer_data = Some sa\<rparr>"
  define s2 where "s2 = s\<lparr>sessions := (sessions s)(sa \<mapsto> x\<lparr>ses_timerfd := fd\<rparr>),
    timers := (timers s)(?a \<mapsto> t), next_addr := Suc ?a, os_calls := Suc (Suc (os_calls s))\<rparr>"
  have "fd_free s2 fd" using fd(3) by (simp add: fd_free_def s2_def server_get_event_def)
  then obtain ht where ht: "server_ght_get ht (fd_key fd) = Some (Suc ?a)"
    and ev: "server_new_event env s2 fd (Some ?a) se_timer_read_cb (Some se_timer_close_cb) =
      Inr (s2\<lparr>events := (events s2)(Suc ?a \<mapsto>
               \<lparr>ev_fd = fd, ev_err = 0, ep_events = 0, listen_events = DEFAULT_EPEV, ev_data = Some ?a,
                keep_data = False, ev_read = se_timer_read_cb, ev_close = Some se_timer_close_cb\<rparr>),
             next_addr := Suc (Suc ?a), event_ht := ht, os_calls := Suc (Suc (Suc (os_calls s))),
             epoll := (epoll s2)(fd \<mapsto> Suc ?a)\<rparr>, Some (Suc ?a))"
    using new_event_ok [of s2 fd env ?a se_timer_read_cb se_timer_close_cb] add by (auto simp: s2_def)
  define s4 where "s4 = s2\<lparr>events := (events s2)(Suc ?a \<mapsto>
               \<lparr>ev_fd = fd, ev_err = 0, ep_events = 0, listen_events = DEFAULT_EPEV, ev_data = Some ?a,
                keep_data = False, ev_read = se_timer_read_cb, ev_close = Some se_timer_close_cb\<rparr>),
             next_addr := Suc (Suc ?a), event_ht := ht, os_calls := Suc (Suc (Suc (os_calls s))),
             epoll := (epoll s2)(fd \<mapsto> Suc ?a)\<rparr>"
  have "put_session sa (x\<lparr>ses_timerfd := fd\<rparr>) (put_timer ?a t (s\<lparr>next_addr := Suc ?a, os_calls := Suc (os_calls s)\<rparr>))
      \<lparr>os_calls := Suc (Suc (os_calls s))\<rparr> = s2"
    by (simp add: put_session_def put_timer_def s2_def)
  then have "server_addtimer env del s 1800 TIMER_ONCE TIMER_CLIENT_SESSION sa = Inr (s4, Some ?a)"
    using x fd set ev
    by (simp add: server_addtimer_def os_call_def set_timerfd_def put_session_def put_timer_def t_def s4_def Let_def)
  then have "expire_session env del sa s = Inr s4"
    using x by (simp add: expire_session_def s4_def s2_def t_def put_session_def)
  then show ?thesis
    by (intro exI [of _ s4] exI [of _ "Suc ?a"] exI [of _ ?a])
      (use ht x in \<open>simp add: s4_def s2_def t_def timer_armed_def server_get_event_def\<close>)
qed

text \<open>A client with a session and a user is freed: its session stays, with its timer armed.\<close>

lemma free_session_client:
  assumes c: "clients s ca = Some c" "session c = Some sa" "dbuser c = Some ua" "users s ua = Some u"
    and x: "sessions s sa = Some x" "ses_timerfd x = 0" "running s"
    and fd: "os_timerfd_create env (os_calls s) = fd" "fd \<noteq> -1" "fd_free s fd"
    and set: "os_timerfd_settime env (Suc (os_calls s)) \<noteq> -1"
    and add: "os_epoll_add env (Suc (Suc (os_calls s))) \<noteq> -1"
  obtains s' ea ta where "server_free_client env del s (Some ca) = Inr s'"
    "clients s' = (clients s)(ca := None)" "users s' = (users s)(ua := None)"
    "user_ht s' = fst (server_ght_del (user_ht s) (id_key (user_id u)))"
    "sessions s' = (sessions s)(sa \<mapsto> x\<lparr>ses_timerfd := fd\<rparr>)" "session_ht s' = session_ht s"
    "timer_armed s' fd ea ta TIMER_CLIENT_SESSION sa" "server_get_event s' fd = Some ea"
    "running s'" "os_calls s' = os_calls s + 3"
proof -
  let ?s1 = "s\<lparr>client_ht := fst (server_ght_del (client_ht s) (fd_key (sock c)))\<rparr>"
  have "sessions ?s1 sa = Some x" "running ?s1" "os_timerfd_create env (os_calls ?s1) = fd" "fd_free ?s1 fd"
    "os_timerfd_settime env (Suc (os_calls ?s1)) \<noteq> -1" "os_epoll_add env (Suc (Suc (os_calls ?s1))) \<noteq> -1"
    using x fd set add by (simp_all add: fd_free_def server_get_event_def)
  then obtain s2 ea ta where s2: "expire_session env del sa ?s1 = Inr s2"
    "sessions s2 = (sessions s)(sa \<mapsto> x\<lparr>ses_timerfd := fd\<rparr>)"
    "timer_armed s2 fd ea ta TIMER_CLIENT_SESSION sa" "server_get_event s2 fd = Some ea" "running s2"
    "session_ht s2 = session_ht s" "user_ht s2 = user_ht s" "clients s2 = clients s" "users s2 = users s"
    "os_calls s2 = os_calls s + 3"
    using expire_session_ok [of ?s1 sa x env fd del] x(2) fd(2) by auto
  define s' where "s' = (close_fd (sock c) (s2\<lparr>user_ht := fst (server_ght_del (user_ht s2) (id_key (user_id u))),
      users := (users s2)(ua := None)\<rparr>))\<lparr>clients := (clients s2)(ca := None)\<rparr>"
  have "server_free_client env del s (Some ca) = Inr s'"
    using c s2 by (simp add: server_free_client_def free_dbuser_def s'_def close_fd_def)
  then show thesis
    by (rule that [of s' ea ta])
      (use s2 in \<open>simp_all add: s'_def close_fd_def timer_armed_def server_get_event_def\<close>)
qed

text \<open>A login by session, whose query found the user, while the timer of the session is armed.\<close>

lemma session_login_ok:
  assumes ctx: "cmd_ret ctx = DB_ASYNC_OK" "cmd_param ctx = Some (Param_session sa)"
      "cmd_data ctx = Some (Data_user ub)" "cmd_client ctx = Some cb"
    and b: "users s ub = Some v" "clients s cb = Some d"
    and ht: "server_get_client_user_id s (id_key (user_id v)) = None" "ght_ok (user_ht s)"
      "ght_room_for (user_ht s) 1" "id_key (user_id v) \<noteq> 0"
    and x: "sessions s sa = Some x" "ses_timerfd x = fd" "fd \<noteq> 0"
    and armed: "timer_armed s fd ea ta TIMER_CLIENT_SESSION sa" "server_get_event s fd = Some ea" "running s"
  shows "\<exists>t. do_client_login_session env s ctx = Inr (t, ctx\<lparr>cmd_data := None\<rparr>, None) \<and>
    logged_in_as t cb ub (user_id v) \<and> sessions t = (sessions s)(sa \<mapsto> x\<lparr>ses_timerfd := 0\<rparr>) \<and>
    session_ht t = session_ht s \<and> events t ea = None \<and> timers t ta = None"
proof -
  have "\<And>sb. Some sa = Some sb \<Longrightarrow> sessions s sb \<noteq> None" using x(1) by simp
  then obtain c' where c': "server_set_client_logged_in env s (Some cb) (Some ub) (Some sa) =
       bindR (stop_session_timer env (Some sa) ((put_client cb c' s)
           \<lparr>user_ht := fst (server_ght_insert (user_ht s) (id_key (user_id v)) (Some cb))\<rparr>)) (\<lambda>s4. Inr (s4, None))"
    "server_ght_get (fst (server_ght_insert (user_ht s) (id_key (user_id v)) (Some cb))) =
       (server_ght_get (user_ht s))(id_key (user_id v) \<mapsto> cb)"
    "dbuser c' = Some ub" "cerr c' = CLIENT_ERR_SSL \<or> has_state c' CLIENT_STATE_LOGGED_IN"
    by (rule set_logged_in_core [OF b(1) ht(1) b(2) ht(2-4)])
  let ?s = "(put_client cb c' s)
     \<lparr>user_ht := fst (server_ght_insert (user_ht s) (id_key (user_id v)) (Some cb))\<rparr>"
  let ?t = "put_session sa (x\<lparr>ses_timerfd := 0\<rparr>) (timer_gone ?s fd ea ta)"
  have "stop_session_timer env (Some sa) ?s = Inr ?t"
    by (rule stop_timer_armed)
      (use x armed in \<open>simp_all add: timer_armed_def server_get_event_def\<close>)
  then have "do_client_login_session env s ctx = Inr (?t, ctx\<lparr>cmd_data := None\<rparr>, None)"
    using ctx c'(1) by (simp add: do_client_login_session_def db_consts)
  moreover have "logged_in_as ?t cb ub (user_id v)"
    using c' by (auto simp: logged_in_as_def server_get_client_user_id_def timer_gone_def put_session_def)
  ultimately show ?thesis
    by (intro exI [of _ ?t]) (simp add: timer_gone_def put_session_def)
qed

text \<open>
  C32. A session survives its client. When a client that is logged in with a session is freed, the
  client and its user object go, the session stays in its table and its expiry timer is armed. Then
  either epoll reports the timer, and processing its event releases the session, its table entry
  and the timer; or another connection logs in by that session (\<open>ctx\<close> is its query, which found
  the same user): that stops the timer, frees it with its event, and leaves the session as it was.
\<close>

theorem session_survives_client:
  assumes "clients s ca = Some c" "session c = Some sa" "dbuser c = Some ua" "users s ua = Some u"
    and "sessions s sa = Some x" "ses_timerfd x = 0" "running s"
    and "os_timerfd_create env (os_calls s) = fd" "fd \<noteq> -1" "fd_free s fd"
    and "os_timerfd_settime env (Suc (os_calls s)) \<noteq> -1"
    and "os_epoll_add env (Suc (Suc (os_calls s))) \<noteq> -1"
    and "fd \<noteq> 0" "rd se_timer_read_cb = se_timer_read env" "os_timer_read env (os_calls s + 3) = Some n"
    and "ght_ok (session_ht s)" "id_key (session_id x) \<noteq> 0" "server_get_user_session s (session_id x) = Some sa"
    and "ght_ok (user_ht s)" "ght_room_for (user_ht s) 1" "id_key (user_id u) \<noteq> 0"
      "server_get_client_user_id s (id_key (user_id u)) = Some ca"
    and "cmd_ret ctx = DB_ASYNC_OK" "cmd_param ctx = Some (Param_session sa)"
      "cmd_data ctx = Some (Data_user ub)" "cmd_client ctx = Some cb"
    and "users s ub = Some v" "user_id v = user_id u" "ub \<noteq> ua" "clients s cb = Some d" "cb \<noteq> ca"
  shows "\<exists>s' ea ta. server_free_client env del s (Some ca) = Inr s' \<and>
    clients s' ca = None \<and> users s' ua = None \<and>
    sessions s' = (sessions s)(sa \<mapsto> x\<lparr>ses_timerfd := fd\<rparr>) \<and>
    server_get_user_session s' (session_id x) = Some sa \<and>
    timer_armed s' fd ea ta TIMER_CLIENT_SESSION sa \<and>
    (\<exists>t. server_process_event env rd err (reported s' ea EPOLLIN) ea = Inr t \<and>
       sessions t sa = None \<and> server_get_user_session t (session_id x) = None \<and>
       events t ea = None \<and> timers t ta = None) \<and>
    (\<exists>t. do_client_login_session env s' ctx = Inr (t, ctx\<lparr>cmd_data := None\<rparr>, None) \<and>
       logged_in_as t cb ub (user_id u) \<and> sessions t = sessions s \<and>
       server_get_user_session t (session_id x) = Some sa \<and>
       events t ea = None \<and> timers t ta = None)"
proof -
  let ?x = "x\<lparr>ses_timerfd := fd\<rparr>"
  obtain s' ea ta where s': "server_free_client env del s (Some ca) = Inr s'"
    "clients s' = (clients s)(ca := None)" "users s' = (users s)(ua := None)"
    "user_ht s' = fst (server_ght_del (user_ht s) (id_key (user_id u)))"
    "sessions s' = (sessions s)(sa \<mapsto> ?x)" "session_ht s' = session_ht s"
    "timer_armed s' fd ea ta TIMER_CLIENT_SESSION sa" "server_get_event s' fd = Some ea"
    "running s'" "os_calls s' = os_calls s + 3"
    by (rule free_session_client [OF assms(1-12), of del])
  let ?w = "reported s' ea EPOLLIN"
  let ?t = "timer_gone (session_gone (?w\<lparr>os_calls := Suc (os_calls ?w)\<rparr>) sa ?x) fd ea ta"
  have ev: "events s' ea \<noteq> None" using s'(7) by (auto simp: timer_armed_def)
  have fires: "server_process_event env rd err ?w ea = Inr ?t"
    by (rule process_session_timer) (use s' ev assms(14,15) in simp_all)
  have "server_ght_get (fst (server_ght_del (session_ht s) (id_key (session_id x)))) (id_key (session_id x)) = None"
    using del_get [OF assms(16,17), of sa] assms(18) by (simp add: server_get_user_session_def)
  then have gone: "server_get_user_session ?t (session_id x) = None" "sessions ?t sa = None"
    "events ?t ea = None" "timers ?t ta = None"
    using ev s'(6) by (simp_all add: gone_defs server_get_user_session_def)
  have "server_ght_get (user_ht s) (id_key (user_id u)) = Some ca"
    using assms(22) by (simp add: server_get_client_user_id_def)
  from ght.del_present [OF assms(19,21) this assms(20)]
  have ht: "server_get_client_user_id s' (id_key (user_id v)) = None" "ght_ok (user_ht s')"
    "ght_room_for (user_ht s') 1" using assms(28) s'(4) by (auto simp: server_get_client_user_id_def)
  have v: "users s' ub = Some v" "clients s' cb = Some d" "id_key (user_id v) \<noteq> 0"
    using s'(2,3) assms(21,27-31) by simp_all
  have x': "sessions s' sa = Some ?x" "ses_timerfd ?x = fd" using s'(5) by simp_all
  obtain t where t: "do_client_login_session env s' ctx = Inr (t, ctx\<lparr>cmd_data := None\<rparr>, None)"
    "logged_in_as t cb ub (user_id v)" "sessions t = (sessions s')(sa \<mapsto> ?x\<lparr>ses_timerfd := 0\<rparr>)"
    "session_ht t = session_ht s'" "events t ea = None" "timers t ta = None"
    using session_login_ok [OF assms(23-26) v(1,2) ht v(3) x' assms(13) s'(7,8,9), of env] by blast
  have "sessions t = sessions s"
  proof -
    have "?x\<lparr>ses_timerfd := 0\<rparr> = x" using assms(6) by simp
    then show ?thesis using t(3) s'(5) assms(5) by (auto simp: fun_upd_idem)
  qed
  then have login: "\<exists>t. do_client_login_session env s' ctx = Inr (t, ctx\<lparr>cmd_data := None\<rparr>, None) \<and>
       logged_in_as t cb ub (user_id u) \<and> sessions t = sessions s \<and>
       server_get_user_session t (session_id x) = Some sa \<and> events t ea = None \<and> timers t ta = None"
    using t assms(18,28) s'(6) by (auto simp: server_get_user_session_def)
  have expiry: "\<exists>t. server_process_event env rd err ?w ea = Inr t \<and>
       sessions t sa = None \<and> server_get_user_session t (session_id x) = None \<and>
       events t ea = None \<and> timers t ta = None"
    using fires gone by blast
  have kept: "clients s' ca = None" "users s' ua = None" "server_get_user_session s' (session_id x) = Some sa"
    using s'(2,3,6) assms(18) by (simp_all add: server_get_user_session_def)
  show ?thesis using s'(1) kept s'(5,7) expiry login by blast
qed

definition demo_session :: user_session where
  "demo_session = \<lparr>session_id = 42, ses_user_id = 5, ses_timerfd = 0\<rparr>"

definition demo_session_server :: chat_server where
  "demo_session_server = server_start\<lparr>sessions := [3 \<mapsto> demo_session],
     session_ht := fst (server_ght_insert (empty_table 10) 42 (Some 3)),
     clients := [4 \<mapsto> (client_zero 7 (\<lambda>k. 1))\<lparr>dbuser := Some 6, session := Some 3\<rparr>, 8 \<mapsto> client_zero 10 (\<lambda>k. 1)],
     users := [6 \<mapsto> demo_user, 9 \<mapsto> demo_user],
     user_ht := fst (server_ght_insert (empty_table 10) 5 (Some 4)), next_addr := 11\<rparr>"

lemma session_survives_client_witness:
  "\<exists>s' ea. server_free_client demo_env (del_event demo_env) demo_session_server (Some 4) = Inr s' \<and>
    sessions s' 3 = Some (demo_session\<lparr>ses_timerfd := 9\<rparr>) \<and>
    (\<exists>t. server_process_event demo_env (\<lambda>cb. se_timer_read demo_env) 0 (reported s' ea EPOLLIN) ea = Inr t \<and>
       sessions t 3 = None)"
proof -
  let ?s = demo_session_server
  let ?ctx = "cmd_zero\<lparr>cmd_ret := DB_ASYNC_OK, cmd_client := Some 8, cmd_data := Some (Data_user 9),
     cmd_param := Some (Param_session 3)\<rparr> :: chat_dbcmd"
  have k: "id_key 42 = 42" "id_key 5 = 5" "(42 :: u64) \<noteq> 0" "(5 :: u64) \<noteq> 0" by (simp_all add: id_key_def)
  have e: "ght_ok (empty_table 10 :: nat server_ght)" "server_ght_get (empty_table 10 :: nat server_ght) = Map.empty"
    "ght_room_for (empty_table 10 :: nat server_ght) (Suc (Suc 0))"
    by (simp_all add: empty_table_ok)
  note ses = insert_get [OF e(1) k(3) _ e(3), of 3] and usr = insert_get [OF e(1) k(4) _ e(3), of 4]
  have s: "clients ?s 4 = Some ((client_zero 7 (\<lambda>k. 1))\<lparr>dbuser := Some 6, session := Some 3\<rparr>)"
    "session ((client_zero 7 (\<lambda>k. 1))\<lparr>dbuser := Some 6, session := Some 3\<rparr>) = Some 3"
    "dbuser ((client_zero 7 (\<lambda>k. 1))\<lparr>dbuser := Some 6, session := Some 3\<rparr>) = Some 6"
    "users ?s 6 = Some demo_user" "sessions ?s 3 = Some demo_session" "ses_timerfd demo_session = 0" "running ?s"
    "os_timerfd_create demo_env (os_calls ?s) = 9" "(9::int) \<noteq> -1" "fd_free ?s 9"
    "os_timerfd_settime demo_env (Suc (os_calls ?s)) \<noteq> -1" "os_epoll_add demo_env (Suc (Suc (os_calls ?s))) \<noteq> -1"
    "(9::int) \<noteq> 0" "(\<lambda>cb. se_timer_read demo_env) se_timer_read_cb = se_timer_read demo_env"
    "os_timer_read demo_env (os_calls ?s + 3) = Some 1"
    using server_start_ok(3,4)
    by (simp_all add: demo_session_server_def demo_session_def demo_env_def fd_free_def server_get_event_def)
  have h: "ght_ok (session_ht ?s)" "id_key (session_id demo_session) \<noteq> 0"
    "server_get_user_session ?s (session_id demo_session) = Some 3"
    "ght_ok (user_ht ?s)" "ght_room_for (user_ht ?s) 1" "id_key (user_id demo_user) \<noteq> 0"
    "server_get_client_user_id ?s (id_key (user_id demo_user)) = Some 4"
    using ses usr e(2) k
    by (simp_all add: demo_session_server_def demo_session_def demo_user_def server_get_user_session_def
        server_get_client_user_id_def)
  have c: "cmd_ret ?ctx = DB_ASYNC_OK" "cmd_param ?ctx = Some (Param_session 3)"
    "cmd_data ?ctx = Some (Data_user 9)" "cmd_client ?ctx = Some 8"
    "users ?s 9 = Some demo_user" "user_id demo_user = user_id demo_user" "(9::nat) \<noteq> 6"
    "clients ?s 8 = Some (client_zero 10 (\<lambda>k. 1))" "(8::nat) \<noteq> 4"
    by (simp_all add: demo_session_server_def)
  from session_survives_client [where rd = "\<lambda>cb. se_timer_read demo_env", OF s h c, of "del_event demo_env" 0]
  show ?thesis by (metis fun_upd_same)
qed

text \<open>
  Nothing keeps a logged-in client from logging in as another user. The client's \<^verbatim>\<open>dbuser\<close>
  is replaced, so that when the client is freed only the entry of the second user is removed:
  the table of users goes on mapping the first user to the freed client, and the next message
  for that user reads it.
\<close>

theorem relogin_leaves_dangling_entry:
  assumes "users s ua = Some u" "server_get_client_user_id s (id_key (user_id u)) = None"
    and "clients s ca = Some c" "session c = None"
    and "ght_ok (user_ht s)" "ght_room_for (user_ht s) 1" "id_key (user_id u) \<noteq> 0"
    and "server_get_client_user_id s (id_key first) = Some ca"
    and "del_safe (fst (server_ght_insert (user_ht s) (id_key (user_id u)) (Some ca))) (id_key (user_id u))"
  shows "\<exists>s' s''. server_set_client_logged_in env s (Some ca) (Some ua) None = Inr (s', None) \<and>
    server_free_client env del s' (Some ca) = Inr s'' \<and> clients s'' ca = None \<and>
    server_get_client_user_id s'' (id_key first) = Some ca \<and>
    send_to_users env msg (first # rest) s'' = Inl Use_after_free"
proof -
  let ?k = "id_key (user_id u)"
  obtain s' c' where s': "server_set_client_logged_in env s (Some ca) (Some ua) None = Inr (s', None)"
    "logged_in_as s' ca ua (user_id u)" "users s' = users s"
    "server_ght_get (user_ht s') = (server_ght_get (user_ht s))(?k \<mapsto> ca)" "ght_ok (user_ht s')"
    "user_ht s' = fst (server_ght_insert (user_ht s) ?k (Some ca))"
    "clients s' ca = Some c'" "session c' = None"
    using set_logged_in_ok [OF assms(1,2,3,5,6,7), of env] assms(4) by auto
  have c': "dbuser c' = Some ua" using s'(2,7) by (simp add: logged_in_as_def)
  define s'' where "s'' = (close_fd (sock c') (s'\<lparr>client_ht := fst (server_ght_del (client_ht s') (fd_key (sock c'))),
     user_ht := fst (server_ght_del (user_ht s') ?k), users := (users s')(ua := None)\<rparr>))\<lparr>clients := (clients s')(ca := None)\<rparr>"
  have f: "server_free_client env del s' (Some ca) = Inr s''"
    using s'(3,7,8) c' assms(1)
    by (simp add: server_free_client_def free_dbuser_def s''_def close_fd_def)
  have "server_ght_get (fst (server_ght_del (user_ht s') ?k)) = (server_ght_get (user_ht s'))(?k := None)"
    using ght_exact.del_safe [OF s'(5) assms(7), of ca] assms(9) s'(4,6) by simp
  moreover have "id_key first \<noteq> ?k" using assms(2,8) by auto
  ultimately have g: "server_get_client_user_id s'' (id_key first) = Some ca"
    using assms(8) s'(4) by (simp add: s''_def server_get_client_user_id_def close_fd_def)
  then have "send_to_users env msg (first # rest) s'' = Inl Use_after_free"
    by (simp add: ws_json_send_def s''_def)
  then show ?thesis using s'(1) f g by (intro exI [of _ s'] exI [of _ s'']) (simp add: s''_def)
qed

lemma check_load_ignored: "ignore_resize ht \<Longrightarrow> ght_check_load ht = ht"
  by (simp add: ght_check_load_def ght_resize_def Let_def)

definition fixed_table :: "nat server_ght" where
  "fixed_table = (empty_table 10)\<lparr>ignore_resize := True\<rparr>"

lemma fixed_table_ok:
  "ght_ok fixed_table" "server_ght_get fixed_table = Map.empty" "ght_room_for fixed_table (Suc (Suc 0))"
proof -
  show "ght_ok fixed_table"
    using empty_table_ok(1) [of 10] by (simp add: fixed_table_def ght_ok_def live_count_def all_buckets_def)
  have "server_ght_get fixed_table = server_ght_get (empty_table 10)"
    by (rule ext) (simp add: server_ght_get_def ght_hash_def fixed_table_def)
  then show "server_ght_get fixed_table = Map.empty" by (simp add: empty_table_ok)
  show "ght_room_for fixed_table (Suc (Suc 0))"
    using empty_table_ok(3) [of 10] by (simp add: ght_room_for_def fixed_table_def)
qed

definition demo_relogin :: chat_server where
  "demo_relogin = demo_login_server\<lparr>clients := [4 \<mapsto> (client_zero 7 (\<lambda>k. 1))\<lparr>dbuser := Some 8\<rparr>],
     user_ht := fst (server_ght_insert fixed_table 3 (Some 4))\<rparr>"

lemma relogin_leaves_dangling_entry_witness:
  "\<exists>s' s''. server_set_client_logged_in demo_env demo_relogin (Some 4) (Some 6) None = Inr (s', None) \<and>
     server_free_client demo_env (del_event demo_env) s' (Some 4) = Inr s'' \<and>
     send_to_users demo_env (JObject []) [3] s'' = Inl Use_after_free"
proof -
  have ins: "ght_ok (user_ht demo_relogin)" "server_ght_get (user_ht demo_relogin) = [3 \<mapsto> 4]"
    "ght_room_for (user_ht demo_relogin) 1"
    using insert_get [OF fixed_table_ok(1) _ _ fixed_table_ok(3), of 3 4]
    by (simp_all add: demo_relogin_def fixed_table_ok)
  have safe: "del_safe (fst (server_ght_insert (fst (server_ght_insert fixed_table 3 (Some 4))) 5 (Some 4))) 5"
    by (simp add: fixed_table_def empty_table_def server_ght_init_def server_ght_insert_def
        ght_insert_def ght_hash_def set_slot_def ght_inc_def ght_calc_load_def check_load_ignored
        Let_def empty_slot_def empty_bucket_def del_safe_def)
  have p: "users demo_relogin 6 = Some demo_user"
    "server_get_client_user_id demo_relogin (id_key (user_id demo_user)) = None"
    "clients demo_relogin 4 = Some ((client_zero 7 (\<lambda>k. 1))\<lparr>dbuser := Some 8\<rparr>)"
    "session ((client_zero 7 (\<lambda>k. 1))\<lparr>dbuser := Some 8\<rparr>) = None"
    "id_key (user_id demo_user) \<noteq> 0" "server_get_client_user_id demo_relogin (id_key 3) = Some 4"
    using ins(2)
    by (simp_all add: server_get_client_user_id_def id_key_def demo_user_def client_zero_def)
      (simp_all add: demo_relogin_def demo_login_server_def demo_user_def client_zero_def)
  have "del_safe (fst (server_ght_insert (user_ht demo_relogin) (id_key (user_id demo_user)) (Some 4)))
      (id_key (user_id demo_user))"
    using safe by (simp add: demo_relogin_def demo_user_def id_key_def)
  from relogin_leaves_dangling_entry [OF p(1-4) ins(1,3) p(5,6) this, of demo_env "del_event demo_env" "JObject []" "[]"]
  show ?thesis by blast
qed

end
