(* ===== verification/User_File.thy ===== *)
theory User_File
  imports Server_Events
begin

text \<open>
  Uploaded files: \<^verbatim>\<open>server/src/chat/user_file.c\<close> and its queries in
  \<^verbatim>\<open>server/src/chat/db_userfile.c\<close>. A file is stored once under its hash; the database counts
  the references. Saving and deleting send two commands, the change of the count and a query of
  it, and the callback of the first looks at the result of the second. The file system is the map
  \<open>files\<close> from paths to contents; libmagic and SHA-256 are parameters.
\<close>

section \<open>Queries\<close>

definition insert_userfiles_result :: "pg_status \<Rightarrow> chat_dbcmd \<Rightarrow> chat_dbcmd" where
  "insert_userfiles_result status ctx =
     ctx\<lparr>cmd_ret := (if status = PGRES_COMMAND_OK then DB_ASYNC_OK else DB_ASYNC_ERROR)\<rparr>"

definition delete_userfile_result :: "pg_status \<Rightarrow> chat_dbcmd \<Rightarrow> chat_dbcmd" where
  "delete_userfile_result status ctx =
     ctx\<lparr>cmd_ret := (if status = PGRES_COMMAND_OK then DB_ASYNC_OK else DB_ASYNC_ERROR)\<rparr>"

definition userfile_refcount_result :: "string list list \<Rightarrow> pg_status \<Rightarrow> chat_dbcmd \<Rightarrow> chat_dbcmd" where
  "userfile_refcount_result res status ctx =
     (if status = PGRES_TUPLES_OK then
        ctx\<lparr>cmd_data_size := (case PQgetvalue res 0 0 of None \<Rightarrow> 0 | Some x \<Rightarrow> sint (atoi x)),
            cmd_ret := DB_ASYNC_OK\<rparr>
      else ctx\<lparr>cmd_ret := DB_ASYNC_ERROR\<rparr>)"

definition db_async_insert_userfile :: "chat_db \<Rightarrow> db_user_file \<Rightarrow> chat_dbcmd \<Rightarrow> chat_db \<times> chat_dbcmd \<times> bool" where
  "db_async_insert_userfile db file ctx =
     (let ctx' = ctx\<lparr>cmd_exec_res := Some insert_userfiles_result_cb, cmd_data := Some (Data_file file)\<rparr>;
          (db', ret) = db_async_params db ''insert_userfiles.sql''
             [Some (file_hash file), Some (dec_digits (file_size file)), Some (file_mime_type file)]
             (Some ctx')
      in (db', ctx', ret = 1))"

definition db_async_delete_userfile :: "chat_db \<Rightarrow> string \<Rightarrow> chat_dbcmd \<Rightarrow> chat_db \<times> chat_dbcmd \<times> bool" where
  "db_async_delete_userfile db hash ctx =
     (let ctx' = ctx\<lparr>cmd_exec_res := Some delete_userfile_result_cb\<rparr>;
          (db', ret) = db_async_params db
             ''UPDATE UserFiles SET ref_count = ref_count  - 1 WHERE hash = $1::text;''
             [Some hash] (Some ctx')
      in (db', ctx', ret = 1))"

definition db_async_userfile_refcount :: "chat_db \<Rightarrow> string \<Rightarrow> chat_dbcmd \<Rightarrow> chat_db \<times> bool" where
  "db_async_userfile_refcount db hash ctx =
     (let (db', ret) = db_async_params db ''SELECT ref_count FROM UserFiles WHERE hash = $1::text;''
             [Some hash] (Some (ctx\<lparr>cmd_exec_res := Some userfile_refcount_result_cb\<rparr>))
      in (db', ret = 1))"

section \<open>The file system\<close>

definition contains_str :: "string \<Rightarrow> string \<Rightarrow> bool" where
  "contains_str s t \<longleftrightarrow> find_sub s t \<noteq> None"

definition server_mime_type_dir :: "chat_env \<Rightarrow> string \<Rightarrow> string" where
  "server_mime_type_dir env mime =
     (if contains_str mime ''image/'' then img_dir env
      else if contains_str mime ''video/'' then vid_dir env else file_dir env)"

definition file_path :: "string \<Rightarrow> string \<Rightarrow> string" where
  "file_path dir name = take 4095 (dir @ ''/'' @ name)"

text \<open>\<^verbatim>\<open>server_read_file\<close>: at most \<open>sz\<close> bytes; \<open>None\<close> is an error of \<^verbatim>\<open>open\<close> or \<^verbatim>\<open>read\<close>.\<close>

definition server_read_file :: "chat_env \<Rightarrow> chat_server \<Rightarrow> nat \<Rightarrow> string \<Rightarrow> string \<Rightarrow> chat_server \<times> string option" where
  "server_read_file env s sz dir name =
     (let (s1, ok) = os_call (os_file env) s
      in (s1, if ok then map_option (take sz) (files s1 (file_path dir name)) else None))"

text \<open>
  \<^verbatim>\<open>server_write_file\<close> opens without \<^verbatim>\<open>O_TRUNC\<close>: what an old file has behind the new data
  stays. A file whose write fails has been created already.
\<close>

definition server_write_file ::
  "chat_env \<Rightarrow> chat_server \<Rightarrow> string \<Rightarrow> nat \<Rightarrow> string \<Rightarrow> string \<Rightarrow> chat_server \<times> bool" where
  "server_write_file env s data sz dir name =
     (let (s1, opened) = os_call (os_file env) s;
          path = file_path dir name;
          old = (case files s1 path of None \<Rightarrow> [] | Some x \<Rightarrow> x)
      in if opened then
           (let (s2, written) = os_call (os_file env) s1
            in if written then (s2\<lparr>files := (files s2)(path \<mapsto> take sz data @ drop sz old)\<rparr>, True)
               else (s2\<lparr>files := (files s2)(path \<mapsto> old)\<rparr>, False))
         else (s1, False))"

section \<open>Saving and deleting\<close>

text \<open>\<open>rest\<close> are the commands behind \<open>ctx\<close> in its chain, the first of them \<^verbatim>\<open>ctx->next\<close>.\<close>

definition do_save_file_img ::
  "chat_env \<Rightarrow> chat_server \<Rightarrow> chat_dbcmd \<Rightarrow> chat_dbcmd list \<Rightarrow> (chat_server \<times> chat_dbcmd \<times> string option) res" where
  "do_save_file_img env s ctx rest =
     (case rest of
        [] \<Rightarrow> Inr (s, ctx, Some ''Internal error'')
      | refcount_ctx # _ \<Rightarrow>
          if cmd_ret ctx = DB_ASYNC_ERROR then Inr (s, ctx, Some ''Failed to save image'')
          else (case (cmd_data ctx, cmd_param ctx) of
                  (Some (Data_file file), Some (Param_str (Some data))) \<Rightarrow>
                    Inr (if cmd_data_size refcount_ctx = 1
                         then fst (server_write_file env s data (file_size file) (img_dir env) (file_hash file))
                         else s, ctx, None)
                | _ \<Rightarrow> Inl Null_dereference))"

definition img_file :: "chat_env \<Rightarrow> string \<Rightarrow> string \<Rightarrow> db_user_file" where
  "img_file env data mime =
     \<lparr>file_hash = sha256_hex env data, file_name = [], file_mime_type = take DB_MIME_TYPE_LEN mime,
      file_size = length data\<rparr>"

definition server_save_file_img ::
  "chat_env \<Rightarrow> chat_server \<Rightarrow> string \<Rightarrow> bool \<Rightarrow> chat_server \<times> db_user_file option" where
  "server_save_file_img env s data free_file =
     (case mime_of env data of
        None \<Rightarrow> (s, None)
      | Some mime \<Rightarrow>
          if \<not> contains_str mime ''image/'' then (s, None)
          else
            (let file = img_file env data mime;
                 ctx = cmd_zero\<lparr>cmd_exec := Some do_save_file_img_cb, cmd_param := Some (Param_str (Some data)),
                         cmd_data := Some (Data_file file),
                         cmd_flags := (if free_file then 0 else DB_CTX_DONT_FREE)\<rparr>;
                 (db1, ctx1, ret1) = db_async_insert_userfile (ew_db s) file ctx
             in if ret1 then
                  (let (db2, ret2) = db_async_userfile_refcount db1 (file_hash file)
                                       (ctx1\<lparr>cmd_exec := None, cmd_data := None\<rparr>)
                   in (set_db db2 s, if ret2 then Some file else None))
                else (set_db db1 s, None)))"

definition server_get_file :: "chat_env \<Rightarrow> chat_server \<Rightarrow> db_user_file \<Rightarrow> chat_server \<times> string option \<times> db_user_file" where
  "server_get_file env s file =
     (let (s1, data) = server_read_file env s (file_size file) (server_mime_type_dir env (file_mime_type file))
                         (file_hash file)
      in (s1, data, case data of None \<Rightarrow> file | Some d \<Rightarrow> file\<lparr>file_size := length d\<rparr>))"

definition do_delete_file ::
  "chat_env \<Rightarrow> chat_server \<Rightarrow> chat_dbcmd \<Rightarrow> chat_dbcmd list \<Rightarrow> (chat_server \<times> chat_dbcmd \<times> string option) res" where
  "do_delete_file env s ctx rest =
     (case rest of
        [] \<Rightarrow> Inr (s, ctx, None)
      | ctx_next # _ \<Rightarrow>
          if cmd_ret ctx = DB_ASYNC_ERROR then Inr (s, ctx, None)
          else (case cmd_data ctx of
                  Some (Data_file file) \<Rightarrow>
                    Inr (if cmd_data_size ctx_next \<le> 0 then
                           (let (s1, ok) = os_call (os_file env) s;
                                path = file_path (server_mime_type_dir env (file_mime_type file)) (file_hash file)
                            in if ok then s1\<lparr>files := (files s1)(path := None)\<rparr> else s1)
                         else s, ctx, None)
                | _ \<Rightarrow> Inl Null_dereference))"

definition server_delete_file :: "chat_server \<Rightarrow> db_user_file \<Rightarrow> chat_server \<times> bool" where
  "server_delete_file s file =
     (let ctx = cmd_zero\<lparr>cmd_exec := Some do_delete_file_cb, cmd_data := Some (Data_file file)\<rparr>;
          (db1, ctx1, ret1) = db_async_delete_userfile (ew_db s) (file_hash file) ctx
      in if ret1 then
           (let (db2, ret2) = db_async_userfile_refcount db1 (file_hash file)
                                (ctx1\<lparr>cmd_exec := None, cmd_data := None\<rparr>)
            in (set_db db2 s, ret2))
         else (set_db db1 s, False))"

section \<open>The table of files\<close>

text \<open>
  What the commands do to the rows of \<^verbatim>\<open>UserFiles\<close>: \<^verbatim>\<open>server/sql/insert_userfiles.sql\<close>
  adds a row with one reference or a reference to the row, the update of
  \<^verbatim>\<open>db_async_delete_userfile\<close> takes one away, and the trigger of
  \<^verbatim>\<open>server/sql/schema.sql\<close> deletes a row without references. A round is one call of the
  server with the results of its two commands and the callback at the end of the chain.
\<close>

type_synonym userfiles = "string \<rightharpoonup> nat"

definition userfiles_insert :: "userfiles \<Rightarrow> string \<Rightarrow> userfiles" where
  "userfiles_insert t h = t(h \<mapsto> (case t h of None \<Rightarrow> 1 | Some n \<Rightarrow> n + 1))"

definition userfiles_release :: "userfiles \<Rightarrow> string \<Rightarrow> userfiles" where
  "userfiles_release t h =
     (case t h of None \<Rightarrow> t | Some n \<Rightarrow> if n \<le> 1 then t(h := None) else t(h \<mapsto> n - 1))"

definition userfiles_count :: "userfiles \<Rightarrow> string \<Rightarrow> string list list" where
  "userfiles_count t h = (case t h of None \<Rightarrow> [] | Some n \<Rightarrow> [[dec_digits n]])"

definition save_round ::
  "chat_env \<Rightarrow> pg_status \<Rightarrow> userfiles \<times> chat_server \<Rightarrow> string \<Rightarrow> (userfiles \<times> chat_server) res" where
  "save_round env st ts data =
     (case server_save_file_img env (snd ts) data True of
        (s1, None) \<Rightarrow> Inr (fst ts, s1)
      | (s1, Some file) \<Rightarrow>
          (let t1 = userfiles_insert (fst ts) (file_hash file)
           in case drop (length (ctx_chain (ew_db (snd ts)))) (ctx_chain (ew_db s1)) of
                [c1, c2] \<Rightarrow>
                  bindR (do_save_file_img env s1 (insert_userfiles_result PGRES_COMMAND_OK c1)
                           [userfile_refcount_result (userfiles_count t1 (file_hash file)) st c2])
                    (\<lambda>(s2, c, msg). Inr (t1, s2))
              | _ \<Rightarrow> Inl Null_dereference))"

definition delete_round ::
  "chat_env \<Rightarrow> pg_status \<Rightarrow> userfiles \<times> chat_server \<Rightarrow> db_user_file \<Rightarrow> (userfiles \<times> chat_server) res" where
  "delete_round env st ts file =
     (case server_delete_file (snd ts) file of
        (s1, False) \<Rightarrow> Inr (fst ts, s1)
      | (s1, True) \<Rightarrow>
          (let t1 = userfiles_release (fst ts) (file_hash file)
           in case drop (length (ctx_chain (ew_db (snd ts)))) (ctx_chain (ew_db s1)) of
                [c1, c2] \<Rightarrow>
                  bindR (do_delete_file env s1 (delete_userfile_result PGRES_COMMAND_OK c1)
                           [userfile_refcount_result (userfiles_count t1 (file_hash file)) st c2])
                    (\<lambda>(s2, c, msg). Inr (t1, s2))
              | _ \<Rightarrow> Inl Null_dereference))"

text \<open>
  The states that rounds with working queries reach from an empty store. The count is an SQL
  \<^verbatim>\<open>int\<close>, which cannot pass \<open>2 ^ 31 - 1\<close>.
\<close>

inductive file_store :: "chat_env \<Rightarrow> userfiles \<times> chat_server \<Rightarrow> bool" for env where
  empty: "files s = Map.empty \<Longrightarrow> (\<And>k. pq_send (ew_db s) k = 1) \<Longrightarrow> file_store env (Map.empty, s)"
| save: "file_store env ts \<Longrightarrow> save_round env PGRES_TUPLES_OK ts data = Inr ts' \<Longrightarrow>
    (\<And>h n. fst ts' h = Some n \<Longrightarrow> n < 2 ^ 31) \<Longrightarrow> file_store env ts'"
| delete: "file_store env ts \<Longrightarrow> contains_str (file_mime_type file) ''image/'' \<Longrightarrow>
    length (file_hash file) = 64 \<Longrightarrow>
    delete_round env PGRES_TUPLES_OK ts file = Inr ts' \<Longrightarrow> file_store env ts'"

section \<open>Files and references\<close>

lemma atoi_dec_digits:
  assumes "n < 2 ^ 31"
  shows "sint (atoi (dec_digits n)) = int n"
proof -
  obtain c cs where c: "dec_digits n = c # cs" using dec_digits_ne by (cases "dec_digits n") auto
  then obtain d :: nat where d: "d < 10" "c = char_of (48 + d)" using dec_digits_all [of c n] by auto
  have all: "takeWhile (\<lambda>c. digit_val c < 10) (dec_digits n) = dec_digits n"
    by (rule takeWhile_eq_all_conv [THEN iffD2]) (use dec_digits_all digit_char(1) in fastforce)
  have "dropWhile is_space (dec_digits n) = dec_digits n" using c d digit_char(2) by simp
  then have "atoi (dec_digits n) = of_nat (min n (2 ^ 63 - 1))"
    using c d digit_char(3,4) [OF d(1)] all dec_digits_value [of n]
    by (simp add: atoi_def digits_of_def)
  then have "sint (atoi (dec_digits n)) = sint (word_of_int (int n) :: i32)" using assms by simp
  also have "\<dots> = int n" using assms by (simp add: signed_of_nat signed_of_int signed_take_bit_int_eq_self)
  finally show ?thesis .
qed

lemma db_async_params_ok:
  "pq_send db (length (pq_sent db)) = 1 \<Longrightarrow>
   db_async_params db q vals (Some c) =
     (db_pipeline_enqueue_current (db\<lparr>pq_sent := pq_sent db @ [(q, vals)]\<rparr>) c, 1)"
  by (simp add: db_async_params_def)

lemma enqueue_current_sel [simp]:
  "pq_send (db_pipeline_enqueue_current db c) = pq_send db"
  "pq_sent (db_pipeline_enqueue_current db c) = pq_sent db"
  "ctx_chain (db_pipeline_enqueue_current db c) =
     ctx_chain db @ [if cmd_client c = None then c\<lparr>cmd_client := ctx_client db\<rparr> else c]"
  "ctx_client (db_pipeline_enqueue_current db c) = ctx_client db"
  by (simp_all add: db_pipeline_enqueue_current_def)

lemma set_db_sel [simp]:
  "ew_db (set_db db s) = db" "files (set_db db s) = files s" "os_calls (set_db db s) = os_calls s"
  by (simp_all add: set_db_def)

lemma count_of_rows:
  assumes "t h = Some n" "n < 2 ^ 31"
  shows "cmd_data_size (userfile_refcount_result (userfiles_count t h) PGRES_TUPLES_OK c) = int n"
  using assms by (simp add: userfile_refcount_result_def userfiles_count_def PQgetvalue_def atoi_dec_digits)

lemma count_no_rows:
  "t h = None \<Longrightarrow> cmd_data_size (userfile_refcount_result (userfiles_count t h) PGRES_TUPLES_OK c) = 0"
  by (simp add: userfile_refcount_result_def userfiles_count_def PQgetvalue_def)

text \<open>What the two rounds come to when every query is sent.\<close>

lemma save_round_ok:
  assumes send: "\<And>k. pq_send (ew_db s) k = 1"
    and mime: "mime_of env data = Some m" "contains_str m ''image/''"
  obtains s1 c2 where
    "save_round env st (t, s) data =
       Inr (userfiles_insert t (sha256_hex env data),
            if cmd_data_size (userfile_refcount_result
                 (userfiles_count (userfiles_insert t (sha256_hex env data)) (sha256_hex env data)) st c2) = 1
            then fst (server_write_file env s1 data (length data) (img_dir env) (sha256_hex env data))
            else s1)"
    "files s1 = files s" "os_calls s1 = os_calls s" "pq_send (ew_db s1) = pq_send (ew_db s)"
    "cmd_data_size c2 = 0"
proof -
  let ?file = "img_file env data m"
  let ?h = "sha256_hex env data"
  let ?c = "cmd_zero\<lparr>cmd_exec := Some do_save_file_img_cb, cmd_param := Some (Param_str (Some data)),
              cmd_data := Some (Data_file ?file), cmd_flags := 0,
              cmd_exec_res := Some insert_userfiles_result_cb\<rparr> :: chat_dbcmd"
  let ?c' = "?c\<lparr>cmd_exec := None, cmd_data := None, cmd_exec_res := Some userfile_refcount_result_cb\<rparr>"
  obtain db1 where db1: "db_async_insert_userfile (ew_db s) ?file
        (cmd_zero\<lparr>cmd_exec := Some do_save_file_img_cb, cmd_param := Some (Param_str (Some data)),
              cmd_data := Some (Data_file ?file), cmd_flags := 0\<rparr>) = (db1, ?c, True)"
    "ctx_chain db1 = ctx_chain (ew_db s) @ [?c\<lparr>cmd_client := ctx_client (ew_db s)\<rparr>]"
    "pq_send db1 = pq_send (ew_db s)" "ctx_client db1 = ctx_client (ew_db s)"
    by (simp add: db_async_insert_userfile_def db_async_params_ok send cmd_zero_def Let_def)
  obtain db2 where db2: "db_async_userfile_refcount db1 ?h (?c\<lparr>cmd_exec := None, cmd_data := None\<rparr>) = (db2, True)"
    "ctx_chain db2 = ctx_chain db1 @ [?c'\<lparr>cmd_client := ctx_client (ew_db s)\<rparr>]"
    "pq_send db2 = pq_send (ew_db s)"
    by (simp add: db_async_userfile_refcount_def db_async_params_ok send db1 cmd_zero_def Let_def)
  have fl: "server_save_file_img env s data True = (set_db db2 s, Some ?file)" "file_hash ?file = ?h"
    "file_size ?file = length data"
    using db2(1) by (simp_all add: server_save_file_img_def mime db1(1) Let_def) (simp_all add: img_file_def)
  let ?c2 = "?c'\<lparr>cmd_client := ctx_client (ew_db s)\<rparr>"
  show thesis
  proof (rule that [of ?c2 "set_db db2 s"])
    show "save_round env st (t, s) data = Inr (userfiles_insert t ?h,
        if cmd_data_size (userfile_refcount_result (userfiles_count (userfiles_insert t ?h) ?h) st ?c2) = 1
        then fst (server_write_file env (set_db db2 s) data (length data) (img_dir env) ?h) else set_db db2 s)"
      by (simp add: save_round_def fl db1 db2 do_save_file_img_def insert_userfiles_result_def db_consts)
  qed (simp_all add: db2 cmd_zero_def)
qed

lemma delete_round_ok:
  assumes send: "\<And>k. pq_send (ew_db s) k = 1"
  obtains s1 c2 where
    "delete_round env st (t, s) file =
       Inr (userfiles_release t (file_hash file),
            if cmd_data_size (userfile_refcount_result
                 (userfiles_count (userfiles_release t (file_hash file)) (file_hash file)) st c2) \<le> 0
            then (if os_file env (os_calls s)
                  then s1\<lparr>files := (files s1)(file_path (server_mime_type_dir env (file_mime_type file))
                                       (file_hash file) := None), os_calls := Suc (os_calls s)\<rparr>
                  else s1\<lparr>os_calls := Suc (os_calls s)\<rparr>)
            else s1)"
    "files s1 = files s" "os_calls s1 = os_calls s" "pq_send (ew_db s1) = pq_send (ew_db s)"
    "cmd_data_size c2 = 0"
proof -
  let ?h = "file_hash file"
  let ?c = "cmd_zero\<lparr>cmd_exec := Some do_delete_file_cb, cmd_data := Some (Data_file file),
              cmd_exec_res := Some delete_userfile_result_cb\<rparr> :: chat_dbcmd"
  let ?c' = "?c\<lparr>cmd_exec := None, cmd_data := None, cmd_exec_res := Some userfile_refcount_result_cb\<rparr>"
  obtain db1 where db1: "db_async_delete_userfile (ew_db s) ?h
        (cmd_zero\<lparr>cmd_exec := Some do_delete_file_cb, cmd_data := Some (Data_file file)\<rparr>) = (db1, ?c, True)"
    "ctx_chain db1 = ctx_chain (ew_db s) @ [?c\<lparr>cmd_client := ctx_client (ew_db s)\<rparr>]"
    "pq_send db1 = pq_send (ew_db s)" "ctx_client db1 = ctx_client (ew_db s)"
    by (simp add: db_async_delete_userfile_def db_async_params_ok send cmd_zero_def Let_def)
  obtain db2 where db2: "db_async_userfile_refcount db1 ?h (?c\<lparr>cmd_exec := None, cmd_data := None\<rparr>) = (db2, True)"
    "ctx_chain db2 = ctx_chain db1 @ [?c'\<lparr>cmd_client := ctx_client (ew_db s)\<rparr>]"
    "pq_send db2 = pq_send (ew_db s)"
    by (simp add: db_async_userfile_refcount_def db_async_params_ok send db1 cmd_zero_def Let_def)
  have del: "server_delete_file s file = (set_db db2 s, True)"
    using db2(1) by (simp add: server_delete_file_def db1(1) Let_def)
  let ?c2 = "?c'\<lparr>cmd_client := ctx_client (ew_db s)\<rparr>"
  show thesis
    by (rule that [of ?c2 "set_db db2 s"])
      (simp_all add: delete_round_def del db1 db2 do_delete_file_def delete_userfile_result_def db_consts
         os_call_def Let_def cmd_zero_def)
qed

text \<open>The invariant: rows are positive counts of stored contents, and no row means no file.\<close>

definition store_ok :: "chat_env \<Rightarrow> userfiles \<times> chat_server \<Rightarrow> bool" where
  "store_ok env ts \<longleftrightarrow>
     (\<forall>k. pq_send (ew_db (snd ts)) k = 1) \<and>
     (\<forall>h n. fst ts h = Some n \<longrightarrow> 1 \<le> n \<and> n < 2 ^ 31 \<and>
        (\<exists>data. sha256_hex env data = h \<and> files (snd ts) (file_path (img_dir env) h) = Some data)) \<and>
     (\<forall>h. length h = 64 \<longrightarrow> fst ts h = None \<longrightarrow> files (snd ts) (file_path (img_dir env) h) = None)"

lemma file_path_inj:
  assumes "length h = 64" "length h' = 64" "length dir \<le> 4000"
  shows "file_path dir h = file_path dir h' \<longleftrightarrow> h = h'"
  using assms by (simp add: file_path_def)

lemma write_file_ok:
  assumes "\<And>k. os_file env k"
  shows "fst (server_write_file env s data (length data) dir name) =
    s\<lparr>os_calls := os_calls s + 2,
      files := (files s)(file_path dir name \<mapsto>
        data @ drop (length data) (case files s (file_path dir name) of None \<Rightarrow> [] | Some x \<Rightarrow> x))\<rparr>"
  using assms by (simp add: server_write_file_def os_call_def Let_def)

lemma store_ok_row:
  assumes "store_ok env (t, s)" "t h = Some n"
  obtains d where "sha256_hex env d = h" "files s (file_path (img_dir env) h) = Some d" "1 \<le> n" "n < 2 ^ 31"
  using assms unfolding store_ok_def by (metis fst_conv snd_conv)

lemma store_ok_hash:
  assumes "store_ok env (t, s)" "t h = Some n" "\<And>d. length (sha256_hex env d) = 64"
  shows "length h = 64"
  using store_ok_row [OF assms(1,2)] assms(3) by metis

lemma store_ok_save:
  assumes inv: "store_ok env (t, s)" and round: "save_round env PGRES_TUPLES_OK (t, s) data = Inr (t', s')"
    and count: "\<And>h n. t' h = Some n \<Longrightarrow> n < 2 ^ 31"
    and os: "\<And>k. os_file env k" and sha: "\<And>d. length (sha256_hex env d) = 64" and dir: "length (img_dir env) \<le> 4000"
  shows "store_ok env (t', s')"
proof (cases "\<exists>m. mime_of env data = Some m \<and> contains_str m ''image/''")
  case False
  then have "t' = t \<and> s' = s"
    using round by (auto simp: save_round_def server_save_file_img_def split: option.splits if_splits)
  then show ?thesis using inv by simp
next
  case True
  let ?h = "sha256_hex env data"
  have send: "\<And>k. pq_send (ew_db s) k = 1" using inv by (simp add: store_ok_def)
  from True obtain m where m: "mime_of env data = Some m" "contains_str m ''image/''" by blast
  from save_round_ok [OF send m, of PGRES_TUPLES_OK t]
  obtain s1 c2 where r: "save_round env PGRES_TUPLES_OK (t, s) data =
       Inr (userfiles_insert t ?h,
            if cmd_data_size (userfile_refcount_result (userfiles_count (userfiles_insert t ?h) ?h) PGRES_TUPLES_OK c2) = 1
            then fst (server_write_file env s1 data (length data) (img_dir env) ?h) else s1)"
    "files s1 = files s" "pq_send (ew_db s1) = pq_send (ew_db s)" by blast
  from r(1) round have t': "t' = userfiles_insert t ?h" by simp
  show ?thesis
  proof (cases "t ?h")
    case None
    then have "t' ?h = Some 1" by (simp add: t' userfiles_insert_def)
    from count_of_rows [of t' ?h 1 c2, OF this count [OF this]] r(1) round t'
    have s': "s' = fst (server_write_file env s1 data (length data) (img_dir env) ?h)" by simp
    have nofile: "files s (file_path (img_dir env) ?h) = None" using inv None sha by (simp add: store_ok_def)
    have others: "\<And>h. h \<noteq> ?h \<Longrightarrow> t' h = t h" by (simp add: t' userfiles_insert_def)
    have len: "\<And>h n. t h = Some n \<Longrightarrow> length h = 64" using store_ok_hash [OF inv _ sha] by simp
    have path: "\<And>h. length h = 64 \<Longrightarrow> h \<noteq> ?h \<Longrightarrow> file_path (img_dir env) h \<noteq> file_path (img_dir env) ?h"
      using file_path_inj [OF _ sha dir] by simp
    have files': "files s' = (files s)(file_path (img_dir env) ?h \<mapsto> data)" "pq_send (ew_db s') = pq_send (ew_db s)"
      unfolding s' write_file_ok [OF os] by (simp_all add: r(2,3) nofile)
    have rows: "1 \<le> n \<and> n < 2 ^ 31 \<and> (\<exists>d. sha256_hex env d = h \<and> files s' (file_path (img_dir env) h) = Some d)"
      if h: "t' h = Some n" for h n
    proof (cases "h = ?h")
      case True
      then show ?thesis using h \<open>t' ?h = Some 1\<close> by (auto simp: files')
    next
      case False
      then have th: "t h = Some n" using h others by simp
      then show ?thesis using inv path [OF len [OF th] False] by (simp add: store_ok_def files')
    qed
    have "files s' (file_path (img_dir env) h) = None" if h: "length h = 64" "t' h = None" for h
    proof -
      have ne: "h \<noteq> ?h" using h \<open>t' ?h = Some 1\<close> by auto
      then have "t h = None" using h others by simp
      then show ?thesis using inv h path [OF h(1) ne] by (simp add: store_ok_def files')
    qed
    then show ?thesis using rows send by (simp add: store_ok_def files'(2))
  next
    case (Some n)
    then have t'h: "t' ?h = Some (n + 1)" and n: "1 \<le> n" using inv by (simp_all add: t' userfiles_insert_def store_ok_def)
    from count_of_rows [of t' ?h "n + 1" c2, OF t'h count [OF t'h]] n r(1) round t' have "s' = s1" by simp
    then show ?thesis
      using inv count Some r(2,3) unfolding store_ok_def by (auto simp: t' userfiles_insert_def split: if_splits)
  qed
qed

lemma store_ok_delete:
  assumes inv: "store_ok env (t, s)" and round: "delete_round env PGRES_TUPLES_OK (t, s) file = Inr (t', s')"
    and img: "contains_str (file_mime_type file) ''image/''" "length (file_hash file) = 64"
    and os: "\<And>k. os_file env k" and sha: "\<And>d. length (sha256_hex env d) = 64" and dir: "length (img_dir env) \<le> 4000"
  shows "store_ok env (t', s')"
proof -
  let ?h = "file_hash file"
  have send: "\<And>k. pq_send (ew_db s) k = 1" using inv by (simp add: store_ok_def)
  obtain s1 c2 where r0: "delete_round env PGRES_TUPLES_OK (t, s) file =
       Inr (userfiles_release t ?h,
            if cmd_data_size (userfile_refcount_result (userfiles_count (userfiles_release t ?h) ?h) PGRES_TUPLES_OK c2) \<le> 0
            then (if os_file env (os_calls s)
                  then s1\<lparr>files := (files s1)(file_path (server_mime_type_dir env (file_mime_type file)) ?h := None),
                          os_calls := Suc (os_calls s)\<rparr>
                  else s1\<lparr>os_calls := Suc (os_calls s)\<rparr>)
            else s1)"
    and r1: "files s1 = files s" "pq_send (ew_db s1) = pq_send (ew_db s)"
    by (rule delete_round_ok [OF send, of env PGRES_TUPLES_OK t "file"])
  have r: "delete_round env PGRES_TUPLES_OK (t, s) file =
       Inr (userfiles_release t ?h,
            if cmd_data_size (userfile_refcount_result (userfiles_count (userfiles_release t ?h) ?h) PGRES_TUPLES_OK c2) \<le> 0
            then s1\<lparr>files := (files s1)(file_path (img_dir env) ?h := None), os_calls := Suc (os_calls s)\<rparr> else s1)"
    "files s1 = files s" "pq_send (ew_db s1) = pq_send (ew_db s)"
    using r0 r1 img(1) os by (simp_all add: server_mime_type_dir_def)
  from r(1) round have t': "t' = userfiles_release t ?h" by simp
  show ?thesis
  proof (cases "t' ?h")
    case None
    from count_no_rows [of t' ?h c2, OF this] r(1) round t'
    have s': "s' = s1\<lparr>files := (files s1)(file_path (img_dir env) ?h := None), os_calls := Suc (os_calls s)\<rparr>" by simp
    have others: "\<And>h. h \<noteq> ?h \<Longrightarrow> t' h = t h"
      by (simp add: t' userfiles_release_def split: option.split)
    have len: "\<And>h n. t h = Some n \<Longrightarrow> length h = 64" using store_ok_hash [OF inv _ sha] by simp
    have path: "\<And>h. length h = 64 \<Longrightarrow> h \<noteq> ?h \<Longrightarrow> file_path (img_dir env) h \<noteq> file_path (img_dir env) ?h"
      using file_path_inj [OF _ img(2) dir] by simp
    have files': "files s' = (files s)(file_path (img_dir env) ?h := None)" "pq_send (ew_db s') = pq_send (ew_db s)"
      by (simp_all add: s' r(2,3))
    have rows: "1 \<le> n \<and> n < 2 ^ 31 \<and> (\<exists>d. sha256_hex env d = h \<and> files s' (file_path (img_dir env) h) = Some d)"
      if h: "t' h = Some n" for h n
    proof -
      have ne: "h \<noteq> ?h" using h None by auto
      then have th: "t h = Some n" using h others by simp
      from store_ok_row [OF inv th] obtain d where
        "sha256_hex env d = h" "files s (file_path (img_dir env) h) = Some d" "1 \<le> n" "n < 2 ^ 31" .
      then show ?thesis using path [OF len [OF th] ne] by (auto simp: files')
    qed
    have "files s' (file_path (img_dir env) h) = None" if h: "length h = 64" "t' h = None" for h
      using inv h others [of h] by (cases "h = ?h") (auto simp: store_ok_def files')
    then show ?thesis using rows send by (simp add: store_ok_def files'(2))
  next
    case (Some n)
    then obtain k where k: "t ?h = Some k" "1 < k" "n = k - 1"
      by (auto simp: t' userfiles_release_def split: option.splits if_splits)
    then have "n < 2 ^ 31" using inv unfolding store_ok_def by fastforce
    from count_of_rows [of t' ?h n c2, OF Some this] k r(1) round t' have "s' = s1" by simp
    then show ?thesis
      using inv k r(2,3) unfolding store_ok_def by (fastforce simp: t' userfiles_release_def split: if_splits)
  qed
qed

lemma file_store_ok:
  assumes "file_store env ts" "\<And>k. os_file env k" "\<And>d. length (sha256_hex env d) = 64" "length (img_dir env) \<le> 4000"
  shows "store_ok env ts"
  using assms(1)
proof (induction rule: file_store.induct)
  case (empty s)
  then show ?case by (simp add: store_ok_def)
next
  case (save ts data ts')
  then show ?case using store_ok_save [of env "fst ts" "snd ts" data "fst ts'" "snd ts'"] assms(2-4) by simp
next
  case (delete ts fl ts')
  then show ?case using store_ok_delete [of env "fst ts" "snd ts" fl "fst ts'" "snd ts'"] assms(2-4) by simp
qed


definition file_env :: chat_env where
  "file_env = demo_env\<lparr>sha256_hex := \<lambda>d. take 64 (d @ replicate 64 CHR ''a'')\<rparr>"

definition demo_file :: "string \<Rightarrow> db_user_file" where
  "demo_file h = \<lparr>file_hash = h, file_name = [], file_mime_type = ''image/png'', file_size = 10\<rparr>"

lemma image_png: "contains_str ''image/png'' ''image/''" by code_simp

text \<open>
  \<^bold>\<open>C36. A stored image is there as long as it is referenced.\<close> In every state that savings and
  deletions of images reach with working queries and system calls, a hash with a row in the
  table of files has a file whose content has this hash, which \<^verbatim>\<open>server_get_file\<close> returns up to
  the size asked for; and a hash without a row has no file, so that no image outlives its last
  reference.
\<close>

theorem stored_iff_referenced:
  assumes "file_store env (t, s)" "\<And>k. os_file env k" "\<And>d. length (sha256_hex env d) = 64"
    "length (img_dir env) \<le> 4000" "length h = 64" "contains_str (file_mime_type fl) ''image/''" "file_hash fl = h"
  shows "case t h of
      None \<Rightarrow> files s (file_path (img_dir env) h) = None
    | Some n \<Rightarrow> \<exists>data. sha256_hex env data = h \<and> files s (file_path (img_dir env) h) = Some data \<and>
        fst (snd (server_get_file env s fl)) = Some (take (file_size fl) data)"
proof -
  have "store_ok env (t, s)" using file_store_ok assms(1-4) by blast
  note ok = this
  show ?thesis
  proof (cases "t h")
    case None
    then show ?thesis using ok assms(5) by (simp add: store_ok_def)
  next
    case (Some n)
    from store_ok_row [OF ok Some] obtain d where
      "sha256_hex env d = h" "files s (file_path (img_dir env) h) = Some d" .
    then show ?thesis using Some assms(2,6,7)
      by (auto simp: server_get_file_def server_read_file_def server_mime_type_dir_def os_call_def Let_def)
  qed
qed

theorem stored_iff_referenced_witness:
  "\<exists>s. file_store file_env ([sha256_hex file_env ''x'' \<mapsto> 1], s) \<and>
    (\<exists>data. sha256_hex file_env data = sha256_hex file_env ''x'' \<and>
       files s (file_path (img_dir file_env) (sha256_hex file_env ''x'')) = Some data \<and>
       fst (snd (server_get_file file_env s (demo_file (sha256_hex file_env ''x'')))) = Some (take 10 data))"
proof -
  let ?h = "sha256_hex file_env ''x''"
  have send: "\<And>k. pq_send (ew_db server_start) k = 1" by (simp add: server_start_def demo_server_db_def)
  have m: "mime_of file_env ''x'' = Some ''image/png''" by (simp add: file_env_def demo_env_def)
  obtain s where s: "save_round file_env PGRES_TUPLES_OK (Map.empty, server_start) ''x'' =
      Inr (userfiles_insert Map.empty ?h, s)"
    by (rule save_round_ok [OF send m image_png, of PGRES_TUPLES_OK Map.empty])
  have t: "userfiles_insert Map.empty ?h = [?h \<mapsto> 1]" by (simp add: userfiles_insert_def)
  have st: "file_store file_env ([?h \<mapsto> 1], s)"
    by (rule file_store.save [OF file_store.empty s [unfolded t]]) (simp_all add: demo_server_db_def server_start_def split: if_splits)
  have "case [?h \<mapsto> 1::nat] ?h of
      None \<Rightarrow> files s (file_path (img_dir file_env) ?h) = None
    | Some n \<Rightarrow> \<exists>data. sha256_hex file_env data = ?h \<and> files s (file_path (img_dir file_env) ?h) = Some data \<and>
        fst (snd (server_get_file file_env s (demo_file ?h))) = Some (take (file_size (demo_file ?h)) data)"
    by (rule stored_iff_referenced [OF st]) (simp_all add: file_env_def demo_env_def demo_file_def image_png)
  then show ?thesis using st by (auto simp: demo_file_def)
qed

text \<open>
  \<^bold>\<open>A failed count deletes a file in use.\<close> When the reference is taken away and the query of
  the count then fails, the callback reads the count 0 of the unset command and unlinks the file,
  although the table still has other references to it.
\<close>

theorem failed_count_unlinks:
  assumes "\<And>k. pq_send (ew_db s) k = 1" "\<And>k. os_file env k" "status \<noteq> PGRES_TUPLES_OK"
    "t (file_hash fl) = Some n" "1 < n"
  shows "\<exists>t' s'. delete_round env status (t, s) fl = Inr (t', s') \<and> t' (file_hash fl) = Some (n - 1) \<and>
    files s' (file_path (server_mime_type_dir env (file_mime_type fl)) (file_hash fl)) = None"
proof -
  obtain s1 c2 where r: "delete_round env status (t, s) fl =
       Inr (userfiles_release t (file_hash fl),
            if cmd_data_size (userfile_refcount_result
                 (userfiles_count (userfiles_release t (file_hash fl)) (file_hash fl)) status c2) \<le> 0
            then (if os_file env (os_calls s)
                  then s1\<lparr>files := (files s1)(file_path (server_mime_type_dir env (file_mime_type fl))
                                       (file_hash fl) := None), os_calls := Suc (os_calls s)\<rparr>
                  else s1\<lparr>os_calls := Suc (os_calls s)\<rparr>)
            else s1)"
    "cmd_data_size c2 = 0"
    by (rule delete_round_ok [OF assms(1), of env status t fl])
  then show ?thesis using assms(2-5) by (simp add: userfile_refcount_result_def userfiles_release_def)
qed

theorem failed_count_unlinks_witness:
  "\<exists>t' s'. delete_round demo_env PGRES_FATAL_ERROR ([''ab'' \<mapsto> 2], server_start) (demo_file ''ab'') = Inr (t', s') \<and>
    t' ''ab'' = Some 1 \<and> files s' (file_path ''img'' ''ab'') = None"
  using failed_count_unlinks [of server_start demo_env PGRES_FATAL_ERROR "[''ab'' \<mapsto> 2]" "demo_file ''ab''" 2] image_png
  by (simp add: server_start_def demo_server_db_def demo_env_def demo_file_def server_mime_type_dir_def)

end
