(* ===== verification/Db_Group.thy ===== *)
theory Db_Group
  imports Server_Events
begin

text \<open>
  The group queries of \<^verbatim>\<open>server/src/chat/db_group.c\<close>: groups, members, messages, invite codes
  and the deletion of a group in one transaction. Every query is the text sent down the pipeline
  with its parameters; a result callback gets the server, because the message of an upload token
  lives in the store of tokens.
\<close>

section \<open>Objects and texts\<close>

definition db_group_zero :: db_group where
  "db_group_zero =
     \<lparr>grp_id = 0, grp_owner_id = 0, grp_displayname = replicate DB_DISPLAYNAME_MAX NUL,
      grp_desc = replicate DB_DESC_MAX NUL, grp_public = False,
      grp_created_at = replicate DB_TIMESTAMP_MAX NUL\<rparr>"

text \<open>Arrays without a terminating NUL read on into the next member.\<close>

definition group_name_str :: "db_group \<Rightarrow> string" where
  "group_name_str g = cstr (grp_displayname g @ grp_desc g) 0"

definition msg_content_str :: "db_msg \<Rightarrow> string" where
  "msg_content_str m = cstr (msg_content m @ msg_timestamp m) 0"

definition db_row_to_group :: "db_group \<Rightarrow> string list list \<Rightarrow> nat \<Rightarrow> db_group" where
  "db_row_to_group group0 res row =
     (let g1 = opt_field (PQgetvalue res row 0) (\<lambda>x g. g\<lparr>grp_id := ucast (strtoul 10 x)\<rparr>) group0;
          g2 = opt_field (PQgetvalue res row 1) (\<lambda>x g. g\<lparr>grp_owner_id := ucast (strtoul 10 x)\<rparr>) g1;
          g3 = opt_field (PQgetvalue res row 2)
                 (\<lambda>x g. g\<lparr>grp_displayname := strncpy (grp_displayname g) x DB_DISPLAYNAME_MAX\<rparr>) g2;
          g4 = opt_field (PQgetvalue res row 3) (\<lambda>x g. g\<lparr>grp_desc := strncpy (grp_desc g) x DB_DESC_MAX\<rparr>) g3;
          g5 = g4\<lparr>grp_public := (case PQgetvalue res row 4 of Some (c # cs) \<Rightarrow> c = CHR ''t'' | _ \<Rightarrow> False)\<rparr>
      in opt_field (PQgetvalue res row 5)
           (\<lambda>x g. g\<lparr>grp_created_at := strncpy (grp_created_at g) x DB_TIMESTAMP_MAX\<rparr>) g5)"

definition int_text :: "int \<Rightarrow> string" where
  "int_text i = (if i < 0 then CHR ''-'' # dec_digits (nat (- i)) else dec_digits (nat i))"

text \<open>The first 32 bits of the parameter union are the group id for all its group members.\<close>

definition param_group_id :: "db_data option \<Rightarrow> u32" where
  "param_group_id p =
     (case p of
        Some (Param_group_id g) \<Rightarrow> g | Some (Param_member_ids g t) \<Rightarrow> g | Some (Param_group_msgs g t) \<Rightarrow> g
      | Some (Param_group_codes g t) \<Rightarrow> g | Some (Param_group_owner g x u) \<Rightarrow> g | _ \<Rightarrow> 0)"

definition cmd_status :: "bool \<Rightarrow> chat_dbcmd \<Rightarrow> chat_dbcmd" where
  "cmd_status ok ctx = ctx\<lparr>cmd_ret := (if ok then DB_ASYNC_OK else DB_ASYNC_ERROR)\<rparr>"

type_synonym cmd_result = "(chat_server \<times> chat_dbcmd) res"

section \<open>Groups and members\<close>

definition db_get_groups_result :: "chat_server \<Rightarrow> string list list \<Rightarrow> pg_status \<Rightarrow> chat_dbcmd \<Rightarrow> cmd_result" where
  "db_get_groups_result s res status ctx =
     Inr (s, if status = PGRES_TUPLES_OK then
               ctx\<lparr>cmd_data := (if length res = 0 then None
                                else Some (Data_groups (map (db_row_to_group db_group_zero res) [0..<length res]))),
                   cmd_data_size := int (length res), cmd_ret := DB_ASYNC_OK\<rparr>
             else ctx\<lparr>cmd_ret := DB_ASYNC_ERROR\<rparr>)"

definition db_async_get_group :: "chat_db \<Rightarrow> u32 \<Rightarrow> chat_dbcmd \<Rightarrow> chat_db \<times> bool" where
  "db_async_get_group db gid ctx =
     (let (db', ret) = db_async_params db ''SELECT * FROM Groups WHERE group_id = $1::int;''
                         [Some (u32_text gid)] (Some (ctx\<lparr>cmd_exec_res := Some db_get_groups_result_cb\<rparr>))
      in (db', ret = 1))"

definition db_async_get_user_groups :: "chat_db \<Rightarrow> u32 \<Rightarrow> chat_dbcmd \<Rightarrow> chat_db \<times> bool" where
  "db_async_get_user_groups db uid ctx =
     (let (db', ret) = db_async_params db ''select_user_groups.sql''
                         [Some (u32_text uid)] (Some (ctx\<lparr>cmd_exec_res := Some db_get_groups_result_cb\<rparr>))
      in (db', ret = 1))"

definition db_get_group_member_ids_result ::
  "chat_server \<Rightarrow> string list list \<Rightarrow> pg_status \<Rightarrow> chat_dbcmd \<Rightarrow> cmd_result" where
  "db_get_group_member_ids_result s res status ctx =
     (if status \<noteq> PGRES_TUPLES_OK then Inr (s, ctx\<lparr>cmd_ret := DB_ASYNC_ERROR\<rparr>)
      else if cmd_flags ctx AND DB_CTX_NO_JSON \<noteq> 0 then
        (if \<exists>i\<in>{0..<length res}. PQgetvalue res i 0 = None then Inl Null_dereference
         else Inr (s, ctx\<lparr>cmd_data := Some (Data_ids
                      (map (\<lambda>i. ucast (strtoul 10 (the (PQgetvalue res i 0)))) [0..<length res])),
                    cmd_data_size := int (length res), cmd_ret := DB_ASYNC_OK\<rparr>))
      else Inr (s, ctx\<lparr>cmd_param := Some (Param_member_ids (param_group_id (cmd_param ctx))
                      (Some (case PQgetvalue res 0 0 of None \<Rightarrow> ''[]'' | Some x \<Rightarrow> x))),
                    cmd_ret := DB_ASYNC_OK\<rparr>))"

text \<open>The command as its callback will find it, and whether it was sent.\<close>

definition db_async_get_group_member_ids ::
  "chat_db \<Rightarrow> u32 \<Rightarrow> chat_dbcmd \<Rightarrow> chat_db \<times> chat_dbcmd \<times> bool" where
  "db_async_get_group_member_ids db gid ctx =
     (let ctx' = ctx\<lparr>cmd_exec_res := Some db_get_group_member_ids_result_cb\<rparr>;
          (db', ret) = db_async_params db
             (if cmd_flags ctx AND DB_CTX_NO_JSON \<noteq> 0
              then ''SELECT user_id FROM GroupMembers WHERE group_id = $1::int;''
              else ''SELECT json_agg(user_id) FROM GroupMembers WHERE group_id = $1::int;'')
             [Some (u32_text gid)] (Some ctx')
      in (db', ctx', ret = 1))"

definition get_public_groups_result :: "chat_server \<Rightarrow> string list list \<Rightarrow> pg_status \<Rightarrow> chat_dbcmd \<Rightarrow> cmd_result" where
  "get_public_groups_result s res status ctx =
     Inr (s, if status = PGRES_TUPLES_OK then
               ctx\<lparr>cmd_param := Some (Param_str (Some (case PQgetvalue res 0 0 of None \<Rightarrow> ''[]'' | Some x \<Rightarrow> x))),
                   cmd_ret := DB_ASYNC_OK\<rparr>
             else ctx\<lparr>cmd_ret := DB_ASYNC_ERROR\<rparr>)"

definition db_async_get_public_groups :: "chat_db \<Rightarrow> u32 \<Rightarrow> chat_dbcmd \<Rightarrow> chat_db \<times> bool" where
  "db_async_get_public_groups db uid ctx =
     (let (db', ret) = db_async_params db ''select_public_group.sql''
                         [Some (u32_text uid)] (Some (ctx\<lparr>cmd_exec_res := Some get_public_groups_result_cb\<rparr>))
      in (db', ret = 1))"

definition join_pub_group_result :: "chat_server \<Rightarrow> string list list \<Rightarrow> pg_status \<Rightarrow> chat_dbcmd \<Rightarrow> cmd_result" where
  "join_pub_group_result s res status ctx = Inr (s, cmd_status (status = PGRES_COMMAND_OK) ctx)"

definition db_async_user_join_pub_group :: "chat_db \<Rightarrow> u32 \<Rightarrow> u32 \<Rightarrow> chat_dbcmd \<Rightarrow> chat_db \<times> bool" where
  "db_async_user_join_pub_group db uid gid ctx =
     (let (db', ret) = db_async_params db ''join_pub_group.sql''
                         [Some (u32_text uid), Some (u32_text gid)]
                         (Some (ctx\<lparr>cmd_exec_res := Some join_pub_group_result_cb\<rparr>))
      in (db', ret = 1))"

text \<open>\<^verbatim>\<open>create_group_result\<close>: the new group gets its number. Its id text is not checked.\<close>

definition create_group_result :: "chat_server \<Rightarrow> string list list \<Rightarrow> pg_status \<Rightarrow> chat_dbcmd \<Rightarrow> cmd_result" where
  "create_group_result s res status ctx =
     (if status = PGRES_TUPLES_OK then
        (case (cmd_data ctx, PQgetvalue res 0 0) of
           (Some (Data_groups [g]), Some x) \<Rightarrow>
             Inr (s, ctx\<lparr>cmd_data := Some (Data_groups [g\<lparr>grp_id := ucast (strtoul 0 x)\<rparr>]),
                         cmd_ret := DB_ASYNC_OK\<rparr>)
         | _ \<Rightarrow> Inl Null_dereference)
      else Inr (s, ctx\<lparr>cmd_ret := DB_ASYNC_ERROR\<rparr>))"

definition db_async_create_group :: "chat_db \<Rightarrow> db_group \<Rightarrow> chat_dbcmd \<Rightarrow> chat_db \<times> bool" where
  "db_async_create_group db g ctx =
     (let (db', ret) = db_async_params db ''insert_group.sql''
                         [Some (group_name_str g), Some (u32_text (grp_owner_id g)),
                          Some (if grp_public g then ''true'' else ''false'')]
                         (Some (ctx\<lparr>cmd_exec_res := Some create_group_result_cb,
                                    cmd_data := Some (Data_groups [g])\<rparr>))
      in (db', ret \<noteq> 0))"

section \<open>Messages\<close>

definition db_get_group_msgs_result :: "chat_server \<Rightarrow> string list list \<Rightarrow> pg_status \<Rightarrow> chat_dbcmd \<Rightarrow> cmd_result" where
  "db_get_group_msgs_result s res status ctx =
     Inr (s, if status = PGRES_TUPLES_OK then
               ctx\<lparr>cmd_param := Some (Param_group_msgs (param_group_id (cmd_param ctx))
                      (Some (case PQgetvalue res 0 0 of Some (c # cs) \<Rightarrow> c # cs | _ \<Rightarrow> ''[]''))),
                   cmd_ret := DB_ASYNC_OK\<rparr>
             else ctx\<lparr>cmd_ret := DB_ASYNC_ERROR\<rparr>)"

definition db_async_get_group_msgs :: "chat_db \<Rightarrow> u32 \<Rightarrow> u32 \<Rightarrow> u32 \<Rightarrow> chat_dbcmd \<Rightarrow> chat_db \<times> bool" where
  "db_async_get_group_msgs db gid limit offset ctx =
     (let (db', ret) = db_async_params db ''select_group_msgs_json.sql''
                         [Some (u32_text gid), Some (u32_text limit), Some (u32_text offset)]
                         (Some (ctx\<lparr>cmd_exec_res := Some db_get_group_msgs_result_cb\<rparr>))
      in (db', ret = 1))"

text \<open>The message of a command is its own copy or the one inside an upload token.\<close>

definition cmd_msg :: "chat_server \<Rightarrow> chat_dbcmd \<Rightarrow> db_msg res" where
  "cmd_msg s ctx =
     (case cmd_data ctx of
        Some (Data_msg m) \<Rightarrow> Inr m
      | Some (Data_token_msg a) \<Rightarrow>
          bindR (deref (tokens s) a) (\<lambda>t.
            case ut_union t of Ut_msg_state ms \<Rightarrow> Inr (tmsg ms) | Ut_user_id i \<Rightarrow> Inr (db_msg_zero\<lparr>msg_id := i\<rparr>))
      | _ \<Rightarrow> Inl Null_dereference)"

definition put_cmd_msg :: "chat_server \<Rightarrow> chat_dbcmd \<Rightarrow> db_msg \<Rightarrow> cmd_result" where
  "put_cmd_msg s ctx m =
     (case cmd_data ctx of
        Some (Data_token_msg a) \<Rightarrow>
          bindR (deref (tokens s) a) (\<lambda>t.
            Inr (put_token a (t\<lparr>ut_union := Ut_msg_state
                   ((case ut_union t of Ut_msg_state ms \<Rightarrow> ms | Ut_user_id i \<Rightarrow> tmp_msg_zero)\<lparr>tmsg := m\<rparr>)\<rparr>) s, ctx))
      | _ \<Rightarrow> Inr (s, ctx\<lparr>cmd_data := Some (Data_msg m)\<rparr>))"

definition insert_group_msg_result :: "chat_server \<Rightarrow> string list list \<Rightarrow> pg_status \<Rightarrow> chat_dbcmd \<Rightarrow> cmd_result" where
  "insert_group_msg_result s res status ctx =
     (if status = PGRES_TUPLES_OK then
        bindR (cmd_msg s ctx) (\<lambda>m.
          case PQgetvalue res 0 0 of
            None \<Rightarrow> Inl Null_dereference
          | Some x \<Rightarrow>
              (let m1 = m\<lparr>msg_id := ucast (strtoul 10 x)\<rparr>
               in if msg_id m1 = 0 then put_cmd_msg s (ctx\<lparr>cmd_ret := DB_ASYNC_ERROR\<rparr>) m1
                  else put_cmd_msg s (ctx\<lparr>cmd_ret := DB_ASYNC_OK\<rparr>)
                         (opt_field (PQgetvalue res 0 1)
                            (\<lambda>ts m. m\<lparr>msg_timestamp := strncpy (msg_timestamp m) ts DB_TIMESTAMP_MAX\<rparr>) m1)))
      else Inr (s, ctx\<lparr>cmd_ret := DB_ASYNC_ERROR\<rparr>))"

text \<open>A message without attachments gets the text of the empty array. \<open>wrap\<close> says where it lives.\<close>

definition db_async_insert_group_msg ::
  "chat_db \<Rightarrow> db_msg \<Rightarrow> (db_msg \<Rightarrow> db_data) \<Rightarrow> chat_dbcmd \<Rightarrow> chat_db \<times> db_msg \<times> bool" where
  "db_async_insert_group_msg db msg wrap ctx =
     (let atts = (case msg_attachments msg of None \<Rightarrow> ''[]'' | Some t \<Rightarrow> t);
          m = msg\<lparr>msg_attachments := Some atts\<rparr>;
          (db', ret) = db_async_params db ''insert_msg.sql''
             [Some (u32_text (msg_user_id m)), Some (u32_text (msg_group_id m)), Some (msg_content_str m),
              Some atts]
             (Some (ctx\<lparr>cmd_exec_res := Some insert_group_msg_result_cb, cmd_data := Some (wrap m)\<rparr>))
      in (db', m, ret = 1))"

definition db_delete_msg_result :: "chat_server \<Rightarrow> string list list \<Rightarrow> pg_status \<Rightarrow> chat_dbcmd \<Rightarrow> cmd_result" where
  "db_delete_msg_result s res status ctx =
     (if status = PGRES_TUPLES_OK \<and> length res \<noteq> 0 then
        (case (cmd_param ctx, PQgetvalue res 0 0) of
           (Some (Param_del_msg mid gid atts), Some x) \<Rightarrow>
             Inr (s, ctx\<lparr>cmd_param := Some (Param_del_msg mid (ucast (strtoul 0 x)) (PQgetvalue res 0 1)),
                         cmd_ret := DB_ASYNC_OK\<rparr>)
         | _ \<Rightarrow> Inl Null_dereference)
      else Inr (s, ctx\<lparr>cmd_ret := DB_ASYNC_ERROR\<rparr>))"

definition db_async_delete_msg :: "chat_db \<Rightarrow> u32 \<Rightarrow> u32 \<Rightarrow> chat_dbcmd \<Rightarrow> chat_db \<times> bool" where
  "db_async_delete_msg db mid uid ctx =
     (let (db', ret) = db_async_params db ''delete_msg.sql''
                         [Some (u32_text mid), Some (u32_text uid)]
                         (Some (ctx\<lparr>cmd_exec_res := Some db_delete_msg_result_cb\<rparr>))
      in (db', ret \<noteq> 0))"

section \<open>Invite codes\<close>

definition db_create_group_code_result :: "chat_server \<Rightarrow> string list list \<Rightarrow> pg_status \<Rightarrow> chat_dbcmd \<Rightarrow> cmd_result" where
  "db_create_group_code_result s res status ctx =
     (if status = PGRES_TUPLES_OK \<and> length res \<noteq> 0 then
        (case (cmd_data ctx, PQgetvalue res 0 0) of
           (Some (Data_code c), Some x) \<Rightarrow>
             Inr (s, ctx\<lparr>cmd_data := Some (Data_code
                            (c\<lparr>invite_code := strncpy (invite_code c) x DB_GROUP_CODE_MAX\<rparr>)),
                         cmd_ret := DB_ASYNC_OK\<rparr>)
         | _ \<Rightarrow> Inl Null_dereference)
      else Inr (s, ctx\<lparr>cmd_ret := DB_ASYNC_ERROR\<rparr>))"

definition db_async_create_group_code :: "chat_db \<Rightarrow> db_group_code \<Rightarrow> u32 \<Rightarrow> chat_dbcmd \<Rightarrow> chat_db \<times> bool" where
  "db_async_create_group_code db c uid ctx =
     (let (db', ret) = db_async_params db ''create_group_code.sql''
                         [Some (u32_text (code_group_id c)), Some (int_text (code_max_uses c)), Some (u32_text uid)]
                         (Some (ctx\<lparr>cmd_exec_res := Some db_create_group_code_result_cb,
                                    cmd_data := Some (Data_code c)\<rparr>))
      in (db', ret \<noteq> 0))"

definition db_get_group_codes_result :: "chat_server \<Rightarrow> string list list \<Rightarrow> pg_status \<Rightarrow> chat_dbcmd \<Rightarrow> cmd_result" where
  "db_get_group_codes_result s res status ctx =
     Inr (s, if status = PGRES_TUPLES_OK then
               ctx\<lparr>cmd_param := Some (Param_group_codes (param_group_id (cmd_param ctx))
                      (Some (case PQgetvalue res 0 0 of None \<Rightarrow> ''[]'' | Some x \<Rightarrow> x))),
                   cmd_ret := DB_ASYNC_OK\<rparr>
             else ctx\<lparr>cmd_ret := DB_ASYNC_ERROR\<rparr>)"

definition db_async_get_group_codes :: "chat_db \<Rightarrow> u32 \<Rightarrow> u32 \<Rightarrow> chat_dbcmd \<Rightarrow> chat_db \<times> bool" where
  "db_async_get_group_codes db gid uid ctx =
     (let (db', ret) = db_async_params db ''get_group_codes.sql''
                         [Some (u32_text gid), Some (u32_text uid)]
                         (Some (ctx\<lparr>cmd_exec_res := Some db_get_group_codes_result_cb,
                                    cmd_param := Some (Param_group_codes gid None)\<rparr>))
      in (db', ret \<noteq> 0))"

definition user_join_group_code_result :: "chat_server \<Rightarrow> string list list \<Rightarrow> pg_status \<Rightarrow> chat_dbcmd \<Rightarrow> cmd_result" where
  "user_join_group_code_result s res status ctx =
     Inr (s, case (status, PQgetvalue res 0 0) of
               (PGRES_TUPLES_OK, Some x) \<Rightarrow>
                 ctx\<lparr>cmd_param := Some (Param_group_id (ucast (strtoul 0 x))), cmd_ret := DB_ASYNC_OK\<rparr>
             | _ \<Rightarrow> ctx\<lparr>cmd_ret := DB_ASYNC_ERROR\<rparr>)"

definition db_async_user_join_group_code :: "chat_db \<Rightarrow> string \<Rightarrow> u32 \<Rightarrow> chat_dbcmd \<Rightarrow> chat_db \<times> bool" where
  "db_async_user_join_group_code db code uid ctx =
     (let (db', ret) = db_async_params db ''insert_groupmember_code.sql''
                         [Some (u32_text uid), Some code]
                         (Some (ctx\<lparr>cmd_exec_res := Some user_join_group_code_result_cb\<rparr>))
      in (db', ret \<noteq> 0))"

definition db_delete_group_code_result :: "chat_server \<Rightarrow> string list list \<Rightarrow> pg_status \<Rightarrow> chat_dbcmd \<Rightarrow> cmd_result" where
  "db_delete_group_code_result s res status ctx = Inr (s, cmd_status (status = PGRES_COMMAND_OK) ctx)"

definition db_async_delete_group_code :: "chat_db \<Rightarrow> string \<Rightarrow> u32 \<Rightarrow> chat_dbcmd \<Rightarrow> chat_db \<times> bool" where
  "db_async_delete_group_code db code uid ctx =
     (let (db', ret) = db_async_params db ''delete_group_code.sql''
                         [Some code, Some (u32_text uid)]
                         (Some (ctx\<lparr>cmd_exec_res := Some db_delete_group_code_result_cb\<rparr>))
      in (db', ret \<noteq> 0))"

section \<open>Deleting a group\<close>

definition del_group_result :: "chat_server \<Rightarrow> string list list \<Rightarrow> pg_status \<Rightarrow> chat_dbcmd \<Rightarrow> cmd_result" where
  "del_group_result s res status ctx = Inr (s, cmd_status (status = PGRES_COMMAND_OK) ctx)"

definition get_all_attachs_result ::
  "chat_env \<Rightarrow> chat_server \<Rightarrow> string list list \<Rightarrow> pg_status \<Rightarrow> chat_dbcmd \<Rightarrow> cmd_result" where
  "get_all_attachs_result env s res status ctx =
     (if status \<noteq> PGRES_TUPLES_OK then Inr (s, ctx\<lparr>cmd_ret := DB_ASYNC_ERROR\<rparr>)
      else if length res = 0 then Inr (s, ctx\<lparr>cmd_ret := DB_ASYNC_OK\<rparr>)
      else if \<exists>i\<in>{0..<length res}. PQgetvalue res i 0 = None then Inl Null_dereference
      else Inr (s, ctx\<lparr>cmd_ret := DB_ASYNC_OK,
                  cmd_data := Some (Data_attachs
                    (map (\<lambda>i. json_parse env (the (PQgetvalue res i 0))) [0..<length res])),
                  cmd_data_size := int (length res)\<rparr>))"

text \<open>The queries of the transaction, each with the group id as its parameter.\<close>

definition get_all_attachs_sql :: string where
  "get_all_attachs_sql =
     ''SELECT attachments FROM Messages WHERE group_id = $1::int AND json_array_length(attachments) > 0;''"

definition del_group_sqls :: "string list" where
  "del_group_sqls =
     [''DELETE FROM Messages WHERE group_id = $1::int;'', ''DELETE FROM GroupMembers WHERE group_id = $1::int;'',
      ''DELETE FROM GroupCodes WHERE group_id = $1::int;'', ''DELETE FROM Groups WHERE group_id = $1::int;'']"

text \<open>The four deletions with the same command; the first that is not sent ends them.\<close>

fun send_deletes :: "chat_db \<Rightarrow> string list \<Rightarrow> u32 \<Rightarrow> chat_dbcmd \<Rightarrow> chat_db \<times> bool" where
  "send_deletes db [] gid ctx = (db, True)"
| "send_deletes db (q # qs) gid ctx =
     (let (db', ret) = db_async_params db q [Some (u32_text gid)] (Some ctx)
      in if ret = 0 then (db', False) else send_deletes db' qs gid ctx)"

definition db_async_delete_group :: "chat_db \<Rightarrow> u32 \<Rightarrow> chat_dbcmd \<Rightarrow> chat_db \<times> bool" where
  "db_async_delete_group db gid ctx =
     (let (db1, ctx1, ret1) = db_async_begin begin_result_cb db ctx
      in if ret1 = 0 then (db1, False)
         else
           (let ctx2 = ctx1\<lparr>cmd_exec := None, cmd_exec_res := Some get_all_attachs_result_cb\<rparr>;
                (db2, ret2) = db_async_params db1 get_all_attachs_sql [Some (u32_text gid)] (Some ctx2)
            in if ret2 = 0 then (fst (db_async_rollback begin_result_cb db2), False)
               else
                 (let ctx3 = ctx2\<lparr>cmd_flags := cmd_flags ctx2 OR DB_CTX_NO_JSON\<rparr>;
                      (db3, ctx4, ok3) = db_async_get_group_member_ids db2 gid ctx3
                  in if \<not> ok3 then (fst (db_async_rollback begin_result_cb db3), False)
                     else
                       (let (db4, ok4) = send_deletes db3 del_group_sqls gid
                                           (ctx4\<lparr>cmd_exec_res := Some del_group_result_cb\<rparr>)
                        in if \<not> ok4 then (fst (db_async_rollback begin_result_cb db4), False)
                           else (let (db5, ret5) = db_async_commit begin_result_cb db4 in (db5, ret5 \<noteq> 0))))))"

definition get_group_owner_result :: "chat_server \<Rightarrow> string list list \<Rightarrow> pg_status \<Rightarrow> chat_dbcmd \<Rightarrow> cmd_result" where
  "get_group_owner_result s res status ctx =
     (if status = PGRES_TUPLES_OK \<and> length res \<noteq> 0 then
        (case (cmd_param ctx, PQgetvalue res 0 0) of
           (Some (Param_group_owner gid owner uid), Some x) \<Rightarrow>
             Inr (s, ctx\<lparr>cmd_param := Some (Param_group_owner gid (ucast (strtoul 0 x)) uid), cmd_ret := DB_ASYNC_OK\<rparr>)
         | _ \<Rightarrow> Inl Null_dereference)
      else Inr (s, ctx\<lparr>cmd_ret := DB_ASYNC_ERROR\<rparr>))"

definition db_async_get_group_owner :: "chat_db \<Rightarrow> u32 \<Rightarrow> chat_dbcmd \<Rightarrow> chat_db \<times> bool" where
  "db_async_get_group_owner db gid ctx =
     (let (db', ret) = db_async_params db ''SELECT owner_id FROM Groups WHERE group_id = $1::int;''
                         [Some (u32_text gid)] (Some (ctx\<lparr>cmd_exec_res := Some get_group_owner_result_cb\<rparr>))
      in (db', ret \<noteq> 0))"

end
