(* ===== verification/Chat_Group.thy ===== *)
theory Chat_Group
  imports Db_Group User_Login User_File
begin

text \<open>
  Groups and messages (\<^verbatim>\<open>server/src/chat/group.c\<close>). A chat command checks its payload and
  sends a query for the user of the client; the callback at the end of the query sends the answer
  to the client, or the change to those members of the group that are connected.
\<close>

section \<open>JSON helpers\<close>

text \<open>Arrays are read by index; a missing element is NULL.\<close>

fun json_elems :: "json \<Rightarrow> json list" where
  "json_elems (JArray xs) = xs"
| "json_elems _ = []"

definition json_opt :: "json option \<Rightarrow> json" where
  "json_opt j = (case j of None \<Rightarrow> JNull | Some v \<Rightarrow> v)"

fun json_obj :: "json \<Rightarrow> (string \<times> json) list \<Rightarrow> json" where
  "json_obj j [] = j"
| "json_obj j ((k, v) # kvs) = json_obj (json_object_object_add j k v) kvs"

definition json_u32 :: "chat_env \<Rightarrow> json \<Rightarrow> u32" where
  "json_u32 env j = word_of_int (json_get_int env j)"

section \<open>Broadcast to a group\<close>

text \<open>
  The member ids are read as signed integers here, so that an id of \<open>2 ^ 31\<close> or more is
  looked up under its sign extension.
\<close>

fun send_to_members :: "chat_env \<Rightarrow> json \<Rightarrow> u32 list \<Rightarrow> chat_server \<Rightarrow> chat_server res" where
  "send_to_members env j [] s = Inr s"
| "send_to_members env j (uid # uids) s =
     (case server_get_client_user_id s (scast uid) of
        None \<Rightarrow> send_to_members env j uids s
      | Some c \<Rightarrow> bindR (ws_json_send env s c j) (\<lambda>(s1, n). send_to_members env j uids s1))"

definition do_group_broadcast :: "chat_env \<Rightarrow> chat_server \<Rightarrow> chat_dbcmd \<Rightarrow> exec_result" where
  "do_group_broadcast env s ctx =
     (case cmd_param ctx of
        Some (Param_json j) \<Rightarrow>
          bindR (if cmd_data_size ctx = 0 then Inr s
                 else (case cmd_data ctx of
                         Some (Data_ids ids) \<Rightarrow> send_to_members env j (take (nat (cmd_data_size ctx)) ids) s
                       | _ \<Rightarrow> Inl Null_dereference)) (\<lambda>s1. Inr (s1, ctx, None))
      | _ \<Rightarrow> Inl Null_dereference)"

definition server_group_broadcast :: "chat_server \<Rightarrow> u32 \<Rightarrow> json \<Rightarrow> chat_server" where
  "server_group_broadcast s gid j =
     (let (db, ctx, ok) = db_async_get_group_member_ids (ew_db s) gid
            (cmd_zero\<lparr>cmd_exec := Some do_group_broadcast_cb, cmd_flags := DB_CTX_NO_JSON,
                      cmd_param := Some (Param_json j)\<rparr>)
      in set_db db s)"

section \<open>Attachments\<close>

text \<open>The three members are copied without a check that they are there.\<close>

definition attachment_file :: "chat_env \<Rightarrow> json \<Rightarrow> db_user_file res" where
  "attachment_file env a =
     (case (json_cstring env (json_object_object_get a ''hash''),
            json_cstring env (json_object_object_get a ''type''),
            json_cstring env (json_object_object_get a ''name'')) of
        (Some h, Some t, Some n) \<Rightarrow>
          Inr \<lparr>file_hash = take DB_PFP_HASH_MAX h, file_name = take DB_PFP_NAME_MAX n,
               file_mime_type = take DB_MIME_TYPE_LEN t, file_size = 0\<rparr>
      | _ \<Rightarrow> Inl Null_dereference)"

fun delete_attachments :: "chat_env \<Rightarrow> json list \<Rightarrow> chat_server \<Rightarrow> chat_server res" where
  "delete_attachments env [] s = Inr s"
| "delete_attachments env (a # as) s =
     bindR (attachment_file env a) (\<lambda>f. delete_attachments env as (fst (server_delete_file s f)))"

definition server_delete_attachments_json :: "chat_env \<Rightarrow> chat_server \<Rightarrow> json option \<Rightarrow> chat_server res" where
  "server_delete_attachments_json env s j =
     (case j of None \<Rightarrow> Inr s | Some v \<Rightarrow> delete_attachments env (json_elems v) s)"

definition server_delete_msg_attachments :: "chat_env \<Rightarrow> chat_server \<Rightarrow> string \<Rightarrow> chat_server res" where
  "server_delete_msg_attachments env s t = server_delete_attachments_json env s (json_parse env t)"

section \<open>Objects as JSON\<close>

definition cstr_of :: "string option \<Rightarrow> string" where
  "cstr_of t = (case t of None \<Rightarrow> [] | Some x \<Rightarrow> x)"

definition server_msg_to_json :: "chat_env \<Rightarrow> db_msg \<Rightarrow> json \<Rightarrow> json" where
  "server_msg_to_json env m j =
     json_obj j
       [(''cmd'', JString ''group_msg''), (''msg_id'', json_new_int (msg_id m)),
        (''group_id'', json_new_int (msg_group_id m)), (''user_id'', json_new_int (msg_user_id m)),
        (''content'', JString (msg_content_str m)),
        (''attachments'', json_opt (json_parse env (cstr_of (msg_attachments m)))),
        (''timestamp'', JString (cstr (msg_timestamp m) 0))]"

definition group_desc_str :: "db_group \<Rightarrow> string" where
  "group_desc_str g = cstr (grp_desc g @ (if grp_public g then CHR 0x01 else NUL) # grp_created_at g) 0"

definition server_group_to_json :: "db_group \<Rightarrow> json \<Rightarrow> json" where
  "server_group_to_json g j =
     json_obj j
       [(''group_id'', json_new_int (grp_id g)), (''owner_id'', json_new_int (grp_owner_id g)),
        (''name'', JString (group_name_str g)), (''desc'', JString (group_desc_str g)),
        (''public'', JBool (grp_public g))]"

definition group_code_json :: "db_group_code \<Rightarrow> json" where
  "group_code_json c =
     json_obj (JObject [])
       [(''code'', JString (take DB_GROUP_CODE_MAX (invite_code c))), (''uses'', JInt (code_uses c)),
        (''max_uses'', JInt (code_max_uses c))]"

definition server_send_group_codes ::
  "chat_env \<Rightarrow> chat_server \<Rightarrow> nat option \<Rightarrow> db_group_code list \<Rightarrow> u32 \<Rightarrow> json \<Rightarrow> chat_server res" where
  "server_send_group_codes env s client codes gid resp =
     bindR (the_ptr client) (\<lambda>c.
     bindR (ws_json_send env s c
              (json_obj resp [(''cmd'', JString ''group_codes''), (''group_id'', json_new_int gid),
                              (''codes'', JArray (map group_code_json codes))])) (\<lambda>(s1, n). Inr s1))"

text \<open>What the callbacks share: an answer to the client of the command.\<close>

definition answer :: "chat_env \<Rightarrow> chat_server \<Rightarrow> chat_dbcmd \<Rightarrow> json \<Rightarrow> exec_result" where
  "answer env s ctx j =
     bindR (the_ptr (cmd_client ctx)) (\<lambda>c. bindR (ws_json_send env s c j) (\<lambda>(s1, n). Inr (s1, ctx, None)))"

text \<open>\<^verbatim>\<open>client->dbuser->user_id\<close>.\<close>

definition client_uid :: "chat_server \<Rightarrow> nat \<Rightarrow> u32 res" where
  "client_uid s client =
     bindR (deref (clients s) client) (\<lambda>c. bindR (the_ptr (dbuser c)) (\<lambda>a.
     bindR (deref (users s) a) (\<lambda>u. Inr (user_id u))))"

text \<open>A query that was sent or not, and its error message.\<close>

definition sent_or :: "chat_server \<Rightarrow> json \<Rightarrow> string \<Rightarrow> chat_db \<times> bool \<Rightarrow> chat_result" where
  "sent_or s resp err r = Inr (set_db (fst r) s, resp, if snd r then None else Some err)"

section \<open>Groups\<close>

definition do_client_groups :: "chat_env \<Rightarrow> chat_server \<Rightarrow> chat_dbcmd \<Rightarrow> exec_result" where
  "do_client_groups env s ctx =
     (if cmd_ret ctx = DB_ASYNC_ERROR then Inr (s, ctx, Some ''Failed to get groups'')
      else bindR (if cmd_data_size ctx = 0 then Inr []
                  else (case cmd_data ctx of
                          Some (Data_groups gs) \<Rightarrow> Inr (take (nat (cmd_data_size ctx)) gs)
                        | _ \<Rightarrow> Inl Null_dereference)) (\<lambda>gs.
             answer env s ctx
               (json_obj (JObject [])
                  [(''cmd'', JString ''client_groups''),
                   (''groups'', JArray (map (\<lambda>g. server_group_to_json g (JObject [])) gs))])))"

definition server_group_create :: "chat_env \<Rightarrow> chat_server \<Rightarrow> nat \<Rightarrow> json \<Rightarrow> json \<Rightarrow> chat_result" where
  "server_group_create env s client payload resp =
     ret_if_json_bad payload ''name'' json_type_string s resp (\<lambda>nj.
     ret_if_json_bad payload ''public'' json_type_boolean s resp (\<lambda>pj.
     bindR (client_uid s client) (\<lambda>uid.
       (let group = db_group_zero\<lparr>grp_owner_id := uid, grp_public := json_object_get_boolean pj,
              grp_displayname := strncpy (grp_displayname db_group_zero) (json_object_get_string nj) DB_DISPLAYNAME_MAX\<rparr>
        in sent_or s resp ''Internal error: async-create-group''
             (db_async_create_group (ew_db s) group
                (cmd_zero\<lparr>cmd_exec := Some do_client_groups_cb, cmd_data_size := 1\<rparr>))))))"

definition server_client_groups :: "chat_env \<Rightarrow> chat_server \<Rightarrow> nat \<Rightarrow> json \<Rightarrow> json \<Rightarrow> chat_result" where
  "server_client_groups env s client payload resp =
     bindR (client_uid s client) (\<lambda>uid.
       sent_or s resp ''Internal error: async-get-user-groups''
         (db_async_get_user_groups (ew_db s) uid (cmd_zero\<lparr>cmd_exec := Some do_client_groups_cb\<rparr>)))"

definition get_all_groups_result :: "chat_env \<Rightarrow> chat_server \<Rightarrow> chat_dbcmd \<Rightarrow> exec_result" where
  "get_all_groups_result env s ctx =
     (if cmd_ret ctx = DB_ASYNC_ERROR then Inr (s, ctx, Some ''Failed to get public groups'')
      else (case cmd_param ctx of
              Some (Param_str (Some t)) \<Rightarrow>
                answer env s ctx
                  (json_obj (JObject []) [(''cmd'', JString ''get_all_groups''), (''groups'', json_opt (json_parse env t))])
            | _ \<Rightarrow> Inl Null_dereference))"

definition server_get_all_groups :: "chat_env \<Rightarrow> chat_server \<Rightarrow> nat \<Rightarrow> json \<Rightarrow> json \<Rightarrow> chat_result" where
  "server_get_all_groups env s client payload resp =
     bindR (client_uid s client) (\<lambda>uid.
       sent_or s resp ''Internal error: async-get-public-groups''
         (db_async_get_public_groups (ew_db s) uid (cmd_zero\<lparr>cmd_exec := Some get_all_groups_result_cb\<rparr>)))"

text \<open>The result of the query of the new member's group is not checked.\<close>

definition on_user_group_join :: "chat_server \<Rightarrow> nat option \<Rightarrow> u32 \<Rightarrow> chat_server res" where
  "on_user_group_join s client gid =
     (let s1 = set_db (fst (db_async_get_group (ew_db s) gid
                 (cmd_zero\<lparr>cmd_exec := Some do_client_groups_cb, cmd_client := client\<rparr>))) s
      in bindR (the_ptr client) (\<lambda>c. bindR (client_uid s1 c) (\<lambda>uid.
           Inr (server_group_broadcast s1 gid
                  (json_obj (JObject []) [(''cmd'', JString ''join_group''), (''user_id'', json_new_int uid),
                                          (''group_id'', json_new_int gid)])))))"

definition join_group_result :: "chat_server \<Rightarrow> chat_dbcmd \<Rightarrow> exec_result" where
  "join_group_result s ctx =
     (if cmd_ret ctx = DB_ASYNC_ERROR then Inr (s, ctx, Some ''Failed to join group'')
      else bindR (on_user_group_join s (cmd_client ctx) (param_group_id (cmd_param ctx))) (\<lambda>s1.
             Inr (s1, ctx, None)))"

definition server_join_group :: "chat_env \<Rightarrow> chat_server \<Rightarrow> nat \<Rightarrow> json \<Rightarrow> json \<Rightarrow> chat_result" where
  "server_join_group env s client payload resp =
     ret_if_json_bad payload ''group_id'' json_type_int s resp (\<lambda>gj.
     bindR (client_uid s client) (\<lambda>uid.
       sent_or s resp ''Internal error: async-user-join-pub-group''
         (db_async_user_join_pub_group (ew_db s) uid (json_u32 env gj)
            (cmd_zero\<lparr>cmd_exec := Some join_group_result_cb,
                      cmd_param := Some (Param_group_id (json_u32 env gj))\<rparr>))))"

section \<open>Messages\<close>

definition server_get_send_group_msg :: "chat_env \<Rightarrow> chat_server \<Rightarrow> db_msg \<Rightarrow> chat_server" where
  "server_get_send_group_msg env s m =
     server_group_broadcast s (msg_group_id m) (server_msg_to_json env m (JObject []))"

text \<open>The loop of \<^verbatim>\<open>server_verify_msg_attachments\<close> returns the first error.\<close>

fun server_verify_msg_attachments :: "json list \<Rightarrow> string option" where
  "server_verify_msg_attachments [] = None"
| "server_verify_msg_attachments (a # as) =
     (if json_bad (json_object_object_get a ''name'') json_type_string then Some (JSON_INVALID_STR ''name'')
      else if json_bad (json_object_object_get a ''type'') json_type_string then Some (JSON_INVALID_STR ''type'')
      else if \<not> str_startwith (Some (json_object_get_string (the (json_object_object_get a ''type'')))) (Some ''image/'')
      then Some ''Attachment type is not image.''
      else server_verify_msg_attachments as)"

definition set_msg :: "db_msg \<Rightarrow> u32 \<Rightarrow> u32 \<Rightarrow> string \<Rightarrow> db_msg" where
  "set_msg m uid gid content =
     m\<lparr>msg_user_id := uid, msg_group_id := gid, msg_content := strncpy (msg_content m) content DB_MESSAGE_MAX\<rparr>"

definition do_group_msg :: "chat_env \<Rightarrow> chat_server \<Rightarrow> chat_dbcmd \<Rightarrow> exec_result" where
  "do_group_msg env s ctx =
     (if cmd_ret ctx = DB_ASYNC_ERROR then Inr (s, ctx, Some ''Failed to insert message'')
      else bindR (cmd_msg s ctx) (\<lambda>m. Inr (server_get_send_group_msg env s m, ctx, None)))"

text \<open>A message with attachments waits in an upload token until they are uploaded.\<close>

definition attach_msg :: "chat_env \<Rightarrow> chat_server \<Rightarrow> nat \<Rightarrow> u32 \<Rightarrow> u32 \<Rightarrow> string \<Rightarrow> json \<Rightarrow> chat_server res" where
  "attach_msg env s client uid gid content atts =
     bindR (server_new_upload_token_attach env (del_event env) s) (\<lambda>(s1, a).
     bindR (deref (tokens s1) a) (\<lambda>t.
       (let ms = (case ut_union t of Ut_msg_state ms \<Rightarrow> ms | Ut_user_id i \<Rightarrow> tmp_msg_zero);
            m = (set_msg (tmsg ms) uid gid content)\<lparr>attachments_json := Some atts\<rparr>;
            s2 = put_token a (t\<lparr>ut_union := Ut_msg_state (ms\<lparr>tmsg := m, tmsg_total := of_nat (length (json_elems atts))\<rparr>)\<rparr>) s1
        in bindR (server_send_upload_token env s2 client ''send_attachments'' a) (\<lambda>(s3, n). Inr s3))))"

definition server_group_msg :: "chat_env \<Rightarrow> chat_server \<Rightarrow> nat \<Rightarrow> json \<Rightarrow> json \<Rightarrow> chat_result" where
  "server_group_msg env s client payload resp =
     ret_if_json_bad payload ''group_id'' json_type_int s resp (\<lambda>gj.
     ret_if_json_bad payload ''content'' json_type_string s resp (\<lambda>cj.
     ret_if_json_bad payload ''attachments'' json_type_array s resp (\<lambda>aj.
     bindR (client_uid s client) (\<lambda>uid.
       (let gid = json_u32 env gj; content = json_object_get_string cj
        in if json_elems aj = [] then
             (let (db, m, ok) = db_async_insert_group_msg (ew_db s) (set_msg db_msg_zero uid gid content) Data_msg
                    (cmd_zero\<lparr>cmd_exec := Some do_group_msg_cb\<rparr>)
              in Inr (set_db db s, resp, if ok then None else Some ''Internal error: async-group-msg-insert''))
           else
             (case server_verify_msg_attachments (json_elems aj) of
                Some err \<Rightarrow> Inr (s, resp, Some err)
              | None \<Rightarrow> bindR (attach_msg env s client uid gid content aj) (\<lambda>s1. Inr (s1, resp, None))))))))"

definition do_get_group_msgs :: "chat_env \<Rightarrow> chat_server \<Rightarrow> chat_dbcmd \<Rightarrow> exec_result" where
  "do_get_group_msgs env s ctx =
     (if cmd_ret ctx = DB_ASYNC_ERROR then Inr (s, ctx, Some ''Failed to get group messages'')
      else (case cmd_param ctx of
              Some (Param_group_msgs gid (Some t)) \<Rightarrow>
                answer env s ctx
                  (json_obj (JObject []) [(''cmd'', JString ''get_group_msgs''), (''group_id'', json_new_int gid),
                                          (''messages'', json_opt (json_parse env t))])
            | _ \<Rightarrow> Inl Null_dereference))"

text \<open>The client is not looked at: whoever is logged in may read any group.\<close>

definition server_get_group_msgs :: "chat_env \<Rightarrow> chat_server \<Rightarrow> nat \<Rightarrow> json \<Rightarrow> json \<Rightarrow> chat_result" where
  "server_get_group_msgs env s client payload resp =
     ret_if_json_bad payload ''group_id'' json_type_int s resp (\<lambda>gj.
     ret_if_json_bad payload ''limit'' json_type_int s resp (\<lambda>lj.
     ret_if_json_bad payload ''offset'' json_type_int s resp (\<lambda>oj.
       sent_or s resp ''Internal error: async-get-group-msgs''
         (db_async_get_group_msgs (ew_db s) (json_u32 env gj) (json_u32 env lj) (json_u32 env oj)
            (cmd_zero\<lparr>cmd_exec := Some do_get_group_msgs_cb,
                      cmd_param := Some (Param_group_id (json_u32 env gj))\<rparr>)))))"

section \<open>Invite codes\<close>

definition create_group_code_result :: "chat_env \<Rightarrow> chat_server \<Rightarrow> chat_dbcmd \<Rightarrow> exec_result" where
  "create_group_code_result env s ctx =
     (if cmd_ret ctx = DB_ASYNC_ERROR then Inr (s, ctx, Some ''Failed to create group code'')
      else (case cmd_data ctx of
              Some (Data_code c) \<Rightarrow>
                bindR (server_send_group_codes env s (cmd_client ctx) [c] (code_group_id c) (JObject [])) (\<lambda>s1.
                  Inr (s1, ctx, None))
            | _ \<Rightarrow> Inl Null_dereference))"

definition server_create_group_code :: "chat_env \<Rightarrow> chat_server \<Rightarrow> nat \<Rightarrow> json \<Rightarrow> json \<Rightarrow> chat_result" where
  "server_create_group_code env s client payload resp =
     ret_if_json_bad payload ''group_id'' json_type_int s resp (\<lambda>gj.
     ret_if_json_bad payload ''max_uses'' json_type_int s resp (\<lambda>mj.
       (let max_uses = json_get_int env mj;
            code = \<lparr>invite_code = replicate DB_GROUP_CODE_MAX NUL, code_group_id = json_u32 env gj, code_uses = 0,
                    code_max_uses = (if max_uses = 0 then 1 else max_uses)\<rparr>
        in bindR (client_uid s client) (\<lambda>uid.
             sent_or s resp ''Error: async-create-group-code''
               (db_async_create_group_code (ew_db s) code uid
                  (cmd_zero\<lparr>cmd_exec := Some create_group_code_result_cb\<rparr>))))))"

definition join_group_code_result :: "chat_server \<Rightarrow> chat_dbcmd \<Rightarrow> exec_result" where
  "join_group_code_result s ctx =
     (if cmd_ret ctx = DB_ASYNC_ERROR then Inr (s, ctx, Some ''Failed to join group'')
      else bindR (on_user_group_join s (cmd_client ctx) (param_group_id (cmd_param ctx))) (\<lambda>s1.
             Inr (s1, ctx, None)))"

definition server_join_group_code :: "chat_env \<Rightarrow> chat_server \<Rightarrow> nat \<Rightarrow> json \<Rightarrow> json \<Rightarrow> chat_result" where
  "server_join_group_code env s client payload resp =
     bindR (client_uid s client) (\<lambda>uid.
     ret_if_json_bad payload ''code'' json_type_string s resp (\<lambda>cj.
       sent_or s resp ''Error: async-user-join-group-code''
         (db_async_user_join_group_code (ew_db s) (json_object_get_string cj) uid
            (cmd_zero\<lparr>cmd_exec := Some join_group_code_result_cb\<rparr>))))"

definition get_group_codes_result :: "chat_env \<Rightarrow> chat_server \<Rightarrow> chat_dbcmd \<Rightarrow> exec_result" where
  "get_group_codes_result env s ctx =
     (if cmd_ret ctx = DB_ASYNC_ERROR then Inr (s, ctx, Some ''Failed to get group codes'')
      else (case cmd_param ctx of
              Some (Param_group_codes gid (Some t)) \<Rightarrow>
                answer env s ctx
                  (json_obj (JObject []) [(''cmd'', JString ''group_codes''), (''group_id'', json_new_int gid),
                                          (''codes'', json_opt (json_parse env t))])
            | _ \<Rightarrow> Inl Null_dereference))"

definition server_get_group_codes :: "chat_env \<Rightarrow> chat_server \<Rightarrow> nat \<Rightarrow> json \<Rightarrow> json \<Rightarrow> chat_result" where
  "server_get_group_codes env s client payload resp =
     ret_if_json_bad payload ''group_id'' json_type_int s resp (\<lambda>gj.
     bindR (client_uid s client) (\<lambda>uid.
       sent_or s resp ''Error: async-get-group-codes''
         (db_async_get_group_codes (ew_db s) (json_u32 env gj) uid
            (cmd_zero\<lparr>cmd_exec := Some get_group_codes_result_cb\<rparr>))))"

definition delete_group_code_result :: "chat_server \<Rightarrow> chat_dbcmd \<Rightarrow> exec_result" where
  "delete_group_code_result s ctx =
     Inr (s, ctx, if cmd_ret ctx = DB_ASYNC_ERROR then Some ''Failed to delete group code'' else None)"

definition server_delete_group_code :: "chat_env \<Rightarrow> chat_server \<Rightarrow> nat \<Rightarrow> json \<Rightarrow> json \<Rightarrow> chat_result" where
  "server_delete_group_code env s client payload resp =
     bindR (client_uid s client) (\<lambda>uid.
     ret_if_json_bad payload ''code'' json_type_string s resp (\<lambda>cj.
       sent_or s resp ''Error: async-delete-group-code''
         (db_async_delete_group_code (ew_db s) (json_object_get_string cj) uid
            (cmd_zero\<lparr>cmd_exec := Some delete_group_code_result_cb\<rparr>))))"

section \<open>Deleting\<close>

definition delete_msg_result :: "chat_env \<Rightarrow> chat_server \<Rightarrow> chat_dbcmd \<Rightarrow> exec_result" where
  "delete_msg_result env s ctx =
     (if cmd_ret ctx = DB_ASYNC_ERROR then Inr (s, ctx, Some ''Failed to delete message'')
      else (case cmd_param ctx of
              Some (Param_del_msg mid gid (Some atts)) \<Rightarrow>
                bindR (server_delete_msg_attachments env s atts) (\<lambda>s1.
                  Inr (server_group_broadcast s1 gid
                         (json_obj (JObject []) [(''cmd'', JString ''delete_msg''), (''msg_id'', json_new_int mid),
                                                 (''group_id'', json_new_int gid)]), ctx, None))
            | _ \<Rightarrow> Inl Null_dereference))"

definition server_delete_group_msg :: "chat_env \<Rightarrow> chat_server \<Rightarrow> nat \<Rightarrow> json \<Rightarrow> json \<Rightarrow> chat_result" where
  "server_delete_group_msg env s client payload resp =
     bindR (client_uid s client) (\<lambda>uid.
     ret_if_json_bad payload ''msg_id'' json_type_int s resp (\<lambda>mj.
       sent_or s resp ''Error: async-delete-msg''
         (db_async_delete_msg (ew_db s) (json_u32 env mj) uid
            (cmd_zero\<lparr>cmd_exec := Some delete_msg_result_cb,
                      cmd_param := Some (Param_del_msg (json_u32 env mj) 0 None)\<rparr>))))"

fun delete_all_attachs :: "chat_env \<Rightarrow> json option list \<Rightarrow> chat_server \<Rightarrow> chat_server res" where
  "delete_all_attachs env [] s = Inr s"
| "delete_all_attachs env (j # js) s =
     bindR (server_delete_attachments_json env s j) (\<lambda>s1. delete_all_attachs env js s1)"

text \<open>
  The second and third command of the chain are the messages' attachments and the member ids;
  both are read before the results are checked, so that a chain of one command crashes, and a
  chain of two when its commands succeeded.
\<close>

definition delete_group_result :: "chat_env \<Rightarrow> chat_server \<Rightarrow> chat_dbcmd \<Rightarrow> chat_dbcmd list \<Rightarrow> exec_result" where
  "delete_group_result env s ctx rest =
     (case rest of
        [] \<Rightarrow> Inl Null_dereference
      | attach_ctx # rest1 \<Rightarrow>
          if list_ex (\<lambda>c. cmd_ret c = DB_ASYNC_ERROR) (ctx # rest)
          then Inr (s, ctx, Some ''Failed to delete group'')
          else (case rest1 of
                  [] \<Rightarrow> Inl Null_dereference
                | member_ids_ctx # rest2 \<Rightarrow>
                    (let atts = (case cmd_data attach_ctx of Some (Data_attachs js) \<Rightarrow> js | _ \<Rightarrow> []);
                         ids = (case cmd_data member_ids_ctx of Some (Data_ids is) \<Rightarrow> is | _ \<Rightarrow> []);
                         gid = param_group_id (cmd_param ctx)
                     in bindR (delete_all_attachs env (take (nat (cmd_data_size attach_ctx)) atts) s) (\<lambda>s1.
                        bindR (send_to_users env
                                 (json_obj (JObject []) [(''cmd'', JString ''delete_group''), (''group_id'', json_new_int gid)])
                                 (take (nat (cmd_data_size member_ids_ctx)) ids) s1) (\<lambda>s2.
                          Inr (s2, ctx, None))))))"

definition get_group_owner :: "chat_server \<Rightarrow> chat_dbcmd \<Rightarrow> exec_result" where
  "get_group_owner s ctx =
     (if cmd_ret ctx = DB_ASYNC_ERROR then Inr (s, ctx, Some ''Failed to get group owner'')
      else (case cmd_param ctx of
              Some (Param_group_owner gid owner uid) \<Rightarrow>
                if uid \<noteq> owner then Inr (s, ctx, Some ''Not group owner'')
                else
                  (let (db, ok) = db_async_delete_group (ew_db s) gid
                         (cmd_zero\<lparr>cmd_exec := Some delete_group_result_cb, cmd_param := Some (Param_group_id gid)\<rparr>)
                   in Inr (set_db db s, ctx, if ok then None else Some ''Error: async-delete-group''))
            | _ \<Rightarrow> Inl Null_dereference))"

definition server_delete_group :: "chat_env \<Rightarrow> chat_server \<Rightarrow> nat \<Rightarrow> json \<Rightarrow> json \<Rightarrow> chat_result" where
  "server_delete_group env s client payload resp =
     ret_if_json_bad payload ''group_id'' json_type_int s resp (\<lambda>gj.
     bindR (client_uid s client) (\<lambda>uid.
       sent_or s resp ''Error: async-get-group-owner''
         (db_async_get_group_owner (ew_db s) (json_u32 env gj)
            (cmd_zero\<lparr>cmd_exec := Some get_group_owner_cb,
                      cmd_param := Some (Param_group_owner (json_u32 env gj) 0 uid)\<rparr>))))"

definition do_get_group_member_ids :: "chat_env \<Rightarrow> chat_server \<Rightarrow> chat_dbcmd \<Rightarrow> exec_result" where
  "do_get_group_member_ids env s ctx =
     (if cmd_ret ctx = DB_ASYNC_ERROR then Inr (s, ctx, Some ''Failed to get group member IDs'')
      else (case cmd_param ctx of
              Some (Param_member_ids gid (Some t)) \<Rightarrow>
                answer env s ctx
                  (json_obj (JObject []) [(''cmd'', JString ''get_member_ids''), (''group_id'', json_new_int gid),
                                          (''member_ids'', json_opt (json_parse env t))])
            | _ \<Rightarrow> Inl Null_dereference))"

definition server_get_group_member_ids :: "chat_env \<Rightarrow> chat_server \<Rightarrow> nat \<Rightarrow> json \<Rightarrow> json \<Rightarrow> chat_result" where
  "server_get_group_member_ids env s client payload resp =
     ret_if_json_bad payload ''group_id'' json_type_int s resp (\<lambda>gj.
       (let (db, ctx, ok) = db_async_get_group_member_ids (ew_db s) (json_u32 env gj)
              (cmd_zero\<lparr>cmd_exec := Some do_get_group_member_ids_cb,
                        cmd_param := Some (Param_member_ids (json_u32 env gj) None)\<rparr>)
        in Inr (set_db db s, resp, if ok then None else Some ''internal error: async-get-group-member-ids'')))"

section \<open>Who gets a broadcast\<close>

text \<open>The clients of the members that are connected, in the order of the ids.\<close>

definition online :: "chat_server \<Rightarrow> u64 list \<Rightarrow> nat list" where
  "online s keys = List.map_filter (\<lambda>k. server_get_client_user_id s k) keys"

fun send_all :: "chat_env \<Rightarrow> json \<Rightarrow> nat list \<Rightarrow> chat_server \<Rightarrow> chat_server res" where
  "send_all env j [] s = Inr s"
| "send_all env j (c # cs) s = bindR (ws_json_send env s c j) (\<lambda>(s1, n). send_all env j cs s1)"

lemma ws_json_send_lookup:
  "ws_json_send env s c j = Inr (s1, n) \<Longrightarrow> server_get_client_user_id s1 k = server_get_client_user_id s k"
  by (auto simp: ws_json_send_def bindR_Inr case_prod_beta Let_def server_get_client_user_id_def)

lemma online_Cons:
  "online s (k # ks) = (case server_get_client_user_id s k of None \<Rightarrow> online s ks | Some c \<Rightarrow> c # online s ks)"
  by (simp add: online_def List.map_filter_def split: option.split)

lemma online_cong: "(\<And>k. server_get_client_user_id s k = server_get_client_user_id s' k) \<Longrightarrow> online s ks = online s' ks"
  by (simp add: online_def)

lemma send_to_members_all: "send_to_members env j ids s = send_all env j (online s (map scast ids)) s"
proof (induction ids arbitrary: s)
  case (Cons i ids)
  show ?case
  proof (cases "server_get_client_user_id s (scast i)")
    case (Some c)
    have "send_to_members env j ids s1 = send_all env j (online s (map scast ids)) s1"
      if "ws_json_send env s c j = Inr (s1, n)" for s1 n
      using Cons.IH [of s1] online_cong [of s1 s] ws_json_send_lookup [OF that] by simp
    then show ?thesis using Some
      by (cases "ws_json_send env s c j") (auto simp: online_Cons)
  qed (simp add: online_Cons Cons.IH)
qed (simp add: online_def List.map_filter_def)

lemma send_to_users_all: "send_to_users env j ids s = send_all env j (online s (map id_key ids)) s"
proof (induction ids arbitrary: s)
  case (Cons i ids)
  show ?case
  proof (cases "server_get_client_user_id s (id_key i)")
    case (Some c)
    have "send_to_users env j ids s1 = send_all env j (online s (map id_key ids)) s1"
      if "ws_json_send env s c j = Inr (s1, n)" for s1 n
      using Cons.IH [of s1] online_cong [of s1 s] ws_json_send_lookup [OF that] by simp
    then show ?thesis using Some
      by (cases "ws_json_send env s c j") (auto simp: online_Cons)
  qed (simp add: online_Cons Cons.IH)
qed (simp add: online_def List.map_filter_def)

definition frame_sent :: "chat_env \<Rightarrow> json \<Rightarrow> client \<Rightarrow> client" where
  "frame_sent env j c = fst (ws_send c (map of_char (json_print env j)))"

lemma send_all_ok:
  assumes "distinct cs" "\<And>c. c \<in> set cs \<Longrightarrow> clients s c \<noteq> None"
  shows "send_all env j cs s =
    Inr (s\<lparr>clients := \<lambda>a. if a \<in> set cs then map_option (frame_sent env j) (clients s a) else clients s a\<rparr>)"
  using assms
proof (induction cs arbitrary: s)
  case (Cons c cs)
  then obtain x where x: "clients s c = Some x" by auto
  let ?s1 = "put_client c (frame_sent env j x) s"
  have send: "ws_json_send env s c j = Inr (?s1, snd (ws_send x (map of_char (json_print env j))))"
    by (simp add: ws_json_send_def x case_prod_beta Let_def frame_sent_def)
  have "send_all env j cs ?s1 =
      Inr (?s1\<lparr>clients := \<lambda>a. if a \<in> set cs then map_option (frame_sent env j) (clients ?s1 a) else clients ?s1 a\<rparr>)"
    by (rule Cons.IH) (use Cons.prems in auto)
  moreover have "(\<lambda>a. if a \<in> set cs then map_option (frame_sent env j) (clients ?s1 a) else clients ?s1 a) =
      (\<lambda>a. if a \<in> set (c # cs) then map_option (frame_sent env j) (clients s a) else clients s a)"
    using Cons.prems(1) x by (auto simp: fun_eq_iff)
  ultimately show ?case using send by (simp add: put_client_def)
qed simp

definition demo_member_server :: chat_server where
  "demo_member_server = demo_login_server
     \<lparr>clients := [4 \<mapsto> (client_zero 7 (\<lambda>k. 1))\<lparr>dbuser := Some 6\<rparr>],
      user_ht := fst (server_ght_insert (empty_table 10) 5 (Some 4))\<rparr>"

lemma demo_member_lookup: "server_get_client_user_id demo_member_server k = (if k = 5 then Some 4 else None)"
proof -
  have "(5 :: u64) \<noteq> 0" by simp
  from insert_get(2) [OF empty_table_ok(1) this _ empty_table_ok(3), of 10 "4::nat"] show ?thesis
    by (simp add: server_get_client_user_id_def demo_member_server_def empty_table_ok)
qed

text \<open>
  \<^bold>\<open>C38. A group message reaches the connected members.\<close> When the query of the member ids is in,
  the broadcast sends the message once to the client of every member that is connected and
  changes nothing else, whatever the state of the connections; members that are not connected
  are passed over.
\<close>

theorem group_broadcast_reaches_online:
  assumes "cmd_param ctx = Some (Param_json j)" "cmd_data ctx = Some (Data_ids ids)"
    "cmd_data_size ctx = int (length ids)"
    "distinct (online s (map scast ids))"
    "\<And>k c. server_get_client_user_id s k = Some c \<Longrightarrow> clients s c \<noteq> None"
  shows "do_group_broadcast env s ctx =
    Inr (s\<lparr>clients := \<lambda>a. if \<exists>i\<in>set ids. server_get_client_user_id s (scast i) = Some a
                        then map_option (frame_sent env j) (clients s a) else clients s a\<rparr>, ctx, None)"
proof -
  have set: "a \<in> set (online s (map scast ids)) \<longleftrightarrow> (\<exists>i\<in>set ids. server_get_client_user_id s (scast i) = Some a)" for a
    by (induction ids) (auto simp: online_Cons online_def List.map_filter_def split: option.split)
  have live: "clients s c \<noteq> None" if "c \<in> set (online s (map scast ids))" for c
    using that set assms(5) by blast
  have "send_to_members env j ids s = Inr (s\<lparr>clients := \<lambda>a. if \<exists>i\<in>set ids. server_get_client_user_id s (scast i) = Some a
                        then map_option (frame_sent env j) (clients s a) else clients s a\<rparr>)"
    using send_all_ok [OF assms(4) live, of env j] by (simp add: send_to_members_all set)
  then show ?thesis
    using assms(1-3) by (cases "ids = []") (auto simp: do_group_broadcast_def)
qed

theorem group_broadcast_reaches_online_witness:
  "do_group_broadcast demo_env demo_member_server
     (cmd_zero\<lparr>cmd_data := Some (Data_ids [9, 5]), cmd_data_size := 2, cmd_param := Some (Param_json JNull)\<rparr>) =
   Inr (demo_member_server\<lparr>clients := \<lambda>a. if a = 4 then map_option (frame_sent demo_env JNull) (clients demo_member_server a)
                                     else clients demo_member_server a\<rparr>,
        cmd_zero\<lparr>cmd_data := Some (Data_ids [9, 5]), cmd_data_size := 2, cmd_param := Some (Param_json JNull)\<rparr>, None)"
proof -
  let ?ctx = "cmd_zero\<lparr>cmd_data := Some (Data_ids [9, 5]), cmd_data_size := 2, cmd_param := Some (Param_json JNull)\<rparr>"
  have online: "(\<exists>i\<in>set [9, 5::u32]. server_get_client_user_id demo_member_server (scast i) = Some a) \<longleftrightarrow> a = 4" for a
    by (simp add: demo_member_lookup)
  have live: "clients demo_member_server c \<noteq> None" if "server_get_client_user_id demo_member_server k = Some c" for k c
    using that by (simp add: demo_member_lookup split: if_splits) (simp add: demo_member_server_def)
  show ?thesis
    by (rule group_broadcast_reaches_online [of ?ctx JNull "[9, 5]" demo_member_server demo_env, unfolded online])
      (simp_all add: online_def List.map_filter_def demo_member_lookup live)
qed

section \<open>Only the owner deletes a group, in one transaction\<close>

definition group_deletion :: "string list" where
  "group_deletion =
     [''BEGIN;'', get_all_attachs_sql, ''SELECT user_id FROM GroupMembers WHERE group_id = $1::int;''] @
     del_group_sqls @ [''COMMIT;'']"

definition with_gid :: "u32 \<Rightarrow> string \<Rightarrow> string \<times> string option list" where
  "with_gid gid q = (q, if q \<in> {''BEGIN;'', ''COMMIT;'', ''ROLLBACK;''} then [] else [Some (u32_text gid)])"

definition send_ok :: "chat_db \<Rightarrow> nat \<Rightarrow> bool" where
  "send_ok db i \<longleftrightarrow> pq_send db (length (pq_sent db) + i) = 1"

lemma db_async_params_cases:
  assumes "\<And>k. pq_send db k = 0 \<or> pq_send db k = 1"
  shows "db_async_params db q vals (Some c) =
    (if pq_send db (length (pq_sent db)) = 1
     then (db_pipeline_enqueue_current (db\<lparr>pq_sent := pq_sent db @ [(q, vals)]\<rparr>) c, 1)
     else (db\<lparr>pq_sent := pq_sent db @ [(q, vals)]\<rparr>, 0))"
  using assms [of "length (pq_sent db)"] by (auto simp: db_async_params_def)

lemma delete_group_all_sent:
  assumes "\<And>k. pq_send db k = 1"
  obtains db' where "db_async_delete_group db gid ctx = (db', True)"
    "pq_sent db' = pq_sent db @ map (with_gid gid) group_deletion"
proof -
  have flag: "(x OR 1) AND 1 \<noteq> (0 :: u32)" for x by (simp add: bit_eq_iff) (rule exI [of _ 0], simp add: bit_simps)
  have c: "\<And>db' q vals c. pq_send db' = pq_send db \<Longrightarrow> db_async_params db' q vals (Some c) =
      (if pq_send db (length (pq_sent db')) = 1
       then (db_pipeline_enqueue_current (db'\<lparr>pq_sent := pq_sent db' @ [(q, vals)]\<rparr>) c, 1)
       else (db'\<lparr>pq_sent := pq_sent db' @ [(q, vals)]\<rparr>, 0))"
    by (simp add: db_async_params_def assms)
  have "snd (db_async_delete_group db gid ctx) \<and>
      pq_sent (fst (db_async_delete_group db gid ctx)) = pq_sent db @ map (with_gid gid) group_deletion"
    by (simp add: assms c flag db_async_delete_group_def db_async_begin_def db_async_exec_def db_async_commit_def
        db_async_rollback_def db_async_get_group_member_ids_def del_group_sqls_def Let_def DB_CTX_NO_JSON_def
        group_deletion_def with_gid_def get_all_attachs_sql_def)
  then show thesis by (intro that [of "fst (db_async_delete_group db gid ctx)"]) (simp_all add: prod_eq_iff)
qed

text \<open>
  \<^bold>\<open>C39. The statements of a group deletion.\<close> What is handed to libpq is a prefix of
  \<open>group_deletion\<close>, each statement with the id of the group: the deletions behind \<^verbatim>\<open>BEGIN\<close> and
  before \<^verbatim>\<open>COMMIT\<close>, messages before members before codes before the group. When the
  \<open>k\<close>-th one is refused, nothing behind it is tried. A \<^verbatim>\<open>ROLLBACK\<close> follows exactly when the
  refused one is one of the six between \<^verbatim>\<open>BEGIN\<close> and \<^verbatim>\<open>COMMIT\<close>; a refused \<^verbatim>\<open>BEGIN\<close>
  (\<open>k = 0\<close>) needs none, but a refused \<^verbatim>\<open>COMMIT\<close> (\<open>k = 7\<close>) has none either, and the
  transaction stays open. The caller is told success exactly when all eight were taken.
\<close>

theorem delete_group_transaction:
  assumes "\<And>k. pq_send db k = 0 \<or> pq_send db k = 1"
  shows "\<exists>k\<le>7. (\<forall>i<k. send_ok db i) \<and> (k < 7 \<longrightarrow> \<not> send_ok db k) \<and>
    pq_sent (fst (db_async_delete_group db gid ctx)) = pq_sent db @ map (with_gid gid)
      (take (Suc k) group_deletion @ (if 0 < k \<and> k < 7 then [''ROLLBACK;''] else [])) \<and>
    (snd (db_async_delete_group db gid ctx) \<longleftrightarrow> k = 7 \<and> send_ok db 7)"
proof -
  note defs = db_async_delete_group_def db_async_begin_def db_async_exec_def db_async_commit_def
    db_async_rollback_def db_async_get_group_member_ids_def del_group_sqls_def Let_def DB_CTX_NO_JSON_def
    group_deletion_def with_gid_def get_all_attachs_sql_def
  have c: "\<And>db' q vals c. pq_send db' = pq_send db \<Longrightarrow> db_async_params db' q vals (Some c) =
      (if pq_send db (length (pq_sent db')) = 1
       then (db_pipeline_enqueue_current (db'\<lparr>pq_sent := pq_sent db' @ [(q, vals)]\<rparr>) c, 1)
       else (db'\<lparr>pq_sent := pq_sent db' @ [(q, vals)]\<rparr>, 0))"
    using assms(1) db_async_params_cases by metis
  have flag: "(x OR 1) AND 1 \<noteq> (0 :: u32)" for x by (simp add: bit_eq_iff) (rule exI [of _ 0], simp add: bit_simps)
  consider "\<not> send_ok db 0" | "send_ok db 0" "\<not> send_ok db 1" | "send_ok db 0" "send_ok db 1" "\<not> send_ok db 2"
    | "send_ok db 0" "send_ok db 1" "send_ok db 2" "\<not> send_ok db 3" | "send_ok db 0" "send_ok db 1" "send_ok db 2" "send_ok db 3" "\<not> send_ok db 4"
    | "send_ok db 0" "send_ok db 1" "send_ok db 2" "send_ok db 3" "send_ok db 4" "\<not> send_ok db 5"
    | "send_ok db 0" "send_ok db 1" "send_ok db 2" "send_ok db 3" "send_ok db 4" "send_ok db 5" "\<not> send_ok db 6"
    | "send_ok db 0" "send_ok db 1" "send_ok db 2" "send_ok db 3" "send_ok db 4" "send_ok db 5" "send_ok db 6" by blast
  then show ?thesis
  proof cases
    case 1
    then show ?thesis by (intro exI [of _ 0]) (simp add: defs c flag send_ok_def eval_nat_numeral All_less_Suc)
  next
    case 2
    then show ?thesis by (intro exI [of _ 1]) (simp add: defs c flag send_ok_def eval_nat_numeral All_less_Suc)
  next
    case 3
    then show ?thesis by (intro exI [of _ 2]) (simp add: defs c flag send_ok_def eval_nat_numeral All_less_Suc)
  next
    case 4
    then show ?thesis by (intro exI [of _ 3]) (simp add: defs c flag send_ok_def eval_nat_numeral All_less_Suc)
  next
    case 5
    then show ?thesis by (intro exI [of _ 4]) (simp add: defs c flag send_ok_def eval_nat_numeral All_less_Suc)
  next
    case 6
    then show ?thesis by (intro exI [of _ 5]) (simp add: defs c flag send_ok_def eval_nat_numeral All_less_Suc)
  next
    case 7
    then show ?thesis by (intro exI [of _ 6]) (simp add: defs c flag send_ok_def eval_nat_numeral All_less_Suc)
  next
    case 8
    then show ?thesis by (intro exI [of _ 7]) (simp add: defs c flag send_ok_def eval_nat_numeral All_less_Suc)
  qed
qed

theorem delete_group_transaction_witness:
  "pq_sent (fst (db_async_delete_group demo_server_db 7 cmd_zero)) = map (with_gid 7) group_deletion \<and>
    snd (db_async_delete_group demo_server_db 7 cmd_zero)"
proof -
  have db: "\<And>k. pq_send demo_server_db k = 1" "pq_sent demo_server_db = []" by (simp_all add: demo_server_db_def)
  have "\<And>k. pq_send demo_server_db k = 0 \<or> pq_send demo_server_db k = 1" by (simp add: db)
  from delete_group_transaction [OF this, of 7 cmd_zero] obtain k where k: "k \<le> 7" "k < 7 \<longrightarrow> \<not> send_ok demo_server_db k"
    "pq_sent (fst (db_async_delete_group demo_server_db 7 cmd_zero)) = pq_sent demo_server_db @ map (with_gid 7)
      (take (Suc k) group_deletion @ (if 0 < k \<and> k < 7 then [''ROLLBACK;''] else []))"
    "snd (db_async_delete_group demo_server_db 7 cmd_zero) \<longleftrightarrow> k = 7 \<and> send_ok demo_server_db 7" by blast
  then have "k = 7" using db by (simp add: send_ok_def)
  then show ?thesis using k(3,4) db by (simp add: send_ok_def group_deletion_def del_group_sqls_def)
qed

text \<open>
  \<^bold>\<open>C26. Only the owner deletes a group.\<close> The command \<^verbatim>\<open>delete_group\<close> itself sends no more
  than the query of the owner of the group it names. When the result of that query makes the
  callback send anything, the row says that the owner is the user that was logged in at the
  client when the command came in, and what is sent is the deletion of that same group.
\<close>

theorem delete_group_only_by_owner:
  assumes cmd: "server_delete_group env s client payload resp = Inr (s1, resp1, err1)"
    and c: "ctx_chain (ew_db s1) = ctx_chain (ew_db s) @ [c]"
    and res: "get_group_owner_result s2 rows status c = Inr (s3, c1)"
    and exec: "get_group_owner s3 c1 = Inr (s4, c2, err2)" "pq_sent (ew_db s4) \<noteq> pq_sent (ew_db s3)"
  shows "\<exists>uid gid x. client_uid s client = Inr uid \<and>
    gid = json_u32 env (the (json_object_object_get payload ''group_id'')) \<and>
    pq_sent (ew_db s1) = pq_sent (ew_db s) @
      [(''SELECT owner_id FROM Groups WHERE group_id = $1::int;'', [Some (u32_text gid)])] \<and>
    status = PGRES_TUPLES_OK \<and> PQgetvalue rows 0 0 = Some x \<and> ucast (strtoul 0 x) = uid \<and>
    (\<exists>ctx. ew_db s4 = fst (db_async_delete_group (ew_db s3) gid ctx))"
proof -
  let ?gid = "json_u32 env (the (json_object_object_get payload ''group_id''))"
  have ok: "\<not> json_bad (json_object_object_get payload ''group_id'') json_type_int"
  proof
    assume "json_bad (json_object_object_get payload ''group_id'') json_type_int"
    with cmd have "s1 = s" by (simp add: server_delete_group_def ret_if_json_bad_def)
    with c show False by simp
  qed
  with cmd obtain uid where uid: "client_uid s client = Inr uid"
    and s1: "s1 = set_db (fst (db_async_get_group_owner (ew_db s) ?gid
       (cmd_zero\<lparr>cmd_exec := Some get_group_owner_cb, cmd_param := Some (Param_group_owner ?gid 0 uid)\<rparr>))) s"
    by (auto simp: server_delete_group_def ret_if_json_bad_def Let_def bindR_Inr sent_or_def)
  have sent: "pq_sent (ew_db s1) = pq_sent (ew_db s) @
      [(''SELECT owner_id FROM Groups WHERE group_id = $1::int;'', [Some (u32_text ?gid)])]"
    and par: "cmd_param c = Some (Param_group_owner ?gid 0 uid)"
    using c by (auto simp: s1 db_async_get_group_owner_def db_async_params_def Let_def split: if_splits option.splits prod.splits)
  show ?thesis
  proof (cases "status = PGRES_TUPLES_OK \<and> length rows \<noteq> 0")
    case False
    with res exec show ?thesis by (auto simp: get_group_owner_result_def get_group_owner_def split: if_splits)
  next
    case True
    with res par obtain x where x: "PQgetvalue rows 0 0 = Some x"
      and c1: "c1 = c\<lparr>cmd_param := Some (Param_group_owner ?gid (ucast (strtoul 0 x)) uid), cmd_ret := DB_ASYNC_OK\<rparr>"
      by (auto simp: get_group_owner_result_def split: option.splits)
    from exec have "uid = ucast (strtoul 0 x) \<and> (\<exists>ctx. ew_db s4 = fst (db_async_delete_group (ew_db s3) ?gid ctx))"
      by (auto simp: get_group_owner_def c1 db_consts case_prod_beta Let_def split: if_splits)
    then show ?thesis using uid sent True x by auto
  qed
qed

theorem delete_group_only_by_owner_witness:
  "\<exists>s1 c s4 c2. server_delete_group demo_env demo_member_server 4 (JObject [(''group_id'', JInt 0)]) (JObject []) =
      Inr (s1, JObject [], None) \<and> ctx_chain (ew_db s1) = [c] \<and>
    get_group_owner demo_member_server (c\<lparr>cmd_param := Some (Param_group_owner 0 5 5), cmd_ret := DB_ASYNC_OK\<rparr>) = Inr (s4, c2, None) \<and>
    (\<exists>ctx. ew_db s4 = fst (db_async_delete_group (ew_db demo_member_server) 0 ctx))"
proof -
  let ?p = "JObject [(''group_id'', JInt 0)]"
  let ?c = "cmd_zero\<lparr>cmd_exec := Some get_group_owner_cb, cmd_exec_res := Some get_group_owner_result_cb,
    cmd_param := Some (Param_group_owner 0 0 5)\<rparr> :: chat_dbcmd"
  let ?c1 = "?c\<lparr>cmd_param := Some (Param_group_owner 0 5 5), cmd_ret := DB_ASYNC_OK\<rparr>"
  have uid: "client_uid demo_member_server 4 = Inr 5"
    by (simp add: client_uid_def demo_member_server_def demo_login_server_def demo_user_def)
  have sends: "\<And>k. pq_send (ew_db demo_member_server) k = 1" "ctx_client (ew_db demo_member_server) = None"
    "ctx_chain (ew_db demo_member_server) = []"
    by (simp_all add: demo_member_server_def demo_login_server_def server_start_def demo_server_db_def)
  have gid: "json_u32 demo_env (JInt 0) = 0" by (simp add: json_u32_def demo_env_def)
  obtain db where db: "db_async_get_group_owner (ew_db demo_member_server) 0
      (cmd_zero\<lparr>cmd_exec := Some get_group_owner_cb, cmd_param := Some (Param_group_owner 0 0 5)\<rparr>) = (db, True)"
    "ctx_chain db = [?c]"
    by (simp add: db_async_get_group_owner_def db_async_params_ok sends cmd_zero_def)
  have s1: "server_delete_group demo_env demo_member_server 4 ?p (JObject []) =
      Inr (set_db db demo_member_server, JObject [], None)"
    by (simp add: server_delete_group_def ret_if_json_bad_def json_bad_def uid sent_or_def gid db)
  have "dec_digits 5 = ''5''" by (simp add: dec_digits.simps) code_simp
  with strtoul_0_dec_digits [of 5] have owner: "strtoul 0 ''5'' = 5" by simp
  have res: "get_group_owner_result demo_member_server [[''5'']] PGRES_TUPLES_OK ?c = Inr (demo_member_server, ?c1)"
    by (simp add: get_group_owner_result_def PQgetvalue_def owner)
  obtain s4 where s4: "get_group_owner demo_member_server ?c1 = Inr (s4, ?c1, None)"
    "pq_sent (ew_db s4) \<noteq> pq_sent (ew_db demo_member_server)"
  proof -
    obtain db4 where "db_async_delete_group (ew_db demo_member_server) 0
        (cmd_zero\<lparr>cmd_exec := Some delete_group_result_cb, cmd_param := Some (Param_group_id 0)\<rparr>) = (db4, True)"
      "pq_sent db4 = pq_sent (ew_db demo_member_server) @ map (with_gid 0) group_deletion"
      by (rule delete_group_all_sent [OF sends(1)])
    then show thesis by (intro that [of "set_db db4 demo_member_server"]) (simp_all add: get_group_owner_def db_consts group_deletion_def)
  qed
  have chain: "ctx_chain (ew_db (set_db db demo_member_server)) = ctx_chain (ew_db demo_member_server) @ [?c]"
    using db(2) sends(3) by simp
  have "\<exists>ctx. ew_db s4 = fst (db_async_delete_group (ew_db demo_member_server) 0 ctx)"
    using delete_group_only_by_owner [OF s1 chain res s4] by (auto simp: gid)
  moreover have "ctx_chain (ew_db (set_db db demo_member_server)) = [?c]" using db(2) by simp
  ultimately show ?thesis using s1 s4(1)
    by (intro exI [of _ "set_db db demo_member_server"] exI [of _ ?c] exI [of _ s4] exI [of _ ?c1]) simp
qed

end
