(* ===== verification/User_Upload.thy ===== *)
theory User_Upload
  imports Server_Http Chat_Group
begin

text \<open>
  Uploads over HTTP POST (\<^verbatim>\<open>server/src/chat/user_upload.c\<close>): a request carries the number of an
  upload token; the token says whether the body is a profile picture or an attachment of a message
  that waits for all its attachments. \<open>client\<close> is the address of the connection of the request.
\<close>

abbreviation chat_demo_env :: chat_env where
  "chat_demo_env \<equiv> Server_Events.demo_env"

section \<open>The token of a request\<close>

text \<open>Whether \<^verbatim>\<open>strtoull\<close> finds a digit, so that its end pointer moves.\<close>

definition strtoul_moves :: "string \<Rightarrow> bool" where
  "strtoul_moves str =
     (let s = dropWhile is_space str;
          t = (case s of c # cs \<Rightarrow> if c = CHR ''-'' \<or> c = CHR ''+'' then cs else s | [] \<Rightarrow> [])
      in digits_of 10 t \<noteq> [])"

text \<open>
  \<^verbatim>\<open>errno\<close> is not cleared before the conversion: a value left by an earlier call (\<open>os_errno\<close>)
  refuses the token 0. The header is read without a check that it is there.
\<close>

definition server_check_upload_token :: "chat_env \<Rightarrow> chat_server \<Rightarrow> http \<Rightarrow> nat option res" where
  "server_check_upload_token env s http =
     (case http_get_header http ''Upload-Token'' of
        None \<Rightarrow> Inl Null_dereference
      | Some i \<Rightarrow>
          (let token = strtoul 10 (header_val http i)
           in if token = 0 \<and> os_errno env (os_calls s) then Inr None
              else if \<not> strtoul_moves (header_val http i) then Inr None
              else (case server_get_upload_token s (ucast token) of
                      None \<Rightarrow> Inr None
                    | Some a \<Rightarrow> bindR (deref (tokens s) a) (\<lambda>ut.
                        Inr (if ucast (ut_token ut) = token then Some a else None)))))"

section \<open>Responses\<close>

definition send_resp :: "chat_server \<Rightarrow> nat \<Rightarrow> http \<Rightarrow> chat_server res" where
  "send_resp s client resp =
     bindR (deref (clients s) client) (\<lambda>c. Inr (put_client client (fst (http_send c resp)) s))"

text \<open>\<^verbatim>\<open>http->body\<close> and \<^verbatim>\<open>http->body_len\<close> as the data they stand for.\<close>

definition body_data :: "http \<Rightarrow> string" where
  "body_data http = take (body_len http) (case body http of None \<Rightarrow> [] | Some b \<Rightarrow> b)"

text \<open>\<^verbatim>\<open>server_get_event\<close> and then the event or the token itself is deleted.\<close>

definition drop_token :: "chat_env \<Rightarrow> chat_server \<Rightarrow> nat \<Rightarrow> chat_server res" where
  "drop_token env s a =
     bindR (deref (tokens s) a) (\<lambda>ut.
       case server_get_event s (ut_timerfd ut) of
         Some e \<Rightarrow> del_event env (Some e) s
       | None \<Rightarrow> server_del_upload_token (del_event env) s (Some a))"

section \<open>Profile pictures\<close>

definition update_pfp_result :: "chat_server \<Rightarrow> chat_dbcmd \<Rightarrow> exec_result" where
  "update_pfp_result s ctx =
     (if cmd_ret ctx = DB_ASYNC_ERROR then Inr (s, ctx, None)
      else (case (cmd_param ctx, cmd_data ctx) of
              (Some (Param_user ua), Some (Data_file file)) \<Rightarrow>
                bindR (deref (users s) ua) (\<lambda>user.
                  (let old_file = \<lparr>file_hash = cstr (take DB_PFP_HASH_MAX (pfp_hash user)) 0, file_name = [],
                                   file_mime_type = ''image/'', file_size = 0\<rparr>;
                       s1 = fst (server_delete_file s old_file);
                       s2 = put_user ua (user\<lparr>pfp_hash := strncpy (pfp_hash user) (file_hash file) DB_PFP_HASH_MAX\<rparr>) s1
                   in bindR (server_rtusm_user_pfp_change s2 ua) (\<lambda>s3. Inr (s3, ctx, None))))
            | _ \<Rightarrow> Inl Null_dereference))"

text \<open>The result says that it failed.\<close>

definition update_user_pfp :: "chat_server \<Rightarrow> nat \<Rightarrow> db_user_file \<Rightarrow> (chat_server \<times> bool) res" where
  "update_user_pfp s ua file =
     bindR (deref (users s) ua) (\<lambda>user.
       (let (db, ret) = db_async_update_user (ew_db s) None None (Some (file_hash file)) (user_id user)
              (cmd_zero\<lparr>cmd_exec := Some update_pfp_result_cb, cmd_param := Some (Param_user ua),
                        cmd_data := Some (Data_file file)\<rparr>)
        in Inr (set_db db s, \<not> ret)))"

definition server_handle_user_pfp_update ::
  "chat_env \<Rightarrow> chat_server \<Rightarrow> nat \<Rightarrow> http \<Rightarrow> u32 \<Rightarrow> chat_server res" where
  "server_handle_user_pfp_update env s client http uid =
     (if \<not> strncmp_eq (req_url http) ''/img/'' 5
      then send_resp s client (http_new_resp 400 ''Not image'' None 0)
      else bindR (case server_get_client_user_id s (id_key uid) of
                    None \<Rightarrow> Inr (s, True)
                  | Some uc \<Rightarrow>
                      bindR (deref (clients s) uc) (\<lambda>c.
                        (case server_save_file_img env s (body_data http) False of
                           (s1, None) \<Rightarrow> Inr (s1, True)
                         | (s1, Some file) \<Rightarrow>
                             bindR (the_ptr (dbuser c)) (\<lambda>ua. update_user_pfp s1 ua file)))) (\<lambda>(s2, failed).
             send_resp s2 client
               (if failed then http_new_resp 500 ''Interal server error'' None 0
                else http_new_resp 200 ''OK'' None 0)))"

section \<open>Attachments\<close>

definition do_insert_msg_after :: "chat_env \<Rightarrow> chat_server \<Rightarrow> chat_dbcmd \<Rightarrow> exec_result" where
  "do_insert_msg_after env s ctx =
     (case cmd_param ctx of
        Some (Param_token a) \<Rightarrow>
          bindR (if cmd_ret ctx = DB_ASYNC_ERROR then Inr s
                 else bindR (cmd_msg s ctx) (\<lambda>m. Inr (server_get_send_group_msg env s m))) (\<lambda>s1.
          bindR (drop_token env s1 a) (\<lambda>s2. Inr (s2, ctx\<lparr>cmd_data := None\<rparr>, None)))
      | _ \<Rightarrow> Inl Null_dereference)"

text \<open>An upload is counted whether or not its index was uploaded before.\<close>

definition put_attachment :: "db_user_file \<Rightarrow> nat \<Rightarrow> tmp_msg \<Rightarrow> tmp_msg" where
  "put_attachment file i ms =
     (let js = (case attachments_json (tmsg ms) of None \<Rightarrow> [] | Some j \<Rightarrow> json_elems j);
          js' = js[i := json_object_object_add (js ! i) ''hash'' (JString (file_hash file))]
      in ms\<lparr>tmsg := (tmsg ms)\<lparr>attachments_json := Some (JArray js')\<rparr>, tmsg_current := tmsg_current ms + 1\<rparr>)"

definition finish_attachments :: "chat_env \<Rightarrow> chat_server \<Rightarrow> nat \<Rightarrow> upload_token \<Rightarrow> tmp_msg \<Rightarrow> chat_server" where
  "finish_attachments env s a ut ms =
     (if tmsg_total ms \<le> tmsg_current ms then
        (let m = (tmsg ms)\<lparr>msg_attachments := map_option (json_print env) (attachments_json (tmsg ms))\<rparr>;
             (db, m', ok) = db_async_insert_group_msg (ew_db s) m (\<lambda>m. Data_token_msg a)
                (cmd_zero\<lparr>cmd_exec := Some do_insert_msg_after_cb, cmd_param := Some (Param_token a)\<rparr>)
         in put_token a (ut\<lparr>ut_union := Ut_msg_state (ms\<lparr>tmsg := m'\<rparr>)\<rparr>) (set_db db s))
      else put_token a (ut\<lparr>ut_union := Ut_msg_state ms\<rparr>) s)"

definition server_handle_msg_attach ::
  "chat_env \<Rightarrow> chat_server \<Rightarrow> nat \<Rightarrow> http \<Rightarrow> nat \<Rightarrow> chat_server res" where
  "server_handle_msg_attach env s client http a =
     bindR (deref (tokens s) a) (\<lambda>ut.
       (let ms = (case ut_union ut of Ut_msg_state ms \<Rightarrow> ms | Ut_user_id i \<Rightarrow> tmp_msg_zero);
            js = (case attachments_json (tmsg ms) of None \<Rightarrow> [] | Some j \<Rightarrow> json_elems j)
        in case http_get_header http ''Attach-Index'' of
             None \<Rightarrow> send_resp s client (http_new_resp 400 ''No Attach-Index header'' None 0)
           | Some h \<Rightarrow>
               (let index = strtoul 10 (header_val http h)
                in if index = - 1 then send_resp s client (http_new_resp 400 ''Invalid Attach-Index'' None 0)
                   else if unat index < length js \<and> js ! unat index \<noteq> JNull then
                     (case server_save_file_img env s (body_data http) True of
                        (s1, None) \<Rightarrow> Inr s1
                      | (s1, Some file) \<Rightarrow>
                          Inr (finish_attachments env s1 a ut (put_attachment file (unat index) ms)))
                   else Inr s)))"

section \<open>The handler\<close>

definition server_handle_user_upload ::
  "chat_env \<Rightarrow> chat_server \<Rightarrow> nat \<Rightarrow> http \<Rightarrow> chat_server res" where
  "server_handle_user_upload env s client http =
     bindR (server_check_upload_token env s http) (\<lambda>p.
       case p of
         None \<Rightarrow> send_resp s client (http_new_resp 400 ''Upload-Token failed'' None 0)
       | Some a \<Rightarrow>
           bindR (deref (tokens s) a) (\<lambda>ut.
             case ut_type ut of
               UT_USER_PFP \<Rightarrow>
                 bindR (server_handle_user_pfp_update env s client http
                          (case ut_union ut of Ut_user_id i \<Rightarrow> i | Ut_msg_state ms \<Rightarrow> msg_id (tmsg ms))) (\<lambda>s1.
                   drop_token env s1 a)
             | UT_MSG_ATTACHMENT \<Rightarrow> server_handle_msg_attach env s client http a))"

section \<open>Counting attachments\<close>

lemma save_file_ok:
  assumes "\<And>k. pq_send (ew_db s) k = 1" "mime_of env data = Some m" "contains_str m ''image/''"
  obtains s1 qs where "server_save_file_img env s data free = (s1, Some (img_file env data m))"
    "tokens s1 = tokens s" "clients s1 = clients s" "\<forall>k. pq_send (ew_db s1) k = 1"
    "pq_sent (ew_db s1) = pq_sent (ew_db s) @ qs" "map fst qs =
       [''insert_userfiles.sql'', ''SELECT ref_count FROM UserFiles WHERE hash = $1::text;'']"
proof -
  let ?f = "img_file env data m"
  have "server_save_file_img env s data free = (fst (server_save_file_img env s data free), Some ?f) \<and>
      tokens (fst (server_save_file_img env s data free)) = tokens s \<and>
      clients (fst (server_save_file_img env s data free)) = clients s \<and>
      pq_send (ew_db (fst (server_save_file_img env s data free))) = pq_send (ew_db s) \<and>
      pq_sent (ew_db (fst (server_save_file_img env s data free))) = pq_sent (ew_db s) @
        [(''insert_userfiles.sql'', [Some (file_hash ?f), Some (dec_digits (file_size ?f)), Some (file_mime_type ?f)]),
         (''SELECT ref_count FROM UserFiles WHERE hash = $1::text;'', [Some (file_hash ?f)])]"
    by (simp add: server_save_file_img_def assms db_async_insert_userfile_def db_async_userfile_refcount_def
        db_async_params_ok Let_def set_db_def)
  then show thesis using assms(1) by (intro that [of "fst (server_save_file_img env s data free)"
      "[(''insert_userfiles.sql'', [Some (file_hash ?f), Some (dec_digits (file_size ?f)), Some (file_mime_type ?f)]),
         (''SELECT ref_count FROM UserFiles WHERE hash = $1::text;'', [Some (file_hash ?f)])]"]) simp_all
qed

text \<open>The state of the token after a good upload for index \<open>i\<close>.\<close>

definition attached :: "chat_env \<Rightarrow> string \<Rightarrow> nat \<Rightarrow> json list \<Rightarrow> json list" where
  "attached env data i js = js[i := json_object_object_add (js ! i) ''hash'' (JString (sha256_hex env data))]"

definition waiting :: "chat_server \<Rightarrow> nat \<Rightarrow> json list \<Rightarrow> nat \<Rightarrow> nat \<Rightarrow> bool" where
  "waiting s a js k n \<longleftrightarrow> (\<exists>ut ms. tokens s a = Some ut \<and> ut_union ut = Ut_msg_state ms \<and>
     attachments_json (tmsg ms) = Some (JArray js) \<and> tmsg_current ms = of_nat k \<and> tmsg_total ms = of_nat n)"

definition good_upload :: "chat_env \<Rightarrow> http \<Rightarrow> nat \<Rightarrow> bool" where
  "good_upload env http i \<longleftrightarrow> (\<exists>h m. http_get_header http ''Attach-Index'' = Some h \<and>
     strtoul 10 (header_val http h) = of_nat i \<and> mime_of env (body_data http) = Some m \<and> contains_str m ''image/'')"

lemma attach_step:
  assumes w: "waiting s a js k n" and up: "good_upload env http i" and i: "i < length js" "js ! i \<noteq> JNull" "i < 2 ^ 64 - 1"
    and n: "k + 1 < 2 ^ 32" "n < 2 ^ 32" and send: "\<And>k. pq_send (ew_db s) k = 1"
  obtains s' qs where "server_handle_msg_attach env s client http a = Inr s'"
    "waiting s' a (attached env (body_data http) i js) (Suc k) n" "\<forall>k. pq_send (ew_db s') k = 1"
    "pq_sent (ew_db s') = pq_sent (ew_db s) @ qs"
    "map fst qs = [''insert_userfiles.sql'', ''SELECT ref_count FROM UserFiles WHERE hash = $1::text;''] @
       (if n \<le> Suc k then [''insert_msg.sql''] else [])"
    "n \<le> Suc k \<longrightarrow> snd (last qs) ! 3 = Some (json_print env (JArray (attached env (body_data http) i js)))"
proof -
  from w obtain ut ms where t: "tokens s a = Some ut" "ut_union ut = Ut_msg_state ms"
    "attachments_json (tmsg ms) = Some (JArray js)" "tmsg_current ms = of_nat k" "tmsg_total ms = of_nat n"
    by (auto simp: waiting_def)
  from up obtain h m where h: "http_get_header http ''Attach-Index'' = Some h" "strtoul 10 (header_val http h) = of_nat i"
    "mime_of env (body_data http) = Some m" "contains_str m ''image/''" by (auto simp: good_upload_def)
  obtain s1 qs where s1: "server_save_file_img env s (body_data http) True = (s1, Some (img_file env (body_data http) m))"
    "tokens s1 = tokens s" "clients s1 = clients s" "\<forall>k. pq_send (ew_db s1) k = 1" "pq_sent (ew_db s1) = pq_sent (ew_db s) @ qs"
    "map fst qs = [''insert_userfiles.sql'', ''SELECT ref_count FROM UserFiles WHERE hash = $1::text;'']"
    by (rule save_file_ok [OF send h(3,4), where free = True])
  let ?ms = "put_attachment (img_file env (body_data http) m) i ms"
  have ms: "attachments_json (tmsg ?ms) = Some (JArray (attached env (body_data http) i js))"
    "tmsg_current ?ms = of_nat (Suc k)" "tmsg_total ?ms = of_nat n"
    by (simp_all add: put_attachment_def t attached_def img_file_def add.commute)
  have small: "unat (of_nat x :: 'w::len word) = x" if "x < 2 ^ LENGTH('w)" for x
    using that by (simp add: unsigned_of_nat take_bit_nat_eq_self_iff)
  have idx: "unat (of_nat i :: u64) = i" "(of_nat i :: u64) \<noteq> - 1"
  proof -
    show "unat (of_nat i :: u64) = i" using i(3) by (intro small) simp
    moreover have "unat (- 1 :: u64) = 2 ^ 64 - 1" by (simp add: unsigned_minus_1_eq_mask mask_eq_exp_minus_1)
    ultimately show "(of_nat i :: u64) \<noteq> - 1" using i(3) by (metis less_irrefl)
  qed
  have "unat (of_nat n :: u32) = n" "unat (of_nat (Suc k) :: u32) = Suc k" using n by (intro small; simp)+
  then have le: "tmsg_total ?ms \<le> tmsg_current ?ms \<longleftrightarrow> n \<le> Suc k"
    unfolding ms word_le_nat_alt by simp
  have r: "server_handle_msg_attach env s client http a = Inr (finish_attachments env s1 a ut ?ms)"
    using i by (simp add: server_handle_msg_attach_def t h idx s1(1))
  show thesis
  proof (cases "n \<le> Suc k")
    case False
    then show thesis using r le ms
      by (intro that [of "finish_attachments env s1 a ut ?ms" qs])
        (simp_all add: finish_attachments_def waiting_def put_token_def s1)
  next
    case True
    then show thesis using r le ms
      by (intro that [of "finish_attachments env s1 a ut ?ms"
            "qs @ [(''insert_msg.sql'', [Some (u32_text (msg_user_id (tmsg ?ms))), Some (u32_text (msg_group_id (tmsg ?ms))),
               Some (msg_content_str (tmsg ?ms)), Some (json_print env (JArray (attached env (body_data http) i js)))])]"])
        (simp_all add: finish_attachments_def waiting_def put_token_def db_async_insert_group_msg_def
          db_async_params_ok s1 Let_def msg_content_str_def)
  qed
qed

section \<open>A message is sent when enough uploads have been counted\<close>

fun upload_all :: "chat_env \<Rightarrow> nat \<Rightarrow> nat \<Rightarrow> http list \<Rightarrow> chat_server \<Rightarrow> chat_server res" where
  "upload_all env client a [] s = Inr s"
| "upload_all env client a (h # hs) s =
     bindR (server_handle_msg_attach env s client h a) (\<lambda>s1. upload_all env client a hs s1)"

fun attach_list :: "chat_env \<Rightarrow> http list \<Rightarrow> nat list \<Rightarrow> json list \<Rightarrow> json list" where
  "attach_list env (h # hs) (i # is) js = attach_list env hs is (attached env (body_data h) i js)"
| "attach_list env _ _ js = js"

definition objects :: "json list \<Rightarrow> bool" where
  "objects js \<longleftrightarrow> list_all (\<lambda>j. json_type_of j = json_type_object) js"

lemma object_nth:
  assumes "objects js" "i < length js"
  obtains ms where "js ! i = JObject ms"
  using assms by (cases "js ! i") (auto simp: objects_def list_all_length)

lemma map_of_update:
  "k \<in> fst ` set ms \<Longrightarrow> map_of (map (\<lambda>(k', w). if k' = k then (k', v) else (k', w)) ms) k = Some v"
  by (induction ms) auto

lemma map_of_new: "k \<notin> fst ` set ms \<Longrightarrow> map_of (ms @ [(k, v)]) k = Some v"
  by (induction ms) auto

lemma get_added: "json_object_object_get (json_object_object_add (JObject ms) k (JString v)) k = Some (JString v)"
  by (simp add: map_of_update map_of_new del: map_of_append)

lemma attached_facts [simp]:
  assumes "objects js" "i < length js"
  shows "objects (attached env d i js)" "length (attached env d i js) = length js"
    "\<And>j. j < length js \<Longrightarrow> j \<noteq> i \<Longrightarrow> attached env d i js ! j = js ! j"
    "json_object_object_get (attached env d i js ! i) ''hash'' = Some (JString (sha256_hex env d))"
proof -
  obtain ms where ms: "js ! i = JObject ms" by (rule object_nth [OF assms])
  then show "objects (attached env d i js)"
    using assms by (auto simp: objects_def attached_def list_all_length nth_list_update)
  show "json_object_object_get (attached env d i js ! i) ''hash'' = Some (JString (sha256_hex env d))"
    using assms ms get_added by (simp add: attached_def del: json_object_object_get.simps json_object_object_add.simps)
qed (simp_all add: attached_def)

lemma attach_list_facts:
  assumes "length hs = length is" "objects js" "\<forall>i\<in>set is. i < length js"
  shows "objects (attach_list env hs is js) \<and> length (attach_list env hs is js) = length js \<and>
    (\<forall>j<length js. j \<notin> set is \<longrightarrow> attach_list env hs is js ! j = js ! j) \<and>
    (\<forall>j<length js. json_object_object_get (js ! j) ''hash'' \<noteq> None \<or> j \<in> set is \<longrightarrow>
       json_object_object_get (attach_list env hs is js ! j) ''hash'' \<noteq> None)"
  using assms
proof (induction hs "is" arbitrary: js rule: list_induct2)
  case (Cons h hs i "is")
  let ?js = "attached env (body_data h) i js"
  have i: "objects js" "i < length js" using Cons.prems by simp_all
  have "\<forall>i\<in>set is. i < length ?js" using Cons.prems i by simp
  from Cons.IH [OF attached_facts(1) [OF i] this]
  have IH: "objects (attach_list env hs is ?js)" "length (attach_list env hs is ?js) = length js"
    "\<And>j. j < length js \<Longrightarrow> j \<notin> set is \<Longrightarrow> attach_list env hs is ?js ! j = ?js ! j"
    "\<And>j. j < length js \<Longrightarrow> json_object_object_get (?js ! j) ''hash'' \<noteq> None \<or> j \<in> set is \<Longrightarrow>
       json_object_object_get (attach_list env hs is ?js ! j) ''hash'' \<noteq> None"
    using i by auto
  have "json_object_object_get (?js ! j) ''hash'' \<noteq> None"
    if "j < length js" "json_object_object_get (js ! j) ''hash'' \<noteq> None \<or> j = i" for j
    using that i by (cases "j = i") simp_all
  then show ?case using IH i by auto
qed simp

lemma delete_unhashed:
  "\<exists>y\<in>set js. json_object_object_get y ''hash'' = None \<Longrightarrow> delete_attachments env js s = Inl Null_dereference"
proof (induction js arbitrary: s)
  case (Cons y js)
  then show ?case
    by (cases "json_object_object_get y ''hash''")
      (auto simp: attachment_file_def json_cstring_def split: option.splits)
qed simp

lemma upload_all_steps:
  assumes "length hs = length is" "list_all2 (good_upload env) hs is" "waiting s a js k n" "objects js"
    "\<forall>i\<in>set is. i < length js" "length js < 2 ^ 32" "k + length is < 2 ^ 32" "n < 2 ^ 32"
    "\<forall>k. pq_send (ew_db s) k = 1"
  shows "\<exists>s' qs. upload_all env client a hs s = Inr s' \<and>
    waiting s' a (attach_list env hs is js) (k + length is) n \<and>
    pq_sent (ew_db s') = pq_sent (ew_db s) @ qs \<and>
    count_list (map fst qs) ''insert_msg.sql'' = (k + length is + 1 - n) - (k + 1 - n)"
  using assms
proof (induction hs "is" arbitrary: s js k rule: list_induct2)
  case Nil
  then show ?case by (intro exI [of _ s] exI [of _ "[]"]) simp
next
  case (Cons h hs i "is")
  then have i: "objects js" "i < length js" and up: "good_upload env h i" by simp_all
  have "js ! i \<noteq> JNull" using object_nth [OF i] by (metis json.distinct(11))
  then obtain s1 qs1 where s1: "server_handle_msg_attach env s client h a = Inr s1"
    "waiting s1 a (attached env (body_data h) i js) (Suc k) n" "\<forall>k. pq_send (ew_db s1) k = 1"
    "pq_sent (ew_db s1) = pq_sent (ew_db s) @ qs1"
    "map fst qs1 = [''insert_userfiles.sql'', ''SELECT ref_count FROM UserFiles WHERE hash = $1::text;''] @
       (if n \<le> Suc k then [''insert_msg.sql''] else [])"
    using attach_step [OF Cons.prems(2) up i(2) _ _ _ Cons.prems(7)] Cons.prems i by (auto, metis)
  obtain s2 qs2 where s2: "upload_all env client a hs s1 = Inr s2"
    "waiting s2 a (attach_list env hs is (attached env (body_data h) i js)) (Suc k + length is) n"
    "pq_sent (ew_db s2) = pq_sent (ew_db s1) @ qs2"
    "count_list (map fst qs2) ''insert_msg.sql'' = (Suc k + length is + 1 - n) - (Suc k + 1 - n)"
    using Cons.IH [OF _ s1(2)] Cons.prems i s1(3) by auto
  show ?case
    by (intro exI [of _ s2] exI [of _ "qs1 @ qs2"]) (use s1 s2 in \<open>auto simp: Suc_diff_le\<close>)
qed

text \<open>
  \<^bold>\<open>C40. Attachments are counted, not checked.\<close> After any good uploads for a waiting message of
  \<open>n\<close> attachments, the message has the hash at exactly the indices that were uploaded, in any
  order and multiplicity; it is inserted by the \<open>n\<close>-th upload and again by each later one,
  whichever the indices were. So a message can be inserted with an attachment that has no hash,
  and deleting that message reads through a NULL pointer.
\<close>

theorem attachments_counted_not_checked:
  assumes "length hs = length is" "list_all2 (good_upload env) hs is" "waiting s a js 0 n" "objects js"
    "\<forall>i\<in>set is. i < length js" "length js < 2 ^ 32" "length is < 2 ^ 32" "0 < n" "n < 2 ^ 32"
    "\<forall>k. pq_send (ew_db s) k = 1"
  shows "\<exists>s' js' qs. upload_all env client a hs s = Inr s' \<and> waiting s' a js' (length is) n \<and>
    (\<forall>j<length js. j \<notin> set is \<longrightarrow> js' ! j = js ! j) \<and>
    (\<forall>j\<in>set is. json_object_object_get (js' ! j) ''hash'' \<noteq> None) \<and>
    pq_sent (ew_db s') = pq_sent (ew_db s) @ qs \<and>
    count_list (map fst qs) ''insert_msg.sql'' = length is + 1 - n \<and>
    (\<forall>j<length js. j \<notin> set is \<longrightarrow> json_object_object_get (js ! j) ''hash'' = None \<longrightarrow>
       (\<forall>s2. server_delete_attachments_json env s2 (Some (JArray js')) = Inl Null_dereference))"
proof -
  let ?js = "attach_list env hs is js"
  have f: "length ?js = length js" "\<forall>j<length js. j \<notin> set is \<longrightarrow> ?js ! j = js ! j"
    "\<forall>j\<in>set is. json_object_object_get (?js ! j) ''hash'' \<noteq> None"
    using attach_list_facts [OF assms(1,4,5), of env] assms(5) by auto
  obtain s' qs where "upload_all env client a hs s = Inr s'" "waiting s' a ?js (length is) n"
    "pq_sent (ew_db s') = pq_sent (ew_db s) @ qs" "count_list (map fst qs) ''insert_msg.sql'' = length is + 1 - n"
    using upload_all_steps [OF assms(1-6) _ assms(9,10), of client] assms(7,8) by auto
  moreover have "server_delete_attachments_json env s2 (Some (JArray ?js)) = Inl Null_dereference"
    if "j < length js" "j \<notin> set is" "json_object_object_get (js ! j) ''hash'' = None" for j s2
  proof -
    have "?js ! j \<in> set ?js" using that f(1) by (intro nth_mem) simp
    then show ?thesis using delete_unhashed [of ?js env s2] that f(2)
      by (auto simp: server_delete_attachments_json_def)
  qed
  ultimately show ?thesis using f by blast
qed

definition demo_attach_token :: upload_token where
  "demo_attach_token = demo_token\<lparr>ut_type := UT_MSG_ATTACHMENT, ut_union := Ut_msg_state
     (tmp_msg_zero\<lparr>tmsg := db_msg_zero\<lparr>attachments_json := Some (JArray [JObject [], JObject []])\<rparr>,
                   tmsg_total := 2\<rparr>)\<rparr>"

definition demo_attach_server :: chat_server where
  "demo_attach_server = server_start\<lparr>tokens := [1 \<mapsto> demo_attach_token]\<rparr>"

definition demo_upload :: http where
  "demo_upload = http_zero\<lparr>headers := [\<lparr>hname = ''Attach-Index'', hval = ''0''\<rparr>], n_headers := 1\<rparr>"

theorem attachments_counted_not_checked_witness:
  "\<exists>s' js' qs. upload_all chat_demo_env 4 1 [demo_upload, demo_upload] demo_attach_server = Inr s' \<and>
    waiting s' 1 js' 2 2 \<and> pq_sent (ew_db s') = qs \<and> count_list (map fst qs) ''insert_msg.sql'' = 1 \<and>
    (\<forall>s2. server_delete_attachments_json chat_demo_env s2 (Some (JArray js')) = Inl Null_dereference)"
proof -
  have z: "strtoul 10 ''0'' = 0"
  proof -
    have "dec_digits 0 = ''0''" by (simp add: dec_digits.simps) code_simp
    with strtoul_dec_digits [of 0] show ?thesis by simp
  qed
  have hv: "header_val demo_upload 0 = ''0''"
    by (simp add: header_val_def headers_from_def header_fields_def demo_upload_def HTTP_HEAD_VAL_LEN_def)
  have "http_get_header demo_upload ''Attach-Index'' = Some 0"
    by (simp add: demo_upload_def http_get_header_def name_cmp_def strncmp_eq_def)
  then have up: "good_upload chat_demo_env demo_upload 0"
    using hv z by (simp add: good_upload_def Server_Events.demo_env_def image_png)
  have w: "waiting demo_attach_server 1 [JObject [], JObject []] 0 2"
    by (simp add: waiting_def demo_attach_server_def demo_attach_token_def tmp_msg_zero_def)
  have send: "pq_sent (ew_db demo_attach_server) = []" "\<forall>k. pq_send (ew_db demo_attach_server) k = 1"
    by (simp_all add: demo_attach_server_def server_start_def demo_server_db_def)
  have obj: "objects [JObject [], JObject []]" by (simp add: objects_def)
  obtain s' js' qs where r: "upload_all chat_demo_env 4 1 [demo_upload, demo_upload] demo_attach_server = Inr s'"
    "waiting s' 1 js' (length [0, 0::nat]) 2" "pq_sent (ew_db s') = pq_sent (ew_db demo_attach_server) @ qs"
    "count_list (map fst qs) ''insert_msg.sql'' = length [0, 0::nat] + 1 - 2"
    "\<forall>j<length [JObject [], JObject []]. j \<notin> set [0, 0] \<longrightarrow>
       json_object_object_get ([JObject [], JObject []] ! j) ''hash'' = None \<longrightarrow>
       (\<forall>s2. server_delete_attachments_json chat_demo_env s2 (Some (JArray js')) = Inl Null_dereference)"
    using attachments_counted_not_checked [where client = 4 and env = chat_demo_env, OF _ _ w obj _ _ _ _ _ send(2), of "[demo_upload, demo_upload]" "[0, 0]"] up
    by auto
  have "\<forall>s2. server_delete_attachments_json chat_demo_env s2 (Some (JArray js')) = Inl Null_dereference"
    using r(5) [rule_format, of 1] by simp
  then show ?thesis using r(1-4) send(1) by (intro exI [of _ s'] exI [of _ js'] exI [of _ qs]) (simp add: numeral_2_eq_2)
qed

end
