(* ===== verification/Chat_User.thy ===== *)
theory Chat_User
  imports Chat_Group
begin

text \<open>
  User information (\<^verbatim>\<open>server/src/chat/user.c\<close>). A request for users is answered in two parts:
  those that are connected from memory, the others by the database.
\<close>

definition server_add_user_in_json :: "db_user \<Rightarrow> json \<Rightarrow> json" where
  "server_add_user_in_json u j =
     json_obj j
       [(''user_id'', json_new_int (user_id u)), (''username'', JString (username_str u)),
        (''displayname'', JString (displayname_str u)), (''bio'', JString (bio_str u)),
        (''created_at'', JString (created_at_str u)), (''pfp_name'', JString (cstr (pfp_hash u) 0)),
        (''status'', JString (rtusm_get_status_str (rstatus (urtusm u))))]"

definition verify_json_array_type :: "json list \<Rightarrow> json_type \<Rightarrow> bool" where
  "verify_json_array_type xs t \<longleftrightarrow> xs \<noteq> [] \<and> list_all (\<lambda>x. json_type_of x = t) xs"

definition do_get_users :: "chat_env \<Rightarrow> chat_server \<Rightarrow> chat_dbcmd \<Rightarrow> exec_result" where
  "do_get_users env s ctx =
     (if cmd_ret ctx = DB_ASYNC_ERROR then Inr (s, ctx, Some ''Failed to get users'')
      else (case cmd_param ctx of
              Some (Param_str (Some t)) \<Rightarrow>
                answer env s ctx
                  (json_obj (JObject []) [(''cmd'', JString ''get_user''), (''users'', json_opt (json_parse env t))])
            | _ \<Rightarrow> Inl Null_dereference))"

text \<open>
  \<^verbatim>\<open>get_rm_users_json\<close> goes through the ids from the last to the first: the users of the
  connected ones are collected, and their ids leave the array.
\<close>

fun get_rm_users_json :: "chat_env \<Rightarrow> chat_server \<Rightarrow> json list \<Rightarrow> (nat option list \<times> json list) res" where
  "get_rm_users_json env s [] = Inr ([], [])"
| "get_rm_users_json env s (j # js) =
     bindR (get_rm_users_json env s js) (\<lambda>(us, keep).
       case server_get_client_user_id s (id_key (json_u32 env j)) of
         None \<Rightarrow> Inr (us, j # keep)
       | Some c \<Rightarrow> bindR (deref (clients s) c) (\<lambda>cl. Inr (us @ [dbuser cl], keep)))"

definition get_users_from_db :: "chat_env \<Rightarrow> chat_server \<Rightarrow> json list \<Rightarrow> chat_server \<times> string option" where
  "get_users_from_db env s ids =
     (if ids = [] then (s, None)
      else (let (db, ok) = db_async_get_user_array (ew_db s) (json_print env (JArray ids))
                             (cmd_zero\<lparr>cmd_exec := Some do_get_users_cb\<rparr>)
            in (set_db db s, if ok then None else Some ''Internal error: async-get-user-array'')))"

fun users_json :: "chat_server \<Rightarrow> nat option list \<Rightarrow> json list res" where
  "users_json s [] = Inr []"
| "users_json s (p # ps) =
     bindR (the_ptr p) (\<lambda>a. bindR (deref (users s) a) (\<lambda>u. bindR (users_json s ps) (\<lambda>js.
       Inr (server_add_user_in_json u (JObject []) # js))))"

definition send_users_from_clients ::
  "chat_env \<Rightarrow> chat_server \<Rightarrow> nat \<Rightarrow> nat option list \<Rightarrow> json \<Rightarrow> (chat_server \<times> json) res" where
  "send_users_from_clients env s client us resp =
     (if us = [] then Inr (s, resp)
      else bindR (users_json s us) (\<lambda>js.
             (let resp1 = json_obj resp [(''cmd'', JString ''get_user''), (''users'', JArray js)]
              in bindR (ws_json_send env s client resp1) (\<lambda>(s1, n). Inr (s1, resp1)))))"

definition server_get_user :: "chat_env \<Rightarrow> chat_server \<Rightarrow> nat \<Rightarrow> json \<Rightarrow> json \<Rightarrow> chat_result" where
  "server_get_user env s client payload resp =
     ret_if_json_bad payload ''user_ids'' json_type_array s resp (\<lambda>aj.
       if \<not> verify_json_array_type (json_elems aj) json_type_int then Inr (s, resp, Some ''Invalid array'')
       else bindR (get_rm_users_json env s (json_elems aj)) (\<lambda>(us, keep).
              (let (s1, err) = get_users_from_db env s keep
               in bindR (send_users_from_clients env s1 client us resp) (\<lambda>(s2, resp2). Inr (s2, resp2, err)))))"

definition server_client_user_info :: "chat_env \<Rightarrow> chat_server \<Rightarrow> nat \<Rightarrow> json \<Rightarrow> json \<Rightarrow> chat_result" where
  "server_client_user_info env s client payload resp =
     bindR (deref (clients s) client) (\<lambda>c. bindR (the_ptr (dbuser c)) (\<lambda>a. bindR (deref (users s) a) (\<lambda>u.
       (let resp1 = server_add_user_in_json u (json_object_object_add resp ''cmd'' (JString ''client_user_info''))
        in bindR (ws_json_send env s client resp1) (\<lambda>(s1, n).
           bindR (server_rtusm_user_connect s1 a) (\<lambda>s2. Inr (s2, resp1, None)))))))"

text \<open>Only the picture can be changed: the client gets a token to upload it with.\<close>

definition server_user_edit_account :: "chat_env \<Rightarrow> chat_server \<Rightarrow> nat \<Rightarrow> json \<Rightarrow> json \<Rightarrow> chat_result" where
  "server_user_edit_account env s client payload resp =
     (let new_pfp_json = json_object_object_get payload ''new_pfp''
      in if \<not> json_bad new_pfp_json json_type_boolean \<and> json_object_get_boolean (the new_pfp_json) then
           bindR (client_uid s client) (\<lambda>uid.
           bindR (server_new_upload_token env (del_event env) s uid) (\<lambda>(s1, a).
           bindR (server_send_upload_token env s1 client ''edit_account'' a) (\<lambda>(s2, n). Inr (s2, resp, None))))
         else if json_bad new_pfp_json json_type_boolean \<and> new_pfp_json \<noteq> None
         then Inr (s, resp, Some (CHR 0x22 # ''new_pfp'' @ CHR 0x22 # '' is invalid''))
         else Inr (s, resp, None))"

section \<open>Every requested user is answered once\<close>

text \<open>The connected ones from memory, in reverse order, and the others in order from the database.\<close>

lemma get_rm_users_json_split:
  assumes "\<And>k c. server_get_client_user_id s k = Some c \<Longrightarrow> clients s c \<noteq> None"
  shows "get_rm_users_json env s js =
    Inr (rev (List.map_filter (\<lambda>j. map_option (\<lambda>c. dbuser (the (clients s c)))
                (server_get_client_user_id s (id_key (json_u32 env j)))) js),
         filter (\<lambda>j. server_get_client_user_id s (id_key (json_u32 env j)) = None) js)"
proof (induction js)
  case (Cons j js)
  show ?case
  proof (cases "server_get_client_user_id s (id_key (json_u32 env j))")
    case (Some c)
    with assms obtain cl where "clients s c = Some cl" by blast
    with Some Cons show ?thesis by (simp add: List.map_filter_def)
  qed (simp add: Cons List.map_filter_def)
qed (simp add: List.map_filter_def)

end
