(* ===== verification/Chat_Cmd.thy ===== *)
theory Chat_Cmd
  imports Chat_User
begin

text \<open>
  The chat commands (\<^verbatim>\<open>server/src/chat/cmd.c\<close>) and the text frames that carry them
  (\<^verbatim>\<open>server/src/chat/ws_text_frame.c\<close>). A command is found by the hash of its name alone,
  and runs when the state of the client has one of its permission bits.
\<close>

section \<open>Registration\<close>

definition CMD_HT_SIZE :: nat where "CMD_HT_SIZE = 30"
definition CMD_STR_MAX :: nat where "CMD_STR_MAX = 32"
definition CHATCMD_PERM_LOGGED_IN :: u16 where "CHATCMD_PERM_LOGGED_IN = CLIENT_STATE_LOGGED_IN"
definition CHATCMD_PERM_NONE :: u16 where "CHATCMD_PERM_NONE = CLIENT_STATE_WEBSOCKET"

text \<open>The name and the callback are string and function constants, hence not NULL.\<close>

definition server_new_chatcmd :: "chat_server \<Rightarrow> string \<Rightarrow> chat_callback \<Rightarrow> u16 \<Rightarrow> chat_server \<times> bool" where
  "server_new_chatcmd s cmd callback perms =
     (let name = strncpy (replicate CMD_STR_MAX NUL) cmd CMD_STR_MAX;
          hash = server_ght_hashstr (cstr name 0);
          chatcmd = \<lparr>chat_hash = hash, chat_cmd = name, chat_callback = callback, chat_perms = perms\<rparr>;
          (ht, ok) = server_ght_insert (chat_cmd_ht s) hash (Some chatcmd)
      in (s\<lparr>chat_cmd_ht := ht\<rparr>, ok))"

text \<open>A sequence of registrations, of which the first that fails ends the rest.\<close>

fun register_chatcmds :: "chat_server \<Rightarrow> u16 \<Rightarrow> (string \<times> chat_callback) list \<Rightarrow> chat_server \<times> bool" where
  "register_chatcmds s perms [] = (s, True)"
| "register_chatcmds s perms ((cmd, callback) # cmds) =
     (let (s1, ok) = server_new_chatcmd s cmd callback perms
      in if ok then register_chatcmds s1 perms cmds else (s1, False))"

definition logged_in_chatcmds :: "(string \<times> chat_callback) list" where
  "logged_in_chatcmds =
     [(''client_user_info'', server_client_user_info_cb), (''client_groups'', server_client_groups_cb),
      (''get_member_ids'', server_get_group_member_ids_cb), (''group_create'', server_group_create_cb),
      (''get_user'', server_get_user_cb), (''get_all_groups'', server_get_all_groups_cb),
      (''join_group'', server_join_group_cb), (''group_msg'', server_group_msg_cb),
      (''get_group_msgs'', server_get_group_msgs_cb), (''edit_account'', server_user_edit_account_cb),
      (''create_group_code'', server_create_group_code_cb), (''join_group_code'', server_join_group_code_cb),
      (''get_group_codes'', server_get_group_codes_cb), (''delete_group_code'', server_delete_group_code_cb),
      (''delete_msg'', server_delete_group_msg_cb), (''delete_group'', server_delete_group_cb)]"

definition server_init_chatcmd_logged_in :: "chat_server \<Rightarrow> chat_server \<times> bool" where
  "server_init_chatcmd_logged_in s = register_chatcmds s CHATCMD_PERM_LOGGED_IN logged_in_chatcmds"

definition not_logged_in_chatcmds :: "(string \<times> chat_callback) list" where
  "not_logged_in_chatcmds =
     [(''register'', server_client_register_cb), (''login'', server_client_login_cb),
      (''session'', server_client_login_session_cb)]"

definition server_init_chatcmd_not_logged_in :: "chat_server \<Rightarrow> chat_server \<times> bool" where
  "server_init_chatcmd_not_logged_in s = register_chatcmds s CHATCMD_PERM_NONE not_logged_in_chatcmds"

definition server_init_chatcmd :: "chat_server \<Rightarrow> chat_server \<times> bool" where
  "server_init_chatcmd s =
     (case server_ght_init CMD_HT_SIZE True of
        None \<Rightarrow> (s, False)
      | Some ht \<Rightarrow>
          (let (s1, ok1) = server_init_chatcmd_logged_in (s\<lparr>chat_cmd_ht := ht\<rparr>)
           in if ok1 then server_init_chatcmd_not_logged_in s1 else (s1, False)))"

section \<open>Execution\<close>

fun run_chatcmd :: "chat_env \<Rightarrow> chat_callback \<Rightarrow> chat_server \<Rightarrow> nat \<Rightarrow> json \<Rightarrow> json \<Rightarrow> chat_result" where
  "run_chatcmd env server_client_user_info_cb = server_client_user_info env"
| "run_chatcmd env server_client_groups_cb = server_client_groups env"
| "run_chatcmd env server_get_group_member_ids_cb = server_get_group_member_ids env"
| "run_chatcmd env server_group_create_cb = server_group_create env"
| "run_chatcmd env server_get_user_cb = server_get_user env"
| "run_chatcmd env server_get_all_groups_cb = server_get_all_groups env"
| "run_chatcmd env server_join_group_cb = server_join_group env"
| "run_chatcmd env server_group_msg_cb = server_group_msg env"
| "run_chatcmd env server_get_group_msgs_cb = server_get_group_msgs env"
| "run_chatcmd env server_user_edit_account_cb = server_user_edit_account env"
| "run_chatcmd env server_create_group_code_cb = server_create_group_code env"
| "run_chatcmd env server_join_group_code_cb = server_join_group_code env"
| "run_chatcmd env server_get_group_codes_cb = server_get_group_codes env"
| "run_chatcmd env server_delete_group_code_cb = server_delete_group_code env"
| "run_chatcmd env server_delete_group_msg_cb = server_delete_group_msg env"
| "run_chatcmd env server_delete_group_cb = server_delete_group env"
| "run_chatcmd env server_client_register_cb = server_client_register env"
| "run_chatcmd env server_client_login_cb = server_client_login env"
| "run_chatcmd env server_client_login_session_cb = server_client_login_session env"

definition server_exec_chatcmd ::
  "string \<Rightarrow> chat_env \<Rightarrow> chat_server \<Rightarrow> nat \<Rightarrow> json \<Rightarrow> json \<Rightarrow> chat_result" where
  "server_exec_chatcmd cmd env s client payload resp =
     (case server_ght_get (chat_cmd_ht s) (server_ght_hashstr cmd) of
        None \<Rightarrow> Inr (s, resp, Some ''Command not found.'')
      | Some chatcmd \<Rightarrow>
          bindR (deref (clients s) client) (\<lambda>c.
            if chat_perms chatcmd AND cstate c = 0 then Inr (s, resp, Some ''Require permission'')
            else run_chatcmd env (chat_callback chatcmd) s client payload resp))"

text \<open>
  The parser gets one byte more than the payload has. Its result is \<open>json_parse\<close> of these bytes.
  The message of an error repeats the payload; the model keeps it as it was parsed, where
  \<^verbatim>\<open>get_user\<close> has taken the ids of the connected users out of its array.
\<close>

definition error_resp :: "json \<Rightarrow> json \<Rightarrow> string \<Rightarrow> json" where
  "error_resp resp payload msg =
     json_obj resp [(''cmd'', JString ''error''), (''from'', payload), (''error_msg'', JString msg)]"

text \<open>
  \<open>buf\<close> is the memory from the text on to the end of its allocation. json-c is given one byte
  more than the text has, which it reads to see that the text is complete, unless a NUL ends it
  before. A text that it does not parse is printed up to the first NUL.
\<close>

definition server_ws_handle_text_frame ::
  "chat_env \<Rightarrow> chat_server \<Rightarrow> nat \<Rightarrow> string \<Rightarrow> nat \<Rightarrow> (chat_server \<times> client_recv_status) res" where
  "server_ws_handle_text_frame env s client buf buf_len =
     (if length buf \<le> buf_len \<and> NUL \<notin> set buf then Inl Out_of_bounds
      else case json_parse env (take (buf_len + 1) buf) of
        None \<Rightarrow> if NUL \<in> set buf then Inr (s, RECV_DISCONNECT) else Inl Out_of_bounds
      | Some payload \<Rightarrow>
          (let cmd_json = json_object_object_get payload ''cmd''
           in bindR (if json_bad cmd_json json_type_string
                     then Inr (s, JObject [], Some (CHR 0x22 # ''cmd'' @ CHR 0x22 # '' is invalid or not found''))
                     else server_exec_chatcmd (json_object_get_string (the cmd_json)) env s client payload (JObject []))
                (\<lambda>(s1, resp, err). case err of
                   None \<Rightarrow> Inr (s1, RECV_OK)
                 | Some msg \<Rightarrow>
                     bindR (ws_json_send env s1 client (error_resp resp payload msg)) (\<lambda>(s2, n). Inr (s2, RECV_OK)))))"

section \<open>The table of commands\<close>

text \<open>What the table holds after the start: the commands under the hashes of their names.\<close>

definition chat_commands :: "(u64 \<times> chat_callback \<times> u16) list" where
  "chat_commands =
     map (\<lambda>(n, cb). (server_ght_hashstr n, cb, CHATCMD_PERM_NONE)) not_logged_in_chatcmds @
     map (\<lambda>(n, cb). (server_ght_hashstr n, cb, CHATCMD_PERM_LOGGED_IN)) logged_in_chatcmds"

lemma chat_hashes: "distinct (map fst chat_commands)" "0 \<notin> fst ` set chat_commands"
  by code_simp+

definition chatcmd_at :: "chat_server \<Rightarrow> u64 \<Rightarrow> (chat_callback \<times> u16) option" where
  "chatcmd_at s k = map_option (\<lambda>c. (chat_callback c, chat_perms c)) (server_ght_get (chat_cmd_ht s) k)"

definition plain_name :: "string \<Rightarrow> bool" where
  "plain_name n \<longleftrightarrow> length n < CMD_STR_MAX \<and> NUL \<notin> set n"

lemma new_chatcmd_ok:
  assumes "ght_ok (chat_cmd_ht s)" "ght_room_for (chat_cmd_ht s) (Suc n)" "plain_name cmd"
    "server_ght_hashstr cmd \<noteq> 0" "chatcmd_at s (server_ght_hashstr cmd) = None"
  obtains ht where "server_new_chatcmd s cmd cb perms = (s\<lparr>chat_cmd_ht := ht\<rparr>, True)" "ght_ok ht" "ght_room_for ht n"
    "chatcmd_at (s\<lparr>chat_cmd_ht := ht\<rparr>) = (chatcmd_at s)(server_ght_hashstr cmd \<mapsto> (cb, perms))"
proof -
  let ?v = "\<lparr>chat_hash = server_ght_hashstr cmd, chat_cmd = strncpy (replicate CMD_STR_MAX NUL) cmd CMD_STR_MAX,
    chat_callback = cb, chat_perms = perms\<rparr>"
  let ?r = "server_ght_insert (chat_cmd_ht s) (server_ght_hashstr cmd) (Some ?v)"
  have "server_ght_get (chat_cmd_ht s) (server_ght_hashstr cmd) = None" using assms(5) by (simp add: chatcmd_at_def)
  from ght.insert_new [OF assms(1,4) this assms(2), of ?v]
  have r: "snd ?r" "ght_ok (fst ?r)" "ght_room_for (fst ?r) n"
    "server_ght_get (fst ?r) = (server_ght_get (chat_cmd_ht s))(server_ght_hashstr cmd \<mapsto> ?v)" by auto
  have "server_new_chatcmd s cmd cb perms = (s\<lparr>chat_cmd_ht := fst ?r\<rparr>, snd ?r)"
    using assms(3) cstr_strncpy [of cmd CMD_STR_MAX] by (simp add: server_new_chatcmd_def plain_name_def case_prod_beta Let_def)
  then show thesis using r by (intro that [of "fst ?r"]) (auto simp: chatcmd_at_def fun_eq_iff)
qed

lemma register_chatcmds_ok:
  assumes "ght_ok (chat_cmd_ht s)" "ght_room_for (chat_cmd_ht s) (length cmds + n)" "list_all (plain_name \<circ> fst) cmds"
    "distinct (map (server_ght_hashstr \<circ> fst) cmds)" "0 \<notin> (server_ght_hashstr \<circ> fst) ` set cmds"
    "\<forall>c\<in>set cmds. chatcmd_at s (server_ght_hashstr (fst c)) = None"
  shows "\<exists>ht. register_chatcmds s perms cmds = (s\<lparr>chat_cmd_ht := ht\<rparr>, True) \<and> ght_ok ht \<and> ght_room_for ht n \<and>
    chatcmd_at (s\<lparr>chat_cmd_ht := ht\<rparr>) = chatcmd_at s ++ map_of (map (\<lambda>(m, cb). (server_ght_hashstr m, cb, perms)) cmds)"
  using assms
proof (induction cmds arbitrary: s)
  case Nil
  then show ?case by (intro exI [of _ "chat_cmd_ht s"]) (simp add: map_add_def)
next
  case (Cons c cmds)
  obtain m cb where c: "c = (m, cb)" by (cases c)
  obtain ht where ht: "server_new_chatcmd s m cb perms = (s\<lparr>chat_cmd_ht := ht\<rparr>, True)" "ght_ok ht"
    "ght_room_for ht (length cmds + n)"
    "chatcmd_at (s\<lparr>chat_cmd_ht := ht\<rparr>) = (chatcmd_at s)(server_ght_hashstr m \<mapsto> (cb, perms))"
    by (rule new_chatcmd_ok [OF Cons.prems(1), of "length cmds + n" m cb perms]) (use Cons.prems c in auto)
  let ?s = "s\<lparr>chat_cmd_ht := ht\<rparr>"
  have new: "server_ght_hashstr m \<notin> (server_ght_hashstr \<circ> fst) ` set cmds" using Cons.prems(4) c by auto
  have free: "\<forall>c\<in>set cmds. chatcmd_at ?s (server_ght_hashstr (fst c)) = None"
    unfolding ht(4) using Cons.prems(6) new by force
  from Cons.IH [of ?s] Cons.prems ht(2,3) free obtain ht' where
    ht': "register_chatcmds ?s perms cmds = (?s\<lparr>chat_cmd_ht := ht'\<rparr>, True)" "ght_ok ht'" "ght_room_for ht' n"
    "chatcmd_at (?s\<lparr>chat_cmd_ht := ht'\<rparr>) = chatcmd_at ?s ++ map_of (map (\<lambda>(m, cb). (server_ght_hashstr m, cb, perms)) cmds)"
    by auto
  have "map_of (map (\<lambda>(m, cb). (server_ght_hashstr m, cb, perms)) cmds) (server_ght_hashstr m) = None"
    using new by (force simp: map_of_eq_None_iff)
  then have "chatcmd_at ?s ++ map_of (map (\<lambda>(m, cb). (server_ght_hashstr m, cb, perms)) cmds) =
      chatcmd_at s ++ map_of (map (\<lambda>(m, cb). (server_ght_hashstr m, cb, perms)) (c # cmds))"
    unfolding ht(4) by (auto simp: c map_add_def fun_eq_iff split: option.split)
  with ht'(4) have "chatcmd_at (s\<lparr>chat_cmd_ht := ht'\<rparr>) =
      chatcmd_at s ++ map_of (map (\<lambda>(m, cb). (server_ght_hashstr m, cb, perms)) (c # cmds))"
    by (simp only: chat_server.simps chat_server.update_convs) simp
  moreover have "register_chatcmds s perms (c # cmds) = (s\<lparr>chat_cmd_ht := ht'\<rparr>, True)" using ht(1) ht'(1) by (simp add: c)
  ultimately show ?case using ht'(2,3) by blast
qed

lemma names_plain: "list_all (plain_name \<circ> fst) logged_in_chatcmds" "list_all (plain_name \<circ> fst) not_logged_in_chatcmds"
  by code_simp+

text \<open>The callback of a table has no part in what is found.\<close>

lemma ght_ok_free:
  "ght_ok (ht\<lparr>has_free := b\<rparr>) = ght_ok ht" "server_ght_get (ht\<lparr>has_free := b\<rparr>) = server_ght_get ht"
  by (simp_all add: ght_ok_def live_count_sum ght_hash_def server_ght_get_def fun_eq_iff)

lemma init_chatcmd_table:
  obtains ht where "server_init_chatcmd s = (s\<lparr>chat_cmd_ht := ht\<rparr>, True)"
    "chatcmd_at (s\<lparr>chat_cmd_ht := ht\<rparr>) = map_of chat_commands"
proof -
  let ?s0 = "s\<lparr>chat_cmd_ht := (empty_table CMD_HT_SIZE)\<lparr>has_free := True\<rparr>\<rparr>"
  have e: "ght_ok (chat_cmd_ht ?s0)" "ght_room_for (chat_cmd_ht ?s0) (16 + 3)" "chatcmd_at ?s0 = Map.empty"
  proof -
    have n: "0 < CMD_HT_SIZE" by (simp add: CMD_HT_SIZE_def)
    show "ght_ok (chat_cmd_ht ?s0)" "chatcmd_at ?s0 = Map.empty"
      using empty_table_ok(1,2) [OF n] by (simp_all add: chatcmd_at_def fun_eq_iff ght_ok_free)
    show "ght_room_for (chat_cmd_ht ?s0) (16 + 3)"
      by (simp add: ght_room_for_def empty_table_def server_ght_init_def CMD_HT_SIZE_def)
  qed
  have len: "length logged_in_chatcmds = 16" "length not_logged_in_chatcmds = 3"
    by (simp_all add: logged_in_chatcmds_def not_logged_in_chatcmds_def)
  have d: "distinct (map (server_ght_hashstr \<circ> fst) (not_logged_in_chatcmds @ logged_in_chatcmds))"
    "0 \<notin> (server_ght_hashstr \<circ> fst) ` set (not_logged_in_chatcmds @ logged_in_chatcmds)"
    using chat_hashes by (simp_all add: chat_commands_def comp_def case_prod_beta image_Un image_image)
  obtain ht1 where h1: "register_chatcmds ?s0 CHATCMD_PERM_LOGGED_IN logged_in_chatcmds = (?s0\<lparr>chat_cmd_ht := ht1\<rparr>, True)"
    "ght_ok ht1" "ght_room_for ht1 3" "chatcmd_at (?s0\<lparr>chat_cmd_ht := ht1\<rparr>) =
      map_of (map (\<lambda>(m, cb). (server_ght_hashstr m, cb, CHATCMD_PERM_LOGGED_IN)) logged_in_chatcmds)"
    using register_chatcmds_ok [OF e(1), of logged_in_chatcmds 3 CHATCMD_PERM_LOGGED_IN] e(2,3) d names_plain(1) len
    by auto
  have free: "\<forall>c\<in>set not_logged_in_chatcmds. chatcmd_at (?s0\<lparr>chat_cmd_ht := ht1\<rparr>) (server_ght_hashstr (fst c)) = None"
    unfolding h1(4) using d(1) by (force simp: map_of_eq_None_iff)
  obtain ht2 where h2: "register_chatcmds (?s0\<lparr>chat_cmd_ht := ht1\<rparr>) CHATCMD_PERM_NONE not_logged_in_chatcmds =
      (?s0\<lparr>chat_cmd_ht := ht1\<rparr>\<lparr>chat_cmd_ht := ht2\<rparr>, True)"
    "chatcmd_at (?s0\<lparr>chat_cmd_ht := ht1\<rparr>\<lparr>chat_cmd_ht := ht2\<rparr>) = chatcmd_at (?s0\<lparr>chat_cmd_ht := ht1\<rparr>) ++
      map_of (map (\<lambda>(m, cb). (server_ght_hashstr m, cb, CHATCMD_PERM_NONE)) not_logged_in_chatcmds)"
    using register_chatcmds_ok [of "?s0\<lparr>chat_cmd_ht := ht1\<rparr>" not_logged_in_chatcmds 0 CHATCMD_PERM_NONE]
      h1(2,3) d names_plain(2) free len by auto
  have init: "server_ght_init CMD_HT_SIZE True = Some ((empty_table CMD_HT_SIZE)\<lparr>has_free := True\<rparr>)"
    by (simp add: empty_table_def server_ght_init_def CMD_HT_SIZE_def)
  show thesis
    by (rule that [of ht2]) (use h1 h2 in \<open>simp_all add: server_init_chatcmd_def init server_init_chatcmd_logged_in_def
       server_init_chatcmd_not_logged_in_def chat_commands_def\<close>)
qed

lemma chatcmd_dispatch:
  assumes "server_init_chatcmd s0 = (s1, ok)" "chat_cmd_ht s = chat_cmd_ht s1" "clients s a = Some c"
  shows "server_exec_chatcmd cmd env s a payload resp =
    (case map_of chat_commands (server_ght_hashstr cmd) of
       None \<Rightarrow> Inr (s, resp, Some ''Command not found.'')
     | Some (cb, perms) \<Rightarrow> if has_state c perms then run_chatcmd env cb s a payload resp
                         else Inr (s, resp, Some ''Require permission''))"
proof -
  obtain ht where "server_init_chatcmd s0 = (s0\<lparr>chat_cmd_ht := ht\<rparr>, True)"
    "chatcmd_at (s0\<lparr>chat_cmd_ht := ht\<rparr>) = map_of chat_commands" by (rule init_chatcmd_table)
  then have at: "chatcmd_at s = map_of chat_commands" using assms(1,2) by (auto simp: chatcmd_at_def fun_eq_iff)
  have "map_of chat_commands (server_ght_hashstr cmd) =
      map_option (\<lambda>x. (chat_callback x, chat_perms x)) (server_ght_get (chat_cmd_ht s) (server_ght_hashstr cmd))"
    by (simp add: at [symmetric] chatcmd_at_def)
  then show ?thesis
    using assms(3) by (auto simp: server_exec_chatcmd_def has_state_def and.commute split: option.split)
qed

text \<open>
  \<^bold>\<open>C1. Nothing but registration and login before the login.\<close> After the start every command is
  in the table. For a client that is not logged in, a command is refused, and nothing changes,
  unless the connection is a WebSocket and the hash of the command's name is that of
  \<^verbatim>\<open>register\<close>, \<^verbatim>\<open>login\<close> or \<^verbatim>\<open>session\<close>, whose handler then runs; each of the other
  commands by its name is answered with \<^verbatim>\<open>Require permission\<close>.
\<close>

theorem commands_need_login:
  assumes "server_init_chatcmd s0 = (s1, ok)" "chat_cmd_ht s = chat_cmd_ht s1" "clients s a = Some c"
    "\<not> has_state c CLIENT_STATE_LOGGED_IN"
  shows "ok \<and>
    (server_exec_chatcmd cmd env s a payload resp = Inr (s, resp, Some ''Command not found.'') \<or>
     server_exec_chatcmd cmd env s a payload resp = Inr (s, resp, Some ''Require permission'') \<or>
     has_state c CLIENT_STATE_WEBSOCKET \<and>
       (\<exists>(n, cb)\<in>set not_logged_in_chatcmds. server_ght_hashstr cmd = server_ght_hashstr n \<and>
          server_exec_chatcmd cmd env s a payload resp = run_chatcmd env cb s a payload resp)) \<and>
    (\<forall>(n, cb)\<in>set logged_in_chatcmds.
       server_exec_chatcmd n env s a payload resp = Inr (s, resp, Some ''Require permission''))"
proof (intro conjI)
  note dispatch = chatcmd_dispatch [OF assms(1-3)]
  show "ok" using assms(1) by (rule_tac init_chatcmd_table [of s0]) simp
  show "server_exec_chatcmd cmd env s a payload resp = Inr (s, resp, Some ''Command not found.'') \<or>
     server_exec_chatcmd cmd env s a payload resp = Inr (s, resp, Some ''Require permission'') \<or>
     has_state c CLIENT_STATE_WEBSOCKET \<and>
       (\<exists>(n, cb)\<in>set not_logged_in_chatcmds. server_ght_hashstr cmd = server_ght_hashstr n \<and>
          server_exec_chatcmd cmd env s a payload resp = run_chatcmd env cb s a payload resp)"
  proof (cases "map_of chat_commands (server_ght_hashstr cmd)")
    case (Some p)
    obtain cb perms where p: "p = (cb, perms)" by (cases p)
    have "(server_ght_hashstr cmd, cb, perms) \<in> set chat_commands" using Some p by (auto dest: map_of_SomeD)
    then consider "perms = CHATCMD_PERM_LOGGED_IN" | n where "perms = CHATCMD_PERM_NONE"
      "(n, cb) \<in> set not_logged_in_chatcmds" "server_ght_hashstr cmd = server_ght_hashstr n"
      by (auto simp: chat_commands_def)
    then show ?thesis
      using assms(4) Some p
      by cases (auto simp: dispatch CHATCMD_PERM_LOGGED_IN_def CHATCMD_PERM_NONE_def)
  qed (simp add: dispatch)
  show "\<forall>(n, cb)\<in>set logged_in_chatcmds.
       server_exec_chatcmd n env s a payload resp = Inr (s, resp, Some ''Require permission'')"
  proof clarify
    fix n cb assume "(n, cb) \<in> set logged_in_chatcmds"
    then have "(server_ght_hashstr n, cb, CHATCMD_PERM_LOGGED_IN) \<in> set chat_commands"
      by (force simp: chat_commands_def)
    then have "map_of chat_commands (server_ght_hashstr n) = Some (cb, CHATCMD_PERM_LOGGED_IN)"
      using chat_hashes(1) by (intro map_of_is_SomeI)
    then show "server_exec_chatcmd n env s a payload resp = Inr (s, resp, Some ''Require permission'')"
      using assms(4) by (simp add: dispatch CHATCMD_PERM_LOGGED_IN_def)
  qed
qed

theorem commands_need_login_witness:
  "\<exists>s. fst (server_init_chatcmd server_start) = s \<and> snd (server_init_chatcmd server_start) \<and>
    server_exec_chatcmd ''delete_group'' Server_Events.demo_env (put_client 4 (client_zero 7 (\<lambda>k. 1)) s) 4 JNull JNull =
      Inr (put_client 4 (client_zero 7 (\<lambda>k. 1)) s, JNull, Some ''Require permission'')"
proof -
  let ?s1 = "fst (server_init_chatcmd server_start)"
  let ?s = "put_client 4 (client_zero 7 (\<lambda>k. 1)) ?s1"
  have a: "server_init_chatcmd server_start = (?s1, snd (server_init_chatcmd server_start))" by simp
  have b: "chat_cmd_ht ?s = chat_cmd_ht ?s1" "clients ?s 4 = Some (client_zero 7 (\<lambda>k. 1))"
    by (simp_all add: put_client_def)
  have c: "\<not> has_state (client_zero 7 (\<lambda>k. 1)) CLIENT_STATE_LOGGED_IN"
    by (simp add: has_state_def client_zero_def client_states)
  have "(''delete_group'', server_delete_group_cb) \<in> set logged_in_chatcmds" by (simp add: logged_in_chatcmds_def)
  with commands_need_login [OF a b c, of "''delete_group''" Server_Events.demo_env JNull JNull] show ?thesis by blast
qed

end
