(* ===== verification/Server_Worker.thy ===== *)
theory Server_Worker
  imports User_Upload Chat_Cmd
begin

text \<open>
  The event worker (\<^verbatim>\<open>server/src/server_eworker.c\<close>), which composes the other components: it
  hands query results to the callbacks of the waiting commands, and the events of the kernel to
  their handlers, among them the reading of a client's data (\<^verbatim>\<open>se_read_client\<close> of
  \<^verbatim>\<open>server/src/server_events.c\<close>). One worker is modelled; what other threads do to
  the shared tables between two of its accesses is not.
\<close>

section \<open>The callbacks of database commands\<close>

fun run_db_exec_res ::
  "chat_env \<Rightarrow> db_exec_res \<Rightarrow> chat_server \<Rightarrow> string list list \<Rightarrow> pg_status \<Rightarrow> chat_dbcmd \<Rightarrow> cmd_result" where
  "run_db_exec_res env begin_result_cb s rows status ctx = Inr (s, begin_result status ctx)"
| "run_db_exec_res env db_get_user_result_cb s rows status ctx = db_get_user_result s rows status ctx"
| "run_db_exec_res env db_insert_user_result_cb s rows status ctx = db_insert_user_result s rows status ctx"
| "run_db_exec_res env db_get_user_json_result_cb s rows status ctx = db_get_user_json_result s rows status ctx"
| "run_db_exec_res env get_connected_users_result_cb s rows status ctx =
     get_connected_users_result s rows status ctx"
| "run_db_exec_res env update_user_result_cb s rows status ctx = update_user_result s rows status ctx"
| "run_db_exec_res env db_get_groups_result_cb s rows status ctx = db_get_groups_result s rows status ctx"
| "run_db_exec_res env db_get_group_member_ids_result_cb s rows status ctx =
     db_get_group_member_ids_result s rows status ctx"
| "run_db_exec_res env db_get_group_msgs_result_cb s rows status ctx = db_get_group_msgs_result s rows status ctx"
| "run_db_exec_res env insert_group_msg_result_cb s rows status ctx = insert_group_msg_result s rows status ctx"
| "run_db_exec_res env db_delete_msg_result_cb s rows status ctx = db_delete_msg_result s rows status ctx"
| "run_db_exec_res env get_public_groups_result_cb s rows status ctx = get_public_groups_result s rows status ctx"
| "run_db_exec_res env join_pub_group_result_cb s rows status ctx = join_pub_group_result s rows status ctx"
| "run_db_exec_res env create_group_result_cb s rows status ctx = create_group_result s rows status ctx"
| "run_db_exec_res env db_create_group_code_result_cb s rows status ctx =
     db_create_group_code_result s rows status ctx"
| "run_db_exec_res env db_get_group_codes_result_cb s rows status ctx =
     db_get_group_codes_result s rows status ctx"
| "run_db_exec_res env user_join_group_code_result_cb s rows status ctx =
     user_join_group_code_result s rows status ctx"
| "run_db_exec_res env db_delete_group_code_result_cb s rows status ctx =
     db_delete_group_code_result s rows status ctx"
| "run_db_exec_res env del_group_result_cb s rows status ctx = del_group_result s rows status ctx"
| "run_db_exec_res env get_all_attachs_result_cb s rows status ctx = get_all_attachs_result env s rows status ctx"
| "run_db_exec_res env get_group_owner_result_cb s rows status ctx = get_group_owner_result s rows status ctx"
| "run_db_exec_res env insert_userfiles_result_cb s rows status ctx = Inr (s, insert_userfiles_result status ctx)"
| "run_db_exec_res env delete_userfile_result_cb s rows status ctx = Inr (s, delete_userfile_result status ctx)"
| "run_db_exec_res env userfile_refcount_result_cb s rows status ctx =
     Inr (s, userfile_refcount_result rows status ctx)"

text \<open>\<open>rest\<close> are the commands behind \<open>ctx\<close> in its chain.\<close>

fun run_db_exec ::
  "chat_env \<Rightarrow> db_exec \<Rightarrow> chat_server \<Rightarrow> chat_dbcmd \<Rightarrow> chat_dbcmd list \<Rightarrow> exec_result" where
  "run_db_exec env do_client_login_cb s ctx rest = do_client_login env s ctx"
| "run_db_exec env do_client_login_session_cb s ctx rest = do_client_login_session env s ctx"
| "run_db_exec env do_client_register_cb s ctx rest = do_client_register env s ctx"
| "run_db_exec env do_rtusm_broadcast_cb s ctx rest = do_rtusm_broadcast env s ctx"
| "run_db_exec env do_get_users_cb s ctx rest = do_get_users env s ctx"
| "run_db_exec env do_group_broadcast_cb s ctx rest = do_group_broadcast env s ctx"
| "run_db_exec env do_client_groups_cb s ctx rest = do_client_groups env s ctx"
| "run_db_exec env get_all_groups_result_cb s ctx rest = get_all_groups_result env s ctx"
| "run_db_exec env join_group_result_cb s ctx rest = join_group_result s ctx"
| "run_db_exec env do_group_msg_cb s ctx rest = do_group_msg env s ctx"
| "run_db_exec env do_get_group_msgs_cb s ctx rest = do_get_group_msgs env s ctx"
| "run_db_exec env create_group_code_result_cb s ctx rest = create_group_code_result env s ctx"
| "run_db_exec env join_group_code_result_cb s ctx rest = join_group_code_result s ctx"
| "run_db_exec env get_group_codes_result_cb s ctx rest = get_group_codes_result env s ctx"
| "run_db_exec env delete_group_code_result_cb s ctx rest = delete_group_code_result s ctx"
| "run_db_exec env delete_msg_result_cb s ctx rest = delete_msg_result env s ctx"
| "run_db_exec env delete_group_result_cb s ctx rest = delete_group_result env s ctx rest"
| "run_db_exec env get_group_owner_cb s ctx rest = get_group_owner s ctx"
| "run_db_exec env do_get_group_member_ids_cb s ctx rest = do_get_group_member_ids env s ctx"
| "run_db_exec env do_save_file_img_cb s ctx rest = do_save_file_img env s ctx rest"
| "run_db_exec env do_delete_file_cb s ctx rest = do_delete_file env s ctx rest"
| "run_db_exec env update_pfp_result_cb s ctx rest = update_pfp_result s ctx"
| "run_db_exec env do_insert_msg_after_cb s ctx rest = do_insert_msg_after env s ctx"

definition cmd_error_json :: "string \<Rightarrow> json" where
  "cmd_error_json msg =
     json_obj (JObject []) [(''cmd'', JString ''error''), (''error_msg'', JString msg)]"

text \<open>
  The callbacks over the server or its fault. The connection travels beside the server while the
  results are processed, hence \<open>set_db\<close>. A fault ends the processing: every callback passes it on.
\<close>

definition chat_callbacks ::
  "chat_env \<Rightarrow> (db_exec, db_exec_res, db_data, string list list, chat_server res) db_callbacks" where
  "chat_callbacks env =
     \<lparr>run_res = (\<lambda>r s rows status ctx.
        case bindR s (\<lambda>sv. run_db_exec_res env r sv rows status ctx) of
          Inl f \<Rightarrow> (Inl f, ctx)
        | Inr (s1, ctx1) \<Rightarrow> (Inr s1, ctx1)),
      run_exec = (\<lambda>e db s (ctx, rest).
        case bindR s (\<lambda>sv. run_db_exec env e (set_db db sv) ctx rest) of
          Inl f \<Rightarrow> (db, Inl f, ctx, None)
        | Inr (s1, ctx1, msg) \<Rightarrow> (ew_db s1, Inr s1, ctx1, msg)),
      send_error = (\<lambda>s c msg.
        bindR s (\<lambda>sv. bindR (ws_json_send env sv c (cmd_error_json msg)) (\<lambda>(s1, n). Inr s1))),
      null_res = (\<lambda>s. bindR s (\<lambda>sv. Inl Null_dereference))\<rparr>"

text \<open>
  \<^verbatim>\<open>free\<close> of the data of a command. Only users have addresses; the other data are values that
  live in the command, and the message of an upload token is a part of another block.
\<close>

definition free_data :: "chat_server \<Rightarrow> db_data \<Rightarrow> chat_server res" where
  "free_data s d =
     (case d of
        Data_user a \<Rightarrow> bindR (deref (users s) a) (\<lambda>u. Inr (s\<lparr>users := (users s)(a := None)\<rparr>))
      | Data_token_msg a \<Rightarrow> Inl Use_after_free
      | _ \<Rightarrow> Inr s)"

fun free_all :: "db_data list \<Rightarrow> chat_server \<Rightarrow> chat_server res" where
  "free_all [] s = Inr s"
| "free_all (d # ds) s = bindR (free_data s d) (free_all ds)"

text \<open>One turn of the loop of \<^verbatim>\<open>db_process_results\<close>.\<close>

definition worker_result ::
  "chat_env \<Rightarrow> string list list \<times> pg_status \<Rightarrow> chat_server \<Rightarrow> chat_server res" where
  "worker_result env r s =
     (let ((db, s1), freed) = process_result (chat_callbacks env) r ((ew_db s, Inr s), [])
      in bindR s1 (\<lambda>s2. free_all freed (set_db db s2)))"

fun worker_results ::
  "chat_env \<Rightarrow> (string list list \<times> pg_status) list \<Rightarrow> chat_server \<Rightarrow> chat_server res" where
  "worker_results env [] s = Inr s"
| "worker_results env (r # rs) s = bindR (worker_result env r s) (worker_results env rs)"

section \<open>Reading from a client\<close>

definition CLIENT_RECV_PAGE :: nat where "CLIENT_RECV_PAGE = 4096"

text \<open>
  The parsers take the client they work on apart from the rest of the server; a handler they call
  works on the server with that client at its address. A fault of a handler ends the parsing: it
  comes with a status other than \<open>RECV_OK\<close>.
\<close>

definition at_client ::
  "nat \<Rightarrow> (chat_server \<Rightarrow> (chat_server \<times> 'b) res) \<Rightarrow> 'b \<Rightarrow> chat_server res \<Rightarrow> client \<Rightarrow>
    chat_server res \<times> client \<times> 'b" where
  "at_client a f failed s c =
     (case bindR s (\<lambda>sv. bindR (f (put_client a c sv)) (\<lambda>(s1, x).
             bindR (deref (clients s1) a) (\<lambda>c1. Inr (s1, c1, x)))) of
        Inl e \<Rightarrow> (Inl e, c, failed)
      | Inr (s1, c1, x) \<Rightarrow> (Inr s1, c1, x))"

definition text_frame_at :: "chat_env \<Rightarrow> nat \<Rightarrow> chat_server res text_handler" where
  "text_frame_at env a s c buf len =
     at_client a (\<lambda>sv. server_ws_handle_text_frame env sv a (bytes_text buf) len) RECV_ERROR s c"

text \<open>\<open>web\<close> has the parameters of the HTTP part; its upload handler is the one of the chat.\<close>

definition http_at :: "chat_env \<Rightarrow> chat_server res http_env \<Rightarrow> nat \<Rightarrow> chat_server res http_env" where
  "http_at env web a =
     web\<lparr>user_upload := (\<lambda>s c http.
       case at_client a (\<lambda>sv. bindR (server_handle_user_upload env sv a http) (\<lambda>s1. Inr (s1, ()))) () s c of
         (s1, c1, u) \<Rightarrow> (s1, c1))\<rparr>"

text \<open>
  The bytes of a body that is still missing are received behind the ones that are there. The
  request is handled when they are complete; what the handler returns is not looked at.
\<close>

definition recv_body ::
  "chat_env \<Rightarrow> chat_server res http_env \<Rightarrow> nat \<Rightarrow> chat_server \<Rightarrow> client \<Rightarrow> http \<Rightarrow> u8 list \<Rightarrow>
    chat_server res \<times> client" where
  "recv_body env web a s c http bs =
     (let old = (case body http of None \<Rightarrow> [] | Some b \<Rightarrow> b);
          http1 = http\<lparr>body := Some (memcpy_at old (total_recv http) (bytes_text bs)),
                       total_recv := total_recv http + length bs\<rparr>;
          c1 = set_recv (\<lambda>r. r\<lparr>recv_http := Some http1\<rparr>) c
      in if body_len http - total_recv http \<le> length bs then
           (case server_handle_http (http_at env web a) (Inr s) c1 http1 of
              (s2, c2, st) \<Rightarrow> (s2, set_recv (\<lambda>r. r\<lparr>recv_http := None\<rparr>) c2))
         else (Inr s, c1))"

definition recv_data_of :: "client \<Rightarrow> u8 list \<times> nat \<times> nat" where
  "recv_data_of c =
     (case recv_data (recv c) of
        None \<Rightarrow> (replicate CLIENT_RECV_PAGE 0, CLIENT_RECV_PAGE - 1, 0)
      | Some d \<Rightarrow> (d, data_size (recv c), recv_offset (recv c)))"

text \<open>The HTTP parser is told the number of the new bytes, the WebSocket parser that of all.\<close>

definition recv_message ::
  "chat_env \<Rightarrow> chat_server res http_env \<Rightarrow> nat \<Rightarrow> chat_server \<Rightarrow> client \<Rightarrow> nat \<Rightarrow> nat \<Rightarrow>
    (chat_server res \<times> client \<times> client_recv_status) option" where
  "recv_message env web a s c offset n =
     (if has_state c CLIENT_STATE_WEBSOCKET
      then server_ws_parse (text_frame_at env a) (Inr s) c 0 (n + offset)
      else server_http_parse (http_at env web a) (Inr s) c
             (bytes_text (case recv_data (recv c) of None \<Rightarrow> [] | Some d \<Rightarrow> d)) n)"

definition recv_done :: "client_recv_status \<Rightarrow> client \<Rightarrow> client" where
  "recv_done st c =
     (if st \<noteq> RECV_DISCONNECT \<and> \<not> recv_busy (recv c)
      then set_recv (\<lambda>r. r\<lparr>recv_data := None, data_size := 0, recv_offset := 0\<rparr>) c else c)"

text \<open>\<open>input\<close> are the bytes the connection has; a message without them is a closed connection.\<close>

definition se_read_client ::
  "chat_env \<Rightarrow> chat_server res http_env \<Rightarrow> u8 list \<Rightarrow> chat_server \<Rightarrow> nat \<Rightarrow> (chat_server \<times> se_status) res" where
  "se_read_client env web input s ev =
     bindR (deref (events s) ev) (\<lambda>e.
     bindR (the_ptr (ev_data e)) (\<lambda>a.
     bindR (deref (clients s) a) (\<lambda>c.
       (let s1 = set_db (db_pipeline_set_ctx (ew_db s) (Some a)) s
        in case recv_http (recv c) of
             Some http \<Rightarrow>
               (case server_recv c (body_len http - total_recv http) input of
                  (c1, bs) \<Rightarrow>
                    if bs = [] then Inr (put_client a c1 s1, SE_CLOSE)
                    else (case recv_body env web a s1 c1 http bs of
                            (r, c2) \<Rightarrow> bindR r (\<lambda>s2. Inr (put_client a (recv_done RECV_OK c2) s2, SE_OK))))
           | None \<Rightarrow>
               (let (d, sz, offset) = recv_data_of c;
                    c0 = set_recv (\<lambda>r. r\<lparr>recv_data := Some d, data_size := sz\<rparr>) c
                in case server_recv c0 (sz - offset) input of
                     (c1, bs) \<Rightarrow>
                       if bs = [] then Inr (put_client a c1 s1, SE_CLOSE)
                       else
                         (let c2 = set_recv (\<lambda>r. r\<lparr>recv_data := Some (memcpy_at d offset bs)\<rparr>) c1
                          in case recv_message env web a s1 c2 offset (length bs) of
                               None \<Rightarrow> Inl Out_of_bounds
                             | Some (r, c3, st) \<Rightarrow>
                                 bindR r (\<lambda>s2.
                                   Inr (put_client a (recv_done st c3) s2,
                                        if st = RECV_OK then SE_OK else SE_CLOSE))))))))"

section \<open>The loop\<close>

text \<open>An event as the kernel reports it, with the error and the input its descriptor has.\<close>

record ep_report =
  rep_event :: nat
  rep_bits :: u32
  rep_sockerr :: int
  rep_input :: "u8 list"

definition run_read ::
  "chat_env \<Rightarrow> chat_server res http_env \<Rightarrow> u8 list \<Rightarrow> se_read_callback \<Rightarrow> chat_server \<Rightarrow> nat \<Rightarrow>
    (chat_server \<times> se_status) res" where
  "run_read env web input cb s a =
     (case cb of
        se_accept_conn_cb \<Rightarrow> se_accept_conn env s
      | se_read_client_cb \<Rightarrow> se_read_client env web input s a
      | se_timer_read_cb \<Rightarrow> se_timer_read env s a
      | eventfd_dummy_read_cb \<Rightarrow> Inr (s, SE_OK))"

definition eworker_prep_event ::
  "chat_env \<Rightarrow> chat_server res http_env \<Rightarrow> ep_report \<Rightarrow> chat_server \<Rightarrow> chat_server res" where
  "eworker_prep_event env web rep s =
     bindR (deref (events s) (rep_event rep)) (\<lambda>e.
     bindR (server_process_event env (run_read env web (rep_input rep)) (rep_sockerr rep)
              (put_event (rep_event rep) (e\<lparr>ep_events := rep_bits rep\<rparr>) s) (rep_event rep)) (\<lambda>s1.
       Inr (set_db (db_pipeline_current_done (ew_db s1)) s1)))"

text \<open>\<^verbatim>\<open>eworker_wait_for_events\<close>: no reports stand for a failed or empty \<^verbatim>\<open>epoll_wait\<close>.\<close>

fun eworker_wait_for_events ::
  "chat_env \<Rightarrow> chat_server res http_env \<Rightarrow> ep_report list \<Rightarrow> chat_server \<Rightarrow> chat_server res" where
  "eworker_wait_for_events env web [] s = Inr s"
| "eworker_wait_for_events env web (r # rs) s =
     bindR (eworker_prep_event env web r s) (eworker_wait_for_events env web rs)"

definition wait_timeout :: "chat_server \<Rightarrow> int" where
  "wait_timeout s = (if plq_count (db_queue (ew_db s)) = 0 then - 1 else 0)"

definition TM_STATE_INIT :: u8 where "TM_STATE_INIT = 0x01"
definition TM_STATE_SHUTDOWN :: u8 where "TM_STATE_SHUTDOWN = 0x80"

text \<open>
  One turn of the loop: what \<^verbatim>\<open>poll\<close> says of the connection to the database, the results that
  are there then, and the reports of \<^verbatim>\<open>epoll_wait\<close>. \<open>turn_shutdown\<close> says that the main
  thread has asked for the end before the turn.
\<close>

record turn =
  turn_shutdown :: bool
  turn_poll :: int
  turn_results :: "(string list list \<times> pg_status) list"
  turn_reports :: "ep_report list"

fun server_eworker_async_run ::
  "chat_env \<Rightarrow> chat_server res http_env \<Rightarrow> turn list \<Rightarrow> u8 \<times> chat_server \<Rightarrow> (u8 \<times> chat_server) res" where
  "server_eworker_async_run env web [] (st, s) = Inr (st, s)"
| "server_eworker_async_run env web (t # ts) (st0, s) =
     (let st = (if turn_shutdown t then st0 OR TM_STATE_SHUTDOWN else st0)
      in if st AND TM_STATE_SHUTDOWN \<noteq> 0 then Inr (st, s)
         else if turn_poll t = -1 then Inr (st OR TM_STATE_SHUTDOWN, s)
         else bindR (if 0 < turn_poll t then worker_results env (turn_results t) s else Inr s) (\<lambda>s1.
              bindR (eworker_wait_for_events env web (turn_reports t) s1) (\<lambda>s2.
                server_eworker_async_run env web ts (st, s2))))"

section \<open>The worker as a transition system\<close>

text \<open>The hash and the salt of a row fit into their arrays.\<close>

definition hex_fits :: "string option \<Rightarrow> nat \<Rightarrow> bool" where
  "hex_fits v n \<longleftrightarrow> (case v of None \<Rightarrow> True | Some x \<Rightarrow> length (hexstr_to_u8 (x @ [NUL]) (length x)) \<le> n)"

definition rows_ok :: "string list list \<Rightarrow> bool" where
  "rows_ok res \<longleftrightarrow> hex_fits (PQgetvalue res 0 4) SERVER_HASH_SIZE \<and> hex_fits (PQgetvalue res 0 5) SERVER_SALT_SIZE"

inductive worker_step ::
  "chat_env \<Rightarrow> chat_server res http_env \<Rightarrow> chat_server \<Rightarrow> chat_server \<Rightarrow> bool"
  for env web where
  result: "\<lbrakk>worker_result env r s = Inr s'; rows_ok (fst r)\<rbrakk> \<Longrightarrow> worker_step env web s s'"
| event: "eworker_prep_event env web rep s = Inr s' \<Longrightarrow> worker_step env web s s'"

inductive_simps worker_step_simps: "worker_step env web s s'"

lemma worker_results_steps:
  "\<lbrakk>worker_results env rs s = Inr s'; \<forall>r\<in>set rs. rows_ok (fst r)\<rbrakk> \<Longrightarrow> (worker_step env web)\<^sup>*\<^sup>* s s'"
  by (induction rs arbitrary: s)
    (auto simp: bindR_Inr intro: converse_rtranclp_into_rtranclp worker_step.result)

lemma wait_for_events_steps:
  "eworker_wait_for_events env web rs s = Inr s' \<Longrightarrow> (worker_step env web)\<^sup>*\<^sup>* s s'"
  by (induction rs arbitrary: s)
    (auto simp: bindR_Inr intro: converse_rtranclp_into_rtranclp worker_step.event)

lemma async_run_steps:
  "\<lbrakk>server_eworker_async_run env web ts (st, s) = Inr (st', s');
    \<forall>t\<in>set ts. \<forall>r\<in>set (turn_results t). rows_ok (fst r)\<rbrakk> \<Longrightarrow> (worker_step env web)\<^sup>*\<^sup>* s s'"
proof (induction ts arbitrary: st s)
  case (Cons t ts)
  show ?case
  proof (cases "(if turn_shutdown t then st OR TM_STATE_SHUTDOWN else st) AND TM_STATE_SHUTDOWN \<noteq> 0 \<or>
      turn_poll t = -1")
    case True
    with Cons.prems show ?thesis by (auto simp: Let_def split: if_splits)
  next
    case False
    with Cons.prems obtain s1 s2 st1 where
      s1: "(if 0 < turn_poll t then worker_results env (turn_results t) s else Inr s) = Inr s1"
      and s2: "eworker_wait_for_events env web (turn_reports t) s1 = Inr s2"
      and r: "server_eworker_async_run env web ts (st1, s2) = Inr (st', s')"
      by (auto simp: Let_def bindR_Inr)
    have "(worker_step env web)\<^sup>*\<^sup>* s s1"
      using s1 Cons.prems(2) by (auto intro: worker_results_steps split: if_splits)
    also have "(worker_step env web)\<^sup>*\<^sup>* s1 s2" by (rule wait_for_events_steps [OF s2])
    also have "(worker_step env web)\<^sup>*\<^sup>* s2 s'" by (rule Cons.IH [OF r]) (use Cons.prems(2) in simp)
    finally show ?thesis .
  qed
qed simp

end
