(* ===== verification/Server_Invariant.thy ===== *)
theory Server_Invariant
  imports Server_Worker
begin

text \<open>
  An invariant of everything a worker does: a logged-in connection has a user, the offsets of its
  receive buffers stay inside them, and the arrays of every user keep their sizes.
\<close>

section \<open>The invariant\<close>

definition recv_ok :: "recv_buf \<Rightarrow> bool" where
  "recv_ok r \<longleftrightarrow>
     (\<forall>d. recv_data r = Some d \<longrightarrow> data_size r \<le> length d \<and> recv_offset r \<le> data_size r) \<and>
     (recv_data r = None \<longrightarrow> recv_offset r = 0) \<and>
     (\<forall>h. recv_http r = Some h \<longrightarrow> total_recv h \<le> body_len h)"

definition client_ok :: "client \<Rightarrow> bool" where
  "client_ok c \<longleftrightarrow> (has_state c CLIENT_STATE_LOGGED_IN \<longrightarrow> dbuser c \<noteq> None) \<and> recv_ok (recv c)"

definition user_ok :: "db_user \<Rightarrow> bool" where
  "user_ok u \<longleftrightarrow>
     length (username u) = DB_USERNAME_MAX \<and> length (displayname u) = DB_DISPLAYNAME_MAX \<and>
     length (bio u) = DB_BIO_MAX \<and> length (uhash u) = SERVER_HASH_SIZE \<and>
     length (usalt u) = SERVER_SALT_SIZE \<and> length (created_at u) = DB_TIMESTAMP_MAX \<and>
     length (pfp_hash u) = DB_PFP_NAME_MAX"

definition server_ok :: "chat_server \<Rightarrow> bool" where
  "server_ok s \<longleftrightarrow>
     (\<forall>a c. clients s a = Some c \<longrightarrow> client_ok c) \<and> (\<forall>a u. users s a = Some u \<longrightarrow> user_ok u)"

text \<open>What a worker relies on: OpenSSL's hashes and salts have their sizes.\<close>

definition env_ok :: "chat_env \<Rightarrow> bool" where
  "env_ok env \<longleftrightarrow>
     (\<forall>p salt. length (sha512 env p salt) = SERVER_HASH_SIZE) \<and>
     (\<forall>k. length (os_salt env k) = SERVER_SALT_SIZE)"

named_theorems keeps

section \<open>The parts of the state that it reads\<close>

lemma server_ok_upd [simp]:
  "server_ok (s\<lparr>sessions := x1\<rparr>) = server_ok s" "server_ok (s\<lparr>tokens := x2\<rparr>) = server_ok s"
  "server_ok (s\<lparr>timers := x3\<rparr>) = server_ok s" "server_ok (s\<lparr>events := x4\<rparr>) = server_ok s"
  "server_ok (s\<lparr>next_addr := x5\<rparr>) = server_ok s" "server_ok (s\<lparr>event_ht := x6\<rparr>) = server_ok s"
  "server_ok (s\<lparr>client_ht := x7\<rparr>) = server_ok s" "server_ok (s\<lparr>user_ht := x8\<rparr>) = server_ok s"
  "server_ok (s\<lparr>session_ht := x9\<rparr>) = server_ok s" "server_ok (s\<lparr>upload_token_ht := x10\<rparr>) = server_ok s"
  "server_ok (s\<lparr>epoll := x11\<rparr>) = server_ok s" "server_ok (s\<lparr>closed := x12\<rparr>) = server_ok s"
  "server_ok (s\<lparr>os_calls := x13\<rparr>) = server_ok s" "server_ok (s\<lparr>files := x14\<rparr>) = server_ok s"
  "server_ok (s\<lparr>ew_db := x15\<rparr>) = server_ok s" "server_ok (s\<lparr>chat_cmd_ht := x16\<rparr>) = server_ok s"
  by (simp_all add: server_ok_def)

lemma server_ok_put [simp]:
  "server_ok (put_session a x1 s) = server_ok s" "server_ok (put_token a x2 s) = server_ok s"
  "server_ok (put_timer a x3 s) = server_ok s" "server_ok (put_event a x4 s) = server_ok s"
  "server_ok (set_db db s) = server_ok s" "server_ok (close_fd fd s) = server_ok s"
  by (simp_all add: put_defs set_db_def close_fd_def)

lemma server_ok_client [intro]: "\<lbrakk>clients s a = Some c; server_ok s\<rbrakk> \<Longrightarrow> client_ok c"
  by (simp add: server_ok_def)

lemma server_ok_user [intro]: "\<lbrakk>users s a = Some u; server_ok s\<rbrakk> \<Longrightarrow> user_ok u"
  by (simp add: server_ok_def)

lemmas objects_ok = server_ok_client server_ok_user

lemma server_ok_put_client [intro!]: "\<lbrakk>server_ok s; client_ok c\<rbrakk> \<Longrightarrow> server_ok (put_client a c s)"
  by (auto simp: server_ok_def put_client_def)

lemma server_ok_put_user [intro!]: "\<lbrakk>server_ok s; user_ok u\<rbrakk> \<Longrightarrow> server_ok (put_user a u s)"
  by (auto simp: server_ok_def put_user_def)

text \<open>Freeing.\<close>

lemma server_ok_fewer [intro!]:
  "\<lbrakk>server_ok s; \<And>b c. m b = Some c \<Longrightarrow> clients s b = Some c\<rbrakk> \<Longrightarrow> server_ok (s\<lparr>clients := m\<rparr>)"
  "\<lbrakk>server_ok s; \<And>b u. n b = Some u \<Longrightarrow> users s b = Some u\<rbrakk> \<Longrightarrow> server_ok (s\<lparr>users := n\<rparr>)"
  unfolding server_ok_def by simp_all blast+

lemma fun_upd_None [dest!]: "(if b = a then None else m b) = Some x \<Longrightarrow> m b = Some x"
  by (simp split: if_splits)

lemma heaps_put [simp]:
  "clients (put_session a x1 s) = clients s" "clients (put_token a x2 s) = clients s"
  "clients (put_timer a x3 s) = clients s" "clients (put_event a x4 s) = clients s"
  "clients (put_user a x5 s) = clients s" "clients (set_db db s) = clients s" "clients (close_fd fd s) = clients s"
  "users (put_session a x1 s) = users s" "users (put_token a x2 s) = users s"
  "users (put_timer a x3 s) = users s" "users (put_event a x4 s) = users s"
  "users (set_db db s) = users s" "users (close_fd fd s) = users s"
  by (simp_all add: put_defs set_db_def close_fd_def)

lemma deref_Inr: "deref m a = Inr x \<longleftrightarrow> m a = Some x"
  by (simp add: deref_def split: option.split)

lemma the_ptr_Inr: "the_ptr p = Inr a \<longleftrightarrow> p = Some a"
  by (simp add: the_ptr_def split: option.split)

lemmas runs = bindR_Inr deref_Inr the_ptr_Inr

section \<open>Connections\<close>

lemma client_ok_same:
  "\<lbrakk>client_ok c; recv c' = recv c; cstate c' = cstate c; dbuser c' = dbuser c\<rbrakk> \<Longrightarrow> client_ok c'"
  by (simp add: client_ok_def has_state_def)

lemma client_ok_simps [simp]:
  "client_ok (c\<lparr>session := x\<rparr>) = client_ok c" "client_ok (c\<lparr>cerr := e\<rparr>) = client_ok c"
  "client_ok (server_set_client_err c e) = client_ok c"
  "client_ok (fst (server_send c b)) = client_ok c" "client_ok (fst (ws_send c b)) = client_ok c"
  "client_ok (fst (http_send c h)) = client_ok c" "client_ok (fst (server_ws_pong c p)) = client_ok c"
  "client_ok (fst (server_recv c n i)) = client_ok c"
  by (auto simp: client_ok_def has_state_def server_set_client_err_def ws_send_facts http_send_def
      server_ws_pong_def ws_send_adv_def server_recv_def Let_def split: option.split)

lemma client_ok_dbuser: "client_ok c \<Longrightarrow> client_ok (c\<lparr>dbuser := Some u\<rparr>)"
  by (simp add: client_ok_def has_state_def)

lemma client_ok_login: "\<lbrakk>client_ok c; dbuser c \<noteq> None\<rbrakk> \<Longrightarrow> client_ok (c\<lparr>cstate := x\<rparr>)"
  by (simp add: client_ok_def)

lemma client_ok_zero [simp]: "client_ok (client_zero fd ssl)"
  by (simp add: client_ok_def client_zero_def has_state_def client_states recv_ok_def recv_zero_def)

lemma ws_json_send_keeps [keeps]:
  "\<lbrakk>ws_json_send env s a j = Inr (s', n); server_ok s\<rbrakk> \<Longrightarrow> server_ok s'"
  by (auto simp: ws_json_send_def runs Let_def case_prod_beta)

lemma send_to_users_keeps [keeps]:
  "\<lbrakk>send_to_users env j ids s = Inr s'; server_ok s\<rbrakk> \<Longrightarrow> server_ok s'"
  by (induction ids arbitrary: s) (auto simp: runs split: option.splits dest: keeps)

lemma send_to_members_keeps [keeps]:
  "\<lbrakk>send_to_members env j ids s = Inr s'; server_ok s\<rbrakk> \<Longrightarrow> server_ok s'"
  by (induction ids arbitrary: s) (auto simp: runs split: option.splits dest: keeps)

lemma send_resp_keeps [keeps]: "\<lbrakk>send_resp s a h = Inr s'; server_ok s\<rbrakk> \<Longrightarrow> server_ok s'"
  by (auto simp: send_resp_def runs)

section \<open>Users\<close>

lemma length_strncpy: "n \<le> length d \<Longrightarrow> length (strncpy d x n) = length d"
  by (simp add: strncpy_def)

lemma user_ok_simps [simp]:
  "user_ok (u\<lparr>user_id := i\<rparr>) = user_ok u" "user_ok (u\<lparr>uflags := f\<rparr>) = user_ok u"
  "user_ok (u\<lparr>urtusm := r\<rparr>) = user_ok u"
  "user_ok u \<Longrightarrow> user_ok (u\<lparr>username := strncpy (username u) x DB_USERNAME_MAX\<rparr>)"
  "user_ok u \<Longrightarrow> user_ok (u\<lparr>displayname := strncpy (displayname u) x DB_DISPLAYNAME_MAX\<rparr>)"
  "user_ok u \<Longrightarrow> user_ok (u\<lparr>bio := strncpy (bio u) x DB_BIO_MAX\<rparr>)"
  "user_ok u \<Longrightarrow> user_ok (u\<lparr>created_at := strncpy (created_at u) x DB_TIMESTAMP_MAX\<rparr>)"
  "user_ok u \<Longrightarrow> user_ok (u\<lparr>pfp_hash := strncpy (pfp_hash u) x DB_PFP_HASH_MAX\<rparr>)"
  by (simp_all add: user_ok_def length_strncpy db_maxs)

lemma user_ok_zero [simp]: "user_ok db_user_zero"
  by (simp add: user_ok_def db_user_zero_def)

lemma opt_field_ok: "\<lbrakk>user_ok u; \<And>x. user_ok u \<Longrightarrow> user_ok (f x u)\<rbrakk> \<Longrightarrow> user_ok (opt_field v f u)"
  by (simp add: opt_field_def split: option.split)

lemma hex_field_length:
  "\<lbrakk>hex_field v dst = Inr h; hex_fits v (length dst)\<rbrakk> \<Longrightarrow> length h = length dst"
  by (auto simp: hex_field_def hex_fits_def split: option.splits)

lemma db_row_to_user_ok:
  assumes "db_row_to_user u0 res 0 = Inr u" "user_ok u0" "rows_ok res"
  shows "user_ok u"
proof -
  define u1 where "u1 = opt_field (PQgetvalue res 0 0) (\<lambda>x u. u\<lparr>user_id := ucast (strtoul 10 x)\<rparr>) u0"
  define u2 where "u2 = opt_field (PQgetvalue res 0 1)
      (\<lambda>x u. u\<lparr>username := strncpy (username u) x DB_USERNAME_MAX\<rparr>) u1"
  define u3 where "u3 = opt_field (PQgetvalue res 0 2)
      (\<lambda>x u. u\<lparr>displayname := strncpy (displayname u) x DB_DISPLAYNAME_MAX\<rparr>) u2"
  define u4 where "u4 = opt_field (PQgetvalue res 0 3) (\<lambda>x u. u\<lparr>bio := strncpy (bio u) x DB_BIO_MAX\<rparr>) u3"
  have u1: "user_ok u1" unfolding u1_def by (rule opt_field_ok) (use assms(2) in simp_all)
  have u2: "user_ok u2" unfolding u2_def by (rule opt_field_ok) (use u1 in simp_all)
  have u3: "user_ok u3" unfolding u3_def by (rule opt_field_ok) (use u2 in simp_all)
  have u4: "user_ok u4" unfolding u4_def by (rule opt_field_ok) (use u3 in simp_all)
  obtain h sa where h: "hex_field (PQgetvalue res 0 4) (uhash u4) = Inr h"
    and sa: "hex_field (PQgetvalue res 0 5) (usalt u4) = Inr sa"
    and u: "u = (let u5 = u4\<lparr>uhash := h, usalt := sa\<rparr>;
                u6 = opt_field (PQgetvalue res 0 6) (\<lambda>x u. u\<lparr>uflags := sint (atoi x)\<rparr>) u5;
                u7 = opt_field (PQgetvalue res 0 7)
                       (\<lambda>x u. u\<lparr>created_at := strncpy (created_at u) x DB_TIMESTAMP_MAX\<rparr>) u6
            in opt_field (PQgetvalue res 0 8)
                       (\<lambda>x u. u\<lparr>pfp_hash := strncpy (pfp_hash u) x DB_PFP_HASH_MAX\<rparr>) u7)"
    using assms(1) unfolding db_row_to_user_def Let_def u1_def [symmetric] u2_def [symmetric]
      u3_def [symmetric] u4_def [symmetric] by (auto simp: bindR_Inr)
  have "length h = SERVER_HASH_SIZE" "length sa = SERVER_SALT_SIZE"
    using hex_field_length [OF h] hex_field_length [OF sa] assms(3) u4 by (simp_all add: rows_ok_def user_ok_def)
  then have "user_ok (u4\<lparr>uhash := h, usalt := sa\<rparr>)" using u4 by (simp add: user_ok_def)
  then show ?thesis unfolding u Let_def by (intro opt_field_ok) simp_all
qed

section \<open>Results of queries\<close>

lemma db_get_user_result_keeps [keeps]:
  "\<lbrakk>db_get_user_result s rows st ctx = Inr (s', ctx'); server_ok s; rows_ok rows\<rbrakk> \<Longrightarrow> server_ok s'"
  by (auto simp: db_get_user_result_def runs Let_def split: if_splits dest: db_row_to_user_ok)

lemma db_insert_user_result_keeps [keeps]:
  "\<lbrakk>db_insert_user_result s rows st ctx = Inr (s', ctx'); server_ok s\<rbrakk> \<Longrightarrow> server_ok s'"
  by (auto simp: db_insert_user_result_def runs Let_def split: if_splits option.splits db_data.splits)

lemma put_cmd_msg_keeps [keeps]: "\<lbrakk>put_cmd_msg s ctx m = Inr (s', ctx'); server_ok s\<rbrakk> \<Longrightarrow> server_ok s'"
  by (auto simp: put_cmd_msg_def runs split: option.splits db_data.splits)

lemma insert_group_msg_result_keeps [keeps]:
  "\<lbrakk>insert_group_msg_result s rows st ctx = Inr (s', ctx'); server_ok s\<rbrakk> \<Longrightarrow> server_ok s'"
  by (auto simp: insert_group_msg_result_def runs Let_def split: if_splits option.splits dest: keeps)

lemma db_get_user_json_result_same [dest]: "db_get_user_json_result s rows st ctx = Inr (s', ctx') \<Longrightarrow> s' = s"
  by (simp add: db_get_user_json_result_def)

lemma get_connected_users_result_same [dest]: "get_connected_users_result s rows st ctx = Inr (s', ctx') \<Longrightarrow> s' = s"
  by (auto simp: get_connected_users_result_def split: if_splits option.splits db_data.splits list.splits)

lemma update_user_result_same [dest]: "update_user_result s rows st ctx = Inr (s', ctx') \<Longrightarrow> s' = s"
  by (simp add: update_user_result_def)

lemma db_get_groups_result_same [dest]: "db_get_groups_result s rows st ctx = Inr (s', ctx') \<Longrightarrow> s' = s"
  by (simp add: db_get_groups_result_def)

lemma db_get_group_member_ids_result_same [dest]: "db_get_group_member_ids_result s rows st ctx = Inr (s', ctx') \<Longrightarrow> s' = s"
  by (auto simp: db_get_group_member_ids_result_def split: if_splits option.splits db_data.splits list.splits)

lemma get_public_groups_result_same [dest]: "get_public_groups_result s rows st ctx = Inr (s', ctx') \<Longrightarrow> s' = s"
  by (simp add: get_public_groups_result_def)

lemma join_pub_group_result_same [dest]: "join_pub_group_result s rows st ctx = Inr (s', ctx') \<Longrightarrow> s' = s"
  by (simp add: join_pub_group_result_def)

lemma create_group_result_same [dest]: "create_group_result s rows st ctx = Inr (s', ctx') \<Longrightarrow> s' = s"
  by (auto simp: create_group_result_def split: if_splits option.splits db_data.splits list.splits)

lemma db_get_group_msgs_result_same [dest]: "db_get_group_msgs_result s rows st ctx = Inr (s', ctx') \<Longrightarrow> s' = s"
  by (simp add: db_get_group_msgs_result_def)

lemma db_delete_msg_result_same [dest]: "db_delete_msg_result s rows st ctx = Inr (s', ctx') \<Longrightarrow> s' = s"
  by (auto simp: db_delete_msg_result_def split: if_splits option.splits db_data.splits list.splits)

lemma db_create_group_code_result_same [dest]: "db_create_group_code_result s rows st ctx = Inr (s', ctx') \<Longrightarrow> s' = s"
  by (auto simp: db_create_group_code_result_def split: if_splits option.splits db_data.splits list.splits)

lemma db_get_group_codes_result_same [dest]: "db_get_group_codes_result s rows st ctx = Inr (s', ctx') \<Longrightarrow> s' = s"
  by (simp add: db_get_group_codes_result_def)

lemma user_join_group_code_result_same [dest]: "user_join_group_code_result s rows st ctx = Inr (s', ctx') \<Longrightarrow> s' = s"
  by (simp add: user_join_group_code_result_def)

lemma db_delete_group_code_result_same [dest]: "db_delete_group_code_result s rows st ctx = Inr (s', ctx') \<Longrightarrow> s' = s"
  by (simp add: db_delete_group_code_result_def)

lemma del_group_result_same [dest]: "del_group_result s rows st ctx = Inr (s', ctx') \<Longrightarrow> s' = s"
  by (simp add: del_group_result_def)

lemma get_all_attachs_result_same [dest]: "get_all_attachs_result env s rows st ctx = Inr (s', ctx') \<Longrightarrow> s' = s"
  by (auto simp: get_all_attachs_result_def split: if_splits option.splits db_data.splits list.splits)

lemma get_group_owner_result_same [dest]: "get_group_owner_result s rows st ctx = Inr (s', ctx') \<Longrightarrow> s' = s"
  by (auto simp: get_group_owner_result_def split: if_splits option.splits db_data.splits list.splits)

lemma run_db_exec_res_keeps:
  "\<lbrakk>run_db_exec_res env r s rows st ctx = Inr (s', ctx'); server_ok s; rows_ok rows\<rbrakk> \<Longrightarrow> server_ok s'"
  by (cases r) (auto dest: keeps)

section \<open>Sessions, tokens, timers and events\<close>

lemma server_new_user_session_keeps [keeps]:
  "\<lbrakk>server_new_user_session env s p = Inr (s', q); server_ok s\<rbrakk> \<Longrightarrow> server_ok s'"
  by (auto simp: server_new_user_session_def runs Let_def os_call_def split: option.splits
      dest!: objects_ok)

lemma server_del_user_session_keeps [keeps]:
  "\<lbrakk>server_del_user_session s p = Inr s'; server_ok s\<rbrakk> \<Longrightarrow> server_ok s'"
  by (auto simp: server_del_user_session_def runs split: option.splits)

lemma server_event_remove_keeps [keeps]:
  "\<lbrakk>server_event_remove s a = Inr (s', r); server_ok s\<rbrakk> \<Longrightarrow> server_ok s'"
  by (auto simp: server_event_remove_def runs)

lemma server_event_rearm_keeps [keeps]:
  "\<lbrakk>server_event_rearm s a = Inr (s', r); server_ok s\<rbrakk> \<Longrightarrow> server_ok s'"
  by (auto simp: server_event_rearm_def runs split: if_splits)

lemma server_new_event_keeps [keeps]:
  "\<lbrakk>server_new_event env s fd d rd cl = Inr (s', r); server_ok s\<rbrakk> \<Longrightarrow> server_ok s'"
  by (auto simp: server_new_event_def new_event_err_def server_event_add_def runs Let_def os_call_def
      case_prod_beta split: if_splits dest: keeps)

definition del_keeps :: "del_fun \<Rightarrow> bool" where
  "del_keeps del \<longleftrightarrow> (\<forall>p s s'. del p s = Inr s' \<longrightarrow> server_ok s \<longrightarrow> server_ok s')"

lemma del_keepsD: "\<lbrakk>del p s = Inr s'; del_keeps del; server_ok s\<rbrakk> \<Longrightarrow> server_ok s'"
  by (simp add: del_keeps_def)

lemma timer_exp_keeps [keeps]:
  "\<lbrakk>server_timer_exp del s t = Inr (s', st); server_ok s\<rbrakk> \<Longrightarrow> server_ok s'"
  by (auto simp: server_timer_exp_def timer_user_session_def timer_ut_eq runs split: timer_type.splits dest: keeps)

lemma server_close_timer_keeps [keeps]:
  "\<lbrakk>server_close_timer del s p k = Inr s'; server_ok s\<rbrakk> \<Longrightarrow> server_ok s'"
  by (auto simp: server_close_timer_def runs split: option.splits if_splits dest: keeps)

lemma set_timerfd_keeps [keeps]: "\<lbrakk>set_timerfd s ty d fd = Inr s'; server_ok s\<rbrakk> \<Longrightarrow> server_ok s'"
  by (auto simp: set_timerfd_def runs split: timer_type.splits)

lemma server_addtimer_keeps [keeps]:
  "\<lbrakk>server_addtimer env del s sec fl ty d = Inr (s', r); server_ok s\<rbrakk> \<Longrightarrow> server_ok s'"
  by (auto simp: server_addtimer_def runs Let_def os_call_def case_prod_beta
      split: if_splits option.splits dest!: keeps)

lemma server_new_upload_token_keeps [keeps]:
  "\<lbrakk>server_new_upload_token env del s uid = Inr (s', a); server_ok s\<rbrakk> \<Longrightarrow> server_ok s'"
  by (auto simp: server_new_upload_token_def runs Let_def os_call_def split: option.splits dest!: keeps)

lemma server_new_upload_token_attach_keeps [keeps]:
  "\<lbrakk>server_new_upload_token_attach env del s = Inr (s', a); server_ok s\<rbrakk> \<Longrightarrow> server_ok s'"
  by (auto simp: server_new_upload_token_attach_def runs dest: keeps)

lemma server_send_upload_token_keeps [keeps]:
  "\<lbrakk>server_send_upload_token env s c t a = Inr (s', n); server_ok s\<rbrakk> \<Longrightarrow> server_ok s'"
  by (auto simp: server_send_upload_token_def runs dest: keeps)

lemma expire_session_keeps [keeps]:
  "\<lbrakk>expire_session env del sa s = Inr s'; server_ok s\<rbrakk> \<Longrightarrow> server_ok s'"
  by (auto simp: expire_session_def runs split: if_splits option.splits dest!: keeps)

lemma free_dbuser_keeps [keeps]: "\<lbrakk>free_dbuser p s = Inr s'; server_ok s\<rbrakk> \<Longrightarrow> server_ok s'"
  by (auto simp: free_dbuser_def runs split: option.splits)

lemma server_free_client_keeps [keeps]:
  "\<lbrakk>server_free_client env del s p = Inr s'; server_ok s\<rbrakk> \<Longrightarrow> server_ok s'"
  by (auto simp: server_free_client_def runs Let_def split: option.splits dest!: keeps)

lemma rtusm_broadcast_keeps [keeps]: "\<lbrakk>rtusm_broadcast s a new = Inr s'; server_ok s\<rbrakk> \<Longrightarrow> server_ok s'"
  by (auto simp: rtusm_broadcast_def runs Let_def)

lemma rtusm_user_keeps [keeps]:
  "\<lbrakk>server_rtusm_user_disconnect s a = Inr s'; server_ok s\<rbrakk> \<Longrightarrow> server_ok s'"
  "\<lbrakk>server_rtusm_user_connect s a = Inr s'; server_ok s\<rbrakk> \<Longrightarrow> server_ok s'"
  "\<lbrakk>server_rtusm_user_pfp_change s a = Inr s'; server_ok s\<rbrakk> \<Longrightarrow> server_ok s'"
  by (auto simp: server_rtusm_user_disconnect_def server_rtusm_user_connect_def
      server_rtusm_user_pfp_change_def runs elim!: rtusm_broadcast_keeps)

lemma run_close_keeps [keeps]: "\<lbrakk>run_close env del cb s e = Inr (s', st); server_ok s\<rbrakk> \<Longrightarrow> server_ok s'"
  by (auto simp: run_close_def se_close_client_def se_timer_close_def runs
      split: se_close_callback.splits if_splits option.splits elim!: server_free_client_keeps rtusm_user_keeps
        server_close_timer_keeps)

lemma del_event_keeps [keeps]: "\<lbrakk>del_event env p s = Inr s'; server_ok s\<rbrakk> \<Longrightarrow> server_ok s'"
  by (cases p) (auto simp: del_event_Some runs split: option.splits if_splits dest!: keeps)

lemma server_del_upload_token_keeps [keeps]:
  "\<lbrakk>server_del_upload_token (del_event env) s p = Inr s'; server_ok s\<rbrakk> \<Longrightarrow> server_ok s'"
  by (auto simp: server_del_upload_token_def runs split: option.splits if_splits dest!: keeps)

lemma drop_token_keeps [keeps]: "\<lbrakk>drop_token env s a = Inr s'; server_ok s\<rbrakk> \<Longrightarrow> server_ok s'"
  by (auto simp: drop_token_def runs split: option.splits dest: keeps)

section \<open>Logging in\<close>

lemma stop_session_timer_keeps [keeps]:
  "\<lbrakk>stop_session_timer env p s = Inr s'; server_ok s\<rbrakk> \<Longrightarrow> server_ok s'"
  by (auto simp: stop_session_timer_def runs split: option.splits if_splits dest!: keeps)

lemma ws_json_send_client:
  assumes "ws_json_send env s a j = Inr (s', n)"
  obtains c c' where "clients s a = Some c" "clients s' = (clients s)(a \<mapsto> c')" "dbuser c' = dbuser c"
proof -
  from assms obtain c where c: "clients s a = Some c" by (auto simp: ws_json_send_def runs)
  obtain c' m where "ws_json_send env s a j = Inr (put_client a c' s, m)" "dbuser c' = dbuser c"
    using ws_json_send_ok [where s = s, OF c] by metis
  with assms c show thesis by (intro that [of c c']) auto
qed

lemma server_set_client_logged_in_keeps [keeps]:
  assumes "server_set_client_logged_in env s client user sess = Inr (s', err)" and ok: "server_ok s"
  shows "server_ok s'"
proof -
  obtain sid ua u where u: "users s ua = Some u" and sid: "(case sess of None \<Rightarrow> Inr 0
            | Some sa \<Rightarrow> bindR (deref (sessions s) sa) (\<lambda>x. Inr (session_id x))) = Inr sid" and ua: "user = Some ua"
    using assms(1) by (auto simp: server_set_client_logged_in_def runs)
  show ?thesis
  proof (cases "server_get_client_user_id s (id_key (user_id u))")
    case (Some b)
    then have "s' = s" using assms(1) u sid ua by (simp add: server_set_client_logged_in_def)
    then show ?thesis using ok by simp
  next
    case None
    define s1 where "s1 ca c = (put_client ca (c\<lparr>dbuser := Some ua\<rparr>) s)
                       \<lparr>user_ht := fst (server_ght_insert (user_ht s) (id_key (user_id u)) (Some ca))\<rparr>" for ca c
    obtain ca c s2 n s3 where c: "clients s ca = Some c"
      and s2: "ws_json_send env (s1 ca c) ca (session_json sid) = Inr (s2, n)"
      and s3: "(if n = -1 then Inr s2
                else bindR (deref (clients s2) ca) (\<lambda>c2.
                       Inr (put_client ca (c2\<lparr>cstate := cstate c2 OR CLIENT_STATE_LOGGED_IN,
                              session := sess\<rparr>) s2))) = Inr s3"
      and s4: "stop_session_timer env sess s3 = Inr s'"
      using assms(1) None u sid ua unfolding server_set_client_logged_in_def s1_def by (auto simp: runs)
    have "server_ok (s1 ca c)" using ok c by (auto simp: s1_def client_ok_dbuser dest: server_ok_client)
    then have ok2: "server_ok s2" using s2 by (auto dest: keeps)
    obtain d c' where d: "clients (s1 ca c) ca = Some d" and s2c: "clients s2 = (clients (s1 ca c))(ca \<mapsto> c')"
      and dc: "dbuser c' = dbuser d"
      using s2 by (rule ws_json_send_client)
    have "dbuser c' = Some ua" using d dc by (auto simp: s1_def)
    moreover have "client_ok c'" using s2c ok2 by (auto intro!: server_ok_client [of s2 ca])
    ultimately have "server_ok s3" using s3 s2c ok2
      by (auto simp: runs client_ok_login split: if_splits)
    then show ?thesis using s4 by (auto dest: keeps)
  qed
qed

lemma new_session_for_keeps [keeps]:
  "\<lbrakk>new_session_for env b p ua s = Inr (s', q); server_ok s\<rbrakk> \<Longrightarrow> server_ok s'"
  by (auto simp: new_session_for_def runs split: if_splits dest!: keeps)

lemma login_keeps [keeps]:
  "\<lbrakk>do_client_login env s ctx = Inr (s', ctx', e); server_ok s\<rbrakk> \<Longrightarrow> server_ok s'"
  "\<lbrakk>do_client_login_session env s ctx = Inr (s', ctx', e); server_ok s\<rbrakk> \<Longrightarrow> server_ok s'"
  "\<lbrakk>do_client_register env s ctx = Inr (s', ctx', e); server_ok s\<rbrakk> \<Longrightarrow> server_ok s'"
  by (auto simp: do_client_login_def do_client_login_session_def do_client_register_def runs
      split: if_splits option.splits db_data.splits dest!: keeps)

section \<open>Files, groups and users\<close>

lemma file_keeps [simp]:
  "server_ok (fst (server_write_file env s data sz dir name)) = server_ok s"
  "server_ok (fst (server_save_file_img env s data fr)) = server_ok s"
  "server_ok (fst (server_delete_file s f)) = server_ok s"
  by (simp_all add: server_write_file_def server_save_file_img_def server_delete_file_def os_call_def Let_def
      case_prod_beta split: option.split)

lemma save_file_keeps [keeps]:
  "\<lbrakk>server_save_file_img env s data fr = (s', f); server_ok s\<rbrakk> \<Longrightarrow> server_ok s'"
  using file_keeps(2) [of env s data fr] by simp

lemma file_cb_keeps [keeps]:
  "\<lbrakk>do_save_file_img env s ctx rest = Inr (s', ctx', e); server_ok s\<rbrakk> \<Longrightarrow> server_ok s'"
  "\<lbrakk>do_delete_file env s ctx rest = Inr (s', ctx', e); server_ok s\<rbrakk> \<Longrightarrow> server_ok s'"
  by (auto simp: do_save_file_img_def do_delete_file_def os_call_def Let_def
      split: list.splits if_splits option.splits db_data.splits)

lemma delete_attachments_keeps [keeps]:
  "\<lbrakk>delete_attachments env js s = Inr s'; server_ok s\<rbrakk> \<Longrightarrow> server_ok s'"
  by (induction js arbitrary: s) (auto simp: runs)

lemma delete_attachments_json_keeps [keeps]:
  "\<lbrakk>server_delete_attachments_json env s j = Inr s'; server_ok s\<rbrakk> \<Longrightarrow> server_ok s'"
  by (auto simp: server_delete_attachments_json_def split: option.splits dest: keeps)

lemma delete_all_attachs_keeps [keeps]:
  "\<lbrakk>delete_all_attachs env js s = Inr s'; server_ok s\<rbrakk> \<Longrightarrow> server_ok s'"
  by (induction js arbitrary: s) (auto simp: runs dest: keeps)

lemma server_group_broadcast_ok [simp]: "server_ok (server_group_broadcast s gid j) = server_ok s"
  by (simp add: server_group_broadcast_def Let_def case_prod_beta)

lemma answer_keeps [keeps]: "\<lbrakk>answer env s ctx j = Inr (s', ctx', e); server_ok s\<rbrakk> \<Longrightarrow> server_ok s'"
  by (auto simp: answer_def runs dest: keeps)

lemma on_user_group_join_keeps [keeps]:
  "\<lbrakk>on_user_group_join s p gid = Inr s'; server_ok s\<rbrakk> \<Longrightarrow> server_ok s'"
  by (auto simp: on_user_group_join_def runs Let_def)

lemma send_group_codes_keeps [keeps]:
  "\<lbrakk>server_send_group_codes env s p cs gid j = Inr s'; server_ok s\<rbrakk> \<Longrightarrow> server_ok s'"
  by (auto simp: server_send_group_codes_def runs dest: keeps)

lemma group_cb_keeps1 [keeps]:
  "\<lbrakk>do_rtusm_broadcast env s ctx = Inr (s', ctx', e); server_ok s\<rbrakk> \<Longrightarrow> server_ok s'"
  "\<lbrakk>do_get_users env s ctx = Inr (s', ctx', e); server_ok s\<rbrakk> \<Longrightarrow> server_ok s'"
  "\<lbrakk>do_group_broadcast env s ctx = Inr (s', ctx', e); server_ok s\<rbrakk> \<Longrightarrow> server_ok s'"
  "\<lbrakk>do_client_groups env s ctx = Inr (s', ctx', e); server_ok s\<rbrakk> \<Longrightarrow> server_ok s'"
  "\<lbrakk>get_all_groups_result env s ctx = Inr (s', ctx', e); server_ok s\<rbrakk> \<Longrightarrow> server_ok s'"
  "\<lbrakk>join_group_result s ctx = Inr (s', ctx', e); server_ok s\<rbrakk> \<Longrightarrow> server_ok s'"
  unfolding do_rtusm_broadcast_def do_get_users_def do_group_broadcast_def do_client_groups_def
      get_all_groups_result_def join_group_result_def
  by (auto simp: runs split: if_splits option.splits db_data.splits dest!: keeps)

lemma group_cb_keeps2 [keeps]:
  "\<lbrakk>do_group_msg env s ctx = Inr (s', ctx', e); server_ok s\<rbrakk> \<Longrightarrow> server_ok s'"
  "\<lbrakk>do_get_group_msgs env s ctx = Inr (s', ctx', e); server_ok s\<rbrakk> \<Longrightarrow> server_ok s'"
  "\<lbrakk>create_group_code_result env s ctx = Inr (s', ctx', e); server_ok s\<rbrakk> \<Longrightarrow> server_ok s'"
  "\<lbrakk>join_group_code_result s ctx = Inr (s', ctx', e); server_ok s\<rbrakk> \<Longrightarrow> server_ok s'"
  "\<lbrakk>get_group_codes_result env s ctx = Inr (s', ctx', e); server_ok s\<rbrakk> \<Longrightarrow> server_ok s'"
  "\<lbrakk>delete_group_code_result s ctx = Inr (s', ctx', e); server_ok s\<rbrakk> \<Longrightarrow> server_ok s'"
  unfolding do_group_msg_def do_get_group_msgs_def create_group_code_result_def join_group_code_result_def
      get_group_codes_result_def delete_group_code_result_def server_get_send_group_msg_def
  by (auto simp: runs split: if_splits option.splits db_data.splits dest!: keeps)

lemma group_cb_keeps3 [keeps]:
  "\<lbrakk>delete_msg_result env s ctx = Inr (s', ctx', e); server_ok s\<rbrakk> \<Longrightarrow> server_ok s'"
  "\<lbrakk>get_group_owner s ctx = Inr (s', ctx', e); server_ok s\<rbrakk> \<Longrightarrow> server_ok s'"
  "\<lbrakk>do_get_group_member_ids env s ctx = Inr (s', ctx', e); server_ok s\<rbrakk> \<Longrightarrow> server_ok s'"
  "\<lbrakk>update_pfp_result s ctx = Inr (s', ctx', e); server_ok s\<rbrakk> \<Longrightarrow> server_ok s'"
  "\<lbrakk>do_insert_msg_after env s ctx = Inr (s', ctx', e); server_ok s\<rbrakk> \<Longrightarrow> server_ok s'"
  unfolding delete_msg_result_def server_delete_msg_attachments_def get_group_owner_def
      do_get_group_member_ids_def update_pfp_result_def do_insert_msg_after_def server_get_send_group_msg_def
  by (auto simp: runs Let_def case_prod_beta split: if_splits option.splits db_data.splits
      dest!: keeps dest: server_ok_user)

lemma delete_group_result_keeps [keeps]:
  "\<lbrakk>delete_group_result env s ctx rest = Inr (s', ctx', e); server_ok s\<rbrakk> \<Longrightarrow> server_ok s'"
  unfolding delete_group_result_def Let_def
  by (auto simp: runs split: list.splits if_splits dest!: keeps)

lemma run_db_exec_keeps: "\<lbrakk>run_db_exec env e s ctx rest = Inr (s', ctx', msg); server_ok s\<rbrakk> \<Longrightarrow> server_ok s'"
  by (cases e) (auto dest: keeps)

section \<open>Commands\<close>

lemma sent_or_keeps [keeps]: "\<lbrakk>sent_or s resp err r = Inr (s', resp', e); server_ok s\<rbrakk> \<Longrightarrow> server_ok s'"
  by (auto simp: sent_or_def)

lemma ret_if_json_bad_keeps:
  "\<lbrakk>ret_if_json_bad p k ty s resp go = Inr (s', resp', e); server_ok s;
    \<And>v. go v = Inr (s', resp', e) \<Longrightarrow> server_ok s'\<rbrakk> \<Longrightarrow> server_ok s'"
  by (auto simp: ret_if_json_bad_def Let_def split: if_splits)

lemma set_db_keeps: "\<lbrakk>Inr (set_db db s, x, y) = Inr (s', resp', e); server_ok s\<rbrakk> \<Longrightarrow> server_ok s'"
  by auto

lemma login_cmd_keeps [keeps]:
  "\<lbrakk>server_client_login env s c p resp = Inr (s', resp', e); server_ok s\<rbrakk> \<Longrightarrow> server_ok s'"
  "\<lbrakk>server_client_login_session env s c p resp = Inr (s', resp', e); server_ok s\<rbrakk> \<Longrightarrow> server_ok s'"
  unfolding server_client_login_def server_client_login_session_def
  by (auto simp: runs Let_def case_prod_beta split: option.splits elim!: ret_if_json_bad_keeps)

lemma new_user_ok [simp]: "env_ok env \<Longrightarrow> user_ok (new_user env (os_salt env k) n d p)"
  by (simp add: new_user_def user_ok_def db_user_zero_def env_ok_def length_strncpy db_maxs)

lemma server_client_register_keeps [keeps]:
  "\<lbrakk>server_client_register env s c p resp = Inr (s', resp', e); server_ok s; env_ok env\<rbrakk> \<Longrightarrow> server_ok s'"
  unfolding server_client_register_def
  by (auto simp: runs Let_def case_prod_beta os_call_def split: if_splits elim!: ret_if_json_bad_keeps)

lemma group_cmd_keeps1 [keeps]:
  "\<lbrakk>server_group_create env s c p resp = Inr (s', resp', e); server_ok s\<rbrakk> \<Longrightarrow> server_ok s'"
  "\<lbrakk>server_client_groups env s c p resp = Inr (s', resp', e); server_ok s\<rbrakk> \<Longrightarrow> server_ok s'"
  "\<lbrakk>server_get_all_groups env s c p resp = Inr (s', resp', e); server_ok s\<rbrakk> \<Longrightarrow> server_ok s'"
  "\<lbrakk>server_join_group env s c p resp = Inr (s', resp', e); server_ok s\<rbrakk> \<Longrightarrow> server_ok s'"
  "\<lbrakk>server_get_group_msgs env s c p resp = Inr (s', resp', e); server_ok s\<rbrakk> \<Longrightarrow> server_ok s'"
  "\<lbrakk>server_create_group_code env s c p resp = Inr (s', resp', e); server_ok s\<rbrakk> \<Longrightarrow> server_ok s'"
  "\<lbrakk>server_join_group_code env s c p resp = Inr (s', resp', e); server_ok s\<rbrakk> \<Longrightarrow> server_ok s'"
  unfolding server_group_create_def server_client_groups_def server_get_all_groups_def server_join_group_def
      server_get_group_msgs_def server_create_group_code_def server_join_group_code_def
  by (auto simp: runs Let_def case_prod_beta elim!: ret_if_json_bad_keeps sent_or_keeps)

lemma group_cmd_keeps2 [keeps]:
  "\<lbrakk>server_get_group_codes env s c p resp = Inr (s', resp', e); server_ok s\<rbrakk> \<Longrightarrow> server_ok s'"
  "\<lbrakk>server_delete_group_code env s c p resp = Inr (s', resp', e); server_ok s\<rbrakk> \<Longrightarrow> server_ok s'"
  "\<lbrakk>server_delete_group_msg env s c p resp = Inr (s', resp', e); server_ok s\<rbrakk> \<Longrightarrow> server_ok s'"
  "\<lbrakk>server_delete_group env s c p resp = Inr (s', resp', e); server_ok s\<rbrakk> \<Longrightarrow> server_ok s'"
  "\<lbrakk>server_get_group_member_ids env s c p resp = Inr (s', resp', e); server_ok s\<rbrakk> \<Longrightarrow> server_ok s'"
  unfolding server_get_group_codes_def server_delete_group_code_def server_delete_group_msg_def
      server_delete_group_def server_get_group_member_ids_def
  by (auto simp: runs Let_def case_prod_beta elim!: ret_if_json_bad_keeps sent_or_keeps)

lemma attach_msg_keeps [keeps]:
  "\<lbrakk>attach_msg env s c uid gid t atts = Inr s'; server_ok s\<rbrakk> \<Longrightarrow> server_ok s'"
  by (auto simp: attach_msg_def runs Let_def dest!: keeps)

lemma server_group_msg_keeps [keeps]:
  "\<lbrakk>server_group_msg env s c p resp = Inr (s', resp', e); server_ok s\<rbrakk> \<Longrightarrow> server_ok s'"
  unfolding server_group_msg_def
  by (auto simp: runs Let_def case_prod_beta split: if_splits option.splits
      elim!: ret_if_json_bad_keeps attach_msg_keeps)

lemma get_users_from_db_ok [simp]: "server_ok (fst (get_users_from_db env s ids)) = server_ok s"
  by (simp add: get_users_from_db_def Let_def case_prod_beta)

lemma send_users_keeps [keeps]:
  "\<lbrakk>send_users_from_clients env s c us resp = Inr (s', resp'); server_ok s\<rbrakk> \<Longrightarrow> server_ok s'"
  by (auto simp: send_users_from_clients_def runs Let_def split: if_splits dest: keeps)

lemma user_cmd_keeps [keeps]:
  "\<lbrakk>server_get_user env s c p resp = Inr (s', resp', e); server_ok s\<rbrakk> \<Longrightarrow> server_ok s'"
  "\<lbrakk>server_client_user_info env s c p resp = Inr (s', resp', e); server_ok s\<rbrakk> \<Longrightarrow> server_ok s'"
  "\<lbrakk>server_user_edit_account env s c p resp = Inr (s', resp', e); server_ok s\<rbrakk> \<Longrightarrow> server_ok s'"
  unfolding server_get_user_def server_client_user_info_def server_user_edit_account_def
  by (auto simp: runs Let_def case_prod_beta split: if_splits elim!: ret_if_json_bad_keeps send_users_keeps
      dest!: keeps)

lemma run_chatcmd_keeps:
  "\<lbrakk>run_chatcmd env cb s c p resp = Inr (s', resp', e); server_ok s; env_ok env\<rbrakk> \<Longrightarrow> server_ok s'"
  by (cases cb) (auto dest: keeps)

lemma text_frame_keeps:
  "\<lbrakk>server_ws_handle_text_frame env s c buf n = Inr (s', st); server_ok s; env_ok env\<rbrakk> \<Longrightarrow> server_ok s'"
  by (auto simp: server_ws_handle_text_frame_def server_exec_chatcmd_def runs Let_def
      split: option.splits if_splits dest!: run_chatcmd_keeps dest: keeps)

section \<open>Uploads\<close>

lemma update_user_pfp_keeps [keeps]: "\<lbrakk>update_user_pfp s ua f = Inr (s', b); server_ok s\<rbrakk> \<Longrightarrow> server_ok s'"
  by (auto simp: update_user_pfp_def runs Let_def case_prod_beta)

lemma pfp_update_keeps [keeps]:
  "\<lbrakk>server_handle_user_pfp_update env s c http uid = Inr s'; server_ok s\<rbrakk> \<Longrightarrow> server_ok s'"
  by (auto simp: server_handle_user_pfp_update_def runs case_prod_beta split: if_splits option.splits dest!: keeps)

lemma finish_attachments_ok [simp]: "server_ok (finish_attachments env s a ut ms) = server_ok s"
  by (simp add: finish_attachments_def Let_def case_prod_beta)

lemma option_Inr:
  "(case p of None \<Rightarrow> a | Some x \<Rightarrow> f x) = Inr y \<longleftrightarrow> (p = None \<and> a = Inr y) \<or> (\<exists>x. p = Some x \<and> f x = Inr y)"
  by (simp split: option.split)

lemma if_Inr: "(if b then x else y) = Inr z \<longleftrightarrow> (b \<and> x = Inr z) \<or> (\<not> b \<and> y = Inr z)"
  by simp

lemma token_type_Inr:
  "(case ut_type t of UT_USER_PFP \<Rightarrow> x | UT_MSG_ATTACHMENT \<Rightarrow> y) = Inr z \<longleftrightarrow>
   (ut_type t = UT_USER_PFP \<and> x = Inr z) \<or> (ut_type t = UT_MSG_ATTACHMENT \<and> y = Inr z)"
  by (simp split: upload_token_type.split)

lemma msg_attach_keeps [keeps]:
  "\<lbrakk>server_handle_msg_attach env s c http a = Inr s'; server_ok s\<rbrakk> \<Longrightarrow> server_ok s'"
  unfolding server_handle_msg_attach_def Let_def case_prod_beta
  by (auto simp: runs option_Inr if_Inr simp del: if_split dest: keeps)

lemma user_upload_keeps [keeps]:
  "\<lbrakk>server_handle_user_upload env s c http = Inr s'; server_ok s\<rbrakk> \<Longrightarrow> server_ok s'"
  unfolding server_handle_user_upload_def
  by (auto simp: runs option_Inr token_type_Inr dest!: keeps)

section \<open>The parsers\<close>

definition pair_ok :: "chat_server res \<Rightarrow> client \<Rightarrow> bool" where
  "pair_ok s c \<longleftrightarrow> (\<forall>sv. s = Inr sv \<longrightarrow> server_ok sv) \<and> client_ok c"

lemma at_client_keeps:
  assumes "at_client a f x s c = (s', c', y)" "pair_ok s c"
    and "\<And>sv s1 x1. \<lbrakk>f sv = Inr (s1, x1); server_ok sv\<rbrakk> \<Longrightarrow> server_ok s1"
  shows "pair_ok s' c'"
proof (cases "bindR s (\<lambda>sv. bindR (f (put_client a c sv)) (\<lambda>(s1, x). bindR (deref (clients s1) a) (\<lambda>c1. Inr (s1, c1, x))))")
  case (Inl e)
  then show ?thesis using assms(1,2) by (auto simp: at_client_def pair_ok_def)
next
  case (Inr t)
  then obtain sv s1 x1 c1 where "s = Inr sv" "f (put_client a c sv) = Inr (s1, x1)"
    "clients s1 a = Some c1" "t = (s1, c1, x1)" by (auto simp: runs)
  then show ?thesis using Inr assms
    by (fastforce simp: at_client_def pair_ok_def intro: server_ok_client [of s1 a])
qed

lemma client_ok_cstate: "\<lbrakk>client_ok c; bit x 3 \<Longrightarrow> bit (cstate c) 3\<rbrakk> \<Longrightarrow> client_ok (c\<lparr>cstate := x\<rparr>)"
  by (auto simp: client_ok_def has_state_bit)

lemma client_ok_set_recv: "\<lbrakk>client_ok c; recv_ok (f (recv c))\<rbrakk> \<Longrightarrow> client_ok (set_recv f c)"
  by (simp add: client_ok_def has_state_def)

lemma client_ok_recv: "client_ok c \<Longrightarrow> recv_ok (recv c)"
  by (simp add: client_ok_def)

lemma recv_ok_busy [simp]: "recv_ok (r\<lparr>recv_busy := b\<rparr>) = recv_ok r"
  by (simp add: recv_ok_def split: option.split)

lemma length_memcpy_at_ge: "length d \<le> length (memcpy_at d p xs)"
  by (simp add: memcpy_at_def)

lemma recv_ok_longer:
  "\<lbrakk>recv_ok r; recv_data r = Some d; length d \<le> length d1\<rbrakk> \<Longrightarrow> recv_ok (r\<lparr>recv_data := Some d1\<rparr>)"
  by (auto simp: recv_ok_def)

lemma text_frame_at_keeps:
  assumes "text_frame_at env a s c b n = (s', c', st)" "pair_ok s c" "env_ok env"
  shows "pair_ok s' c'"
  using assms(1) unfolding text_frame_at_def
  by (rule at_client_keeps [OF _ assms(2)]) (use assms(3) in \<open>blast dest: text_frame_keeps\<close>)

lemma ws_dispatch_keeps:
  "\<lbrakk>ws_dispatch (text_frame_at env a) s c d opc pp len = Some (s', c', st); pair_ok s c; env_ok env\<rbrakk> \<Longrightarrow> pair_ok s' c'"
  by (auto simp: ws_dispatch_def pair_ok_def dest: text_frame_at_keeps [unfolded pair_ok_def]
      split: if_splits)

lemma ws_parse_keeps:
  assumes "server_ws_parse (text_frame_at env a) s c p n = Some (s', c', st)" "pair_ok s c" "env_ok env"
  shows "pair_ok s' c'"
  using assms
proof (induction "text_frame_at env a" s c p n rule: server_ws_parse.induct)
  case (1 s c p n)
  from 1(2) obtain d f len off where d: "recv_data (recv c) = Some d" and h: "ws_header d p = Some (f, len, off)"
    by (subst (asm) server_ws_parse.simps) (auto split: option.splits)
  let ?t = "len + off"
  define d1 where "d1 = (if fmask f then unmask_at d (p + off) len else d)"
  define c1 where "c1 = set_recv (\<lambda>r. r\<lparr>recv_data := Some d1\<rparr>) c"
  have c1: "pair_ok s c1"
    using 1(3) d unfolding c1_def d1_def pair_ok_def
    by (auto simp: unmask_at_def client_ok_recv intro!: client_ok_set_recv recv_ok_longer length_memcpy_at_ge)
  show ?case
  proof (cases "n < ?t")
    case True
    have "recv_ok (recv c)" using 1(3) by (simp add: pair_ok_def client_ok_recv)
    then have "client_ok (set_recv (\<lambda>r. r\<lparr>recv_data := Some (realloc_buf d ?t),
        data_size := ?t, recv_offset := n, recv_busy := True\<rparr>) c)"
      using True 1(3) by (auto intro!: client_ok_set_recv simp: recv_ok_def realloc_buf_def pair_ok_def)
    then show ?thesis using 1(2,3) True d h
      by (subst (asm) server_ws_parse.simps) (auto simp: pair_ok_def Let_def)
  next
    case F: False
    show ?thesis
    proof (cases "length d < p + ?t \<or> ucast (opcode f) = WS_CLOSE_FRAME")
      case True
      then show ?thesis using 1(2) F d h c1 unfolding c1_def d1_def
        by (subst (asm) server_ws_parse.simps) (auto simp: Let_def split: if_splits)
    next
      case G: False
      obtain s2 c2 ret where w: "ws_dispatch (text_frame_at env a) s c1 d1 (ucast (opcode f)) (p + off) len = Some (s2, c2, ret)"
        using 1(2) F G d h unfolding c1_def d1_def
        by (subst (asm) server_ws_parse.simps) (auto simp: Let_def split: option.splits)
      have ok2: "pair_ok s2 c2" using ws_dispatch_keeps [OF w c1 1(4)] .
      have r: "(if ?t < n \<and> ret = RECV_OK then server_ws_parse (text_frame_at env a) s2 c2 (p + ?t) (n - ?t)
                else Some (s2, set_recv (\<lambda>r. r\<lparr>recv_busy := False\<rparr>) c2, ret)) = Some (s', c', st)"
        using 1(2) F G d h w unfolding c1_def d1_def
        by (subst (asm) server_ws_parse.simps) (simp add: Let_def)
      show ?thesis
      proof (cases "?t < n \<and> ret = RECV_OK")
        case True
        then show ?thesis
          using r 1(1) [OF d h _ _ refl F _ d1_def c1_def refl _ w] G ok2 1(4) by auto
      next
        case False
        then show ?thesis using r ok2
          by (auto simp: pair_ok_def client_ok_recv intro!: client_ok_set_recv)
      qed
    qed
  qed
qed

lemma client_state_bits: "\<not> bit CLIENT_STATE_SHORT_LIVE 3" "\<not> bit CLIENT_STATE_KEEP_ALIVE 3"
  "\<not> bit CLIENT_STATE_UPGRADE_PENDING 3" "\<not> bit CLIENT_STATE_WEBSOCKET 3"
  by (simp_all add: client_states)

lemma connection_token_ok: "client_ok c \<Longrightarrow> client_ok (connection_token t c)"
  by (auto simp: connection_token_def bit_simps client_state_bits intro: client_ok_cstate)

lemma connection_tokens_ok: "client_ok c \<Longrightarrow> client_ok (fold connection_token ts c)"
  by (induction ts arbitrary: c) (simp_all add: connection_token_ok)

lemma handle_http_header_ok: "client_ok c \<Longrightarrow> client_ok (fst (handle_http_header env i (c, h)))"
  by (simp add: handle_http_header_def set_client_connection_def Let_def case_prod_beta connection_tokens_ok)

lemma handle_http_headers_ok:
  "client_ok c \<Longrightarrow> client_ok (fst (fold (handle_http_header env) is (c, h)))"
proof (induction "is" arbitrary: c h)
  case (Cons i "is")
  obtain c' h' where e: "handle_http_header env i (c, h) = (c', h')" by fastforce
  then show ?case using Cons handle_http_header_ok [of c env i h] by simp
qed simp

lemma handle_http_upgrade_ok: "\<lbrakk>handle_http_upgrade c h p = Parsed c'; client_ok c\<rbrakk> \<Longrightarrow> client_ok c'"
  by (auto simp: handle_http_upgrade_def bit_simps client_state_bits split: if_splits option.splits
      intro: client_ok_cstate)

lemma parse_http_ok:
  assumes "parse_http env c buf n = Parsed (c', http)" "client_ok c"
  shows "client_ok c'"
proof -
  obtain buf6 actual http6 body_ptr where
    *: "(let http7 = http6\<lparr>body := body_ptr\<rparr>;
             (c8, http8) = fold (handle_http_header env) [0..<n_headers http7] (c, http7)
         in case handle_http_upgrade c8 http8 (http_get_header http8 ''Upgrade'') of
              Rejected \<Rightarrow> Rejected
            | Fault \<Rightarrow> Fault
            | Parsed c9 \<Rightarrow>
                (if (body http8 \<noteq> None \<or> body_len http8 \<noteq> 0) \<and> actual < body_len http8 then
                   (let b = (case body http8 of None \<Rightarrow> [] | Some b \<Rightarrow> take actual b);
                        http9 = http8\<lparr>buf_missing := True, total_recv := actual,
                          body := Some (b @ replicate (body_len http8 - actual) NUL),
                          body_inheap := True\<rparr>
                    in Parsed (set_recv (\<lambda>r. r\<lparr>recv_http := Some http9\<rparr>) c9, http9))
                 else Parsed (c9, http8))) = Parsed (c', http)"
    using assms(1) unfolding parse_http_def Let_def
    by (simp add: case_prod_beta split: option.splits parse_result.splits)
  obtain c8 http8 where f: "fold (handle_http_header env) [0..<n_headers (http6\<lparr>body := body_ptr\<rparr>)]
      (c, http6\<lparr>body := body_ptr\<rparr>) = (c8, http8)" by fastforce
  have c8: "client_ok c8" using handle_http_headers_ok [OF assms(2)] f by (metis fst_conv)
  obtain c9 where c9: "handle_http_upgrade c8 http8 (http_get_header http8 ''Upgrade'') = Parsed c9"
    using * f by (auto simp: Let_def split: parse_result.splits)
  have ok: "client_ok c9" using handle_http_upgrade_ok [OF c9 c8] .
  have "recv_ok (recv c9)" using ok by (rule client_ok_recv)
  then show ?thesis using * f c9 ok
    by (auto simp: Let_def recv_ok_def split: if_splits option.splits intro!: client_ok_set_recv)
qed

lemma upgrade_ok: "client_ok c \<Longrightarrow> client_ok (server_handle_client_upgrade c http)"
proof -
  assume c: "client_ok c"
  have up: "client_ok (server_upgrade_client_to_websocket c http)"
    using c by (auto simp: server_upgrade_client_to_websocket_def Let_def case_prod_beta bit_simps client_state_bits
        intro!: client_ok_cstate)
  show ?thesis
    unfolding server_handle_client_upgrade_def Let_def
    using c up by (auto simp: bit_simps client_state_bits split: option.split intro!: client_ok_cstate)
qed

lemma handle_http_get_ok: "client_ok c \<Longrightarrow> client_ok (fst (server_handle_http_get env c http))"
  by (simp add: server_handle_http_get_def server_http_resp_error_def server_http_resp_404_not_found_def
      server_http_resp_ok_def Let_def split: option.split)

lemma user_upload_at_keeps:
  assumes "user_upload (http_at env web a) s c http = (s', c')" "pair_ok s c"
  shows "pair_ok s' c'"
proof -
  obtain u where "at_client a (\<lambda>sv. bindR (server_handle_user_upload env sv a http) (\<lambda>s1. Inr (s1, ()))) () s c
      = (s', c', u)"
    using assms(1) by (auto simp: http_at_def split: prod.splits)
  from this assms(2) show ?thesis
    by (rule at_client_keeps) (auto simp: runs dest: keeps)
qed

lemma handle_http_keeps:
  "\<lbrakk>server_handle_http (http_at env web a) s c http = (s', c', st); pair_ok s c\<rbrakk> \<Longrightarrow> pair_ok s' c'"
  by (auto simp: server_handle_http_def server_handle_http_req_def
      split: if_splits http_type.splits prod.splits dest: user_upload_at_keeps)
    (auto simp: pair_ok_def upgrade_ok handle_http_get_ok)

lemma http_parse_keeps:
  assumes "server_http_parse (http_at env web a) s c buf n = Some (s', c', st)" "pair_ok s c"
  shows "pair_ok s' c'"
proof (cases "parse_http (http_at env web a) c buf n")
  case (Parsed ch)
  obtain c1 http where ch: "ch = (c1, http)" by fastforce
  have "pair_ok s c1" using parse_http_ok [OF Parsed [unfolded ch]] assms(2) by (simp add: pair_ok_def)
  then show ?thesis using assms(1) Parsed ch
    by (auto simp: server_http_parse_def split: if_splits dest: handle_http_keeps)
qed (use assms in \<open>simp_all add: server_http_parse_def\<close>)

section \<open>Reading\<close>

lemma recv_done_ok: "client_ok c \<Longrightarrow> client_ok (recv_done st c)"
  by (auto simp: recv_done_def recv_ok_def client_ok_def has_state_def)

lemma recv_body_keeps:
  assumes "recv_body env web a s c http bs = (r, c')" "server_ok s" "client_ok c"
    and "length bs \<le> body_len http - total_recv http" "bs \<noteq> []"
  shows "pair_ok r c'"
proof -
  define http1 where "http1 = http\<lparr>body := Some (memcpy_at (case body http of None \<Rightarrow> [] | Some b \<Rightarrow> b)
      (total_recv http) (bytes_text bs)), total_recv := total_recv http + length bs\<rparr>"
  define c1 where "c1 = set_recv (\<lambda>r. r\<lparr>recv_http := Some http1\<rparr>) c"
  have lt: "total_recv http + length bs \<le> body_len http" using assms(4,5) by (cases bs) simp_all
  have "recv_ok (recv c)" using assms(3) by (rule client_ok_recv)
  then have c1: "pair_ok (Inr s) c1"
    using assms(2,3) lt unfolding c1_def by (auto simp: pair_ok_def recv_ok_def http1_def intro!: client_ok_set_recv)
  show ?thesis
  proof (cases "body_len http - total_recv http \<le> length bs")
    case True
    obtain s2 c2 st where h: "server_handle_http (http_at env web a) (Inr s) c1 http1 = (s2, c2, st)"
      by (metis prod_cases3)
    have ok: "pair_ok s2 c2" using handle_http_keeps [OF h c1] .
    have "r = s2 \<and> c' = set_recv (\<lambda>r. r\<lparr>recv_http := None\<rparr>) c2"
      using assms(1) True h by (simp add: recv_body_def Let_def http1_def c1_def)
    moreover have "recv_ok (recv c2)" using ok by (simp add: pair_ok_def client_ok_recv)
    ultimately show ?thesis using ok by (auto simp: pair_ok_def recv_ok_def intro!: client_ok_set_recv)
  next
    case False
    then have "r = Inr s \<and> c' = c1" using assms(1) by (simp add: recv_body_def Let_def http1_def c1_def)
    then show ?thesis using c1 by simp
  qed
qed

lemma server_recv_length: "server_recv c n i = (c', bs) \<Longrightarrow> length bs \<le> n"
  by (auto simp: server_recv_def Let_def split: if_splits)

lemma server_recv_ok: "\<lbrakk>server_recv c n i = (c', bs); client_ok c\<rbrakk> \<Longrightarrow> client_ok c'"
  using client_ok_simps(8) [of c n i] by simp

lemma recv_message_keeps:
  assumes "recv_message env web a s c off n = Some (r, c', st)" "server_ok s" "client_ok c" "env_ok env"
  shows "pair_ok r c'"
proof -
  have "pair_ok (Inr s) c" using assms(2,3) by (simp add: pair_ok_def)
  then show ?thesis using assms(1,4)
    by (auto simp: recv_message_def split: if_splits dest: ws_parse_keeps http_parse_keeps)
qed

lemma recv_data_of_ok:
  "\<lbrakk>recv_data_of c = (d, sz, off); client_ok c\<rbrakk> \<Longrightarrow> sz \<le> length d \<and> off \<le> sz \<and>
     (recv_data (recv c) = None \<longrightarrow> off = 0) \<and> (recv_data (recv c) \<noteq> None \<longrightarrow> off = recv_offset (recv c))"
  by (auto simp: recv_data_of_def client_ok_def recv_ok_def CLIENT_RECV_PAGE_def split: option.splits)

lemma se_read_client_keeps:
  assumes "se_read_client env web input s ev = Inr (s', st)" "server_ok s" "env_ok env"
  shows "server_ok s'"
proof -
  obtain e a c where e: "events s ev = Some e" "ev_data e = Some a" and c: "clients s a = Some c"
    using assms(1) unfolding se_read_client_def by (auto simp: runs)
  define s1 where "s1 = set_db (db_pipeline_set_ctx (ew_db s) (Some a)) s"
  have s1: "server_ok s1" and cok: "client_ok c"
    using assms(2) c by (auto simp: s1_def dest: server_ok_client)
  show ?thesis
  proof (cases "recv_http (recv c)")
    case (Some http)
    obtain c1 bs where r: "server_recv c (body_len http - total_recv http) input = (c1, bs)" by fastforce
    have c1: "client_ok c1" using server_recv_ok [OF r cok] .
    show ?thesis
    proof (cases "bs = []")
      case True
      then show ?thesis using assms(1) e c Some r s1 c1
        by (auto simp: se_read_client_def s1_def [symmetric] Let_def)
    next
      case False
      obtain r2 c2 where b: "recv_body env web a s1 c1 http bs = (r2, c2)" by fastforce
      have "pair_ok r2 c2" using recv_body_keeps [OF b s1 c1 server_recv_length [OF r] False] .
      then show ?thesis using assms(1) e c Some r False b
        by (auto simp: se_read_client_def s1_def [symmetric] Let_def runs pair_ok_def recv_done_ok)
    qed
  next
    case None
    obtain d sz off where d: "recv_data_of c = (d, sz, off)" by (metis prod_cases3)
    define c0 where "c0 = set_recv (\<lambda>r. r\<lparr>recv_data := Some d, data_size := sz\<rparr>) c"
    have dok: "sz \<le> length d" "off \<le> sz" "recv_offset (recv c) = off"
      using recv_data_of_ok [OF d cok] client_ok_recv [OF cok] by (auto simp: recv_ok_def)
    have c0: "client_ok c0"
      using dok cok client_ok_recv [OF cok] by (auto simp: c0_def recv_ok_def intro!: client_ok_set_recv)
    obtain c1 bs where r: "server_recv c0 (sz - off) input = (c1, bs)" by fastforce
    have c1: "client_ok c1" using server_recv_ok [OF r c0] .
    have rc1: "recv c1 = recv c0" using r by (auto simp: server_recv_def Let_def server_set_client_err_def split: if_splits)
    show ?thesis
    proof (cases "bs = []")
      case True
      then show ?thesis using assms(1) e c None d r s1 c1
        by (auto simp: se_read_client_def s1_def [symmetric] c0_def [symmetric] Let_def)
    next
      case False
      define c2 where "c2 = set_recv (\<lambda>r. r\<lparr>recv_data := Some (memcpy_at d off bs)\<rparr>) c1"
      have "recv_ok (recv c1)" "recv_data (recv c1) = Some d"
        using client_ok_recv [OF c1] rc1 by (simp_all add: c0_def)
      then have c2: "client_ok c2"
        unfolding c2_def using c1 by (auto intro!: client_ok_set_recv recv_ok_longer length_memcpy_at_ge)
      obtain r3 c3 st3 where m: "recv_message env web a s1 c2 off (length bs) = Some (r3, c3, st3)"
        using assms(1) e c None d r False
        by (auto simp: se_read_client_def s1_def [symmetric] c0_def [symmetric] c2_def [symmetric] Let_def
            split: option.splits prod.splits)
      have "pair_ok r3 c3" using recv_message_keeps [OF m s1 c2 assms(3)] .
      then show ?thesis using assms(1) e c None d r False m
        by (auto simp: se_read_client_def s1_def [symmetric] c0_def [symmetric] c2_def [symmetric] Let_def
            runs pair_ok_def recv_done_ok)
    qed
  qed
qed

section \<open>Steps of the worker\<close>

lemma se_timer_read_keeps: "\<lbrakk>se_timer_read env s a = Inr (s', st); server_ok s\<rbrakk> \<Longrightarrow> server_ok s'"
  by (auto simp: se_timer_read_def runs os_call_def Let_def split: option.splits if_splits dest!: keeps)

lemma se_accept_conn_keeps: "\<lbrakk>se_accept_conn env s = Inr (s', st); server_ok s\<rbrakk> \<Longrightarrow> server_ok s'"
  by (auto simp: se_accept_conn_def server_accept_client_def server_client_ssl_handsake_def runs os_call_def
      Let_def split: option.splits if_splits dest!: keeps)

lemma run_read_keeps:
  "\<lbrakk>run_read env web input cb s a = Inr (s', st); server_ok s; env_ok env\<rbrakk> \<Longrightarrow> server_ok s'"
  by (auto simp: run_read_def split: se_read_callback.splits
      dest: se_read_client_keeps se_timer_read_keeps se_accept_conn_keeps)

lemma prep_event_keeps:
  "\<lbrakk>eworker_prep_event env web rep s = Inr s'; server_ok s; env_ok env\<rbrakk> \<Longrightarrow> server_ok s'"
  unfolding eworker_prep_event_def server_process_event_def Let_def
  by (auto simp: runs split: if_splits dest!: keeps run_read_keeps)

definition res_ok :: "chat_server res \<Rightarrow> bool" where
  "res_ok s \<longleftrightarrow> (\<forall>sv. s = Inr sv \<longrightarrow> server_ok sv)"

lemma run_res_keeps:
  "\<lbrakk>run_res (chat_callbacks env) r s rows st ctx = (s', ctx'); res_ok s; rows_ok rows\<rbrakk> \<Longrightarrow> res_ok s'"
  by (cases s) (auto simp: chat_callbacks_def res_ok_def split: sum.splits prod.splits
      dest: run_db_exec_res_keeps)

lemma run_exec_keeps:
  "\<lbrakk>run_exec (chat_callbacks env) e db s ch = (db', s', ctx', msg); res_ok s\<rbrakk> \<Longrightarrow> res_ok s'"
  by (cases s; cases ch) (auto simp: chat_callbacks_def res_ok_def split: sum.splits prod.splits
      dest: run_db_exec_keeps)

lemma send_error_keeps: "res_ok s \<Longrightarrow> res_ok (send_error (chat_callbacks env) s c msg)"
  by (auto simp: chat_callbacks_def res_ok_def runs dest: keeps)

lemma null_res_keeps: "res_ok (null_res (chat_callbacks env) s)"
  by (cases s) (simp_all add: chat_callbacks_def res_ok_def bindR_def)

lemma db_exec_cmd_keeps: "res_ok (snd ew) \<Longrightarrow> res_ok (snd (fst (db_exec_cmd (chat_callbacks env) e ew ch)))"
  unfolding db_exec_cmd_def Let_def
  by (auto simp: send_error_keeps dest: run_exec_keeps split: prod.split option.split)

lemma exec_nodes_keeps: "res_ok (snd ew) \<Longrightarrow> res_ok (snd (fst (exec_nodes (chat_callbacks env) ew cmds)))"
proof (induction cmds arbitrary: ew)
  case (Cons cmd cmds)
  obtain ew1 cmd1 where e: "(case cmd_exec cmd of None \<Rightarrow> (ew, cmd)
      | Some e \<Rightarrow> db_exec_cmd (chat_callbacks env) e ew (cmd, cmds)) = (ew1, cmd1)" by fastforce
  have "res_ok (snd ew1)"
    using Cons.prems e db_exec_cmd_keeps [OF Cons.prems] by (metis fst_conv option.case_eq_if prod.inject)
  then show ?case using Cons.IH [of ew1] e by (simp add: Let_def case_prod_beta)
qed simp

lemma chain_keeps:
  "\<lbrakk>(db', s') = fst (db_exec_cmd_chain (chat_callbacks env) (db, s) ch); res_ok s\<rbrakk> \<Longrightarrow> res_ok s'"
  using exec_nodes_keeps [of "(db, s)" env "fst ch # snd ch"]
  by (auto simp: db_exec_cmd_chain_def case_prod_beta simp del: exec_nodes.simps dest: arg_cong [of "(db', s')" _ snd])

lemma process_result_keeps:
  assumes "process_result (chat_callbacks env) (rows, st) ((db, s), fr) = ((db', s'), fr')" "res_ok s" "rows_ok rows"
  shows "res_ok s'"
proof (cases "st = PGRES_PIPELINE_SYNC \<or> db_pipeline_peek (db_queue db) = None")
  case True
  then show ?thesis using assms(1,2) by (auto simp: process_result_def split: if_splits)
next
  case False
  then obtain chain where ch: "db_pipeline_peek (db_queue db) = Some chain" by auto
  let ?ns = "fst chain # snd chain"
  let ?k = "busy_index ?ns"
  obtain s1 node where n: "(case cmd_exec_res (?ns ! ?k) of None \<Rightarrow> (null_res (chat_callbacks env) s, ?ns ! ?k)
      | Some r \<Rightarrow> run_res (chat_callbacks env) r s rows st (?ns ! ?k)) = (s1, node)" by fastforce
  have s1: "res_ok s1" using n assms(2,3) null_res_keeps by (auto split: option.splits dest: run_res_keeps)
  define q1 where "q1 = with_head (db_queue db) (?ns[?k := node])"
  have "process_result (chat_callbacks env) (rows, st) ((db, s), fr) =
    (if Suc ?k = length ?ns then
       (case db_pipeline_dequeue q1 of
          None \<Rightarrow> ((db\<lparr>db_queue := q1\<rparr>, s1), fr)
        | Some (ch, q2) \<Rightarrow>
            (let (ew, fr') = db_exec_cmd_chain (chat_callbacks env) (db\<lparr>db_queue := q2\<rparr>, s1) ch in (ew, fr @ fr')))
     else ((db\<lparr>db_queue := q1\<rparr>, s1), fr))"
    using False ch by (simp only: process_result_def prod.case option.case Let_def n if_False de_Morgan_disj
        not_False_eq_True simp_thms q1_def with_head_def)
  then show ?thesis
    using assms(1) s1 by (auto simp: case_prod_beta split: if_splits option.splits dest: chain_keeps)
qed

lemma free_all_keeps: "\<lbrakk>free_all ds s = Inr s'; server_ok s\<rbrakk> \<Longrightarrow> server_ok s'"
proof (induction ds arbitrary: s)
  case (Cons d ds)
  then show ?case by (cases d) (auto simp: free_data_def runs dest!: Cons.IH)
qed simp

lemma worker_result_keeps:
  "\<lbrakk>worker_result env r s = Inr s'; server_ok s; rows_ok (fst r)\<rbrakk> \<Longrightarrow> server_ok s'"
proof -
  assume a: "worker_result env r s = Inr s'" "server_ok s" "rows_ok (fst r)"
  obtain rows st where r: "r = (rows, st)" by fastforce
  obtain db s1 fr where p: "process_result (chat_callbacks env) (rows, st) ((ew_db s, Inr s), []) = ((db, s1), fr)"
    by (metis prod.collapse)
  have "res_ok s1" using process_result_keeps [OF p] a(2,3) r by (simp add: res_ok_def)
  then show ?thesis using a(1) r p by (auto simp: worker_result_def runs res_ok_def dest: free_all_keeps)
qed

section \<open>The invariant\<close>

lemma worker_step_keeps: "\<lbrakk>worker_step env web s s'; server_ok s; env_ok env\<rbrakk> \<Longrightarrow> server_ok s'"
  by (auto simp: worker_step_simps dest: worker_result_keeps prep_event_keeps)

lemma worker_steps_keep:
  assumes "(worker_step env web)\<^sup>*\<^sup>* s s'" "server_ok s" "env_ok env"
  shows "server_ok s'"
  using assms(1) by (induction rule: rtranclp_induct) (use assms(2,3) in \<open>auto dest: worker_step_keeps\<close>)

text \<open>
  C2. Whatever results, events and inputs a worker gets, as long as it runs without a fault a
  client that is logged in has a user, the receive offsets of every client stay inside its
  buffers, and the arrays of every user keep their sizes, provided that the hash and the salt of
  the user rows fit into theirs.
\<close>

theorem worker_keeps_server_ok:
  assumes "server_ok s" and "env_ok env"
    and "\<forall>t\<in>set ts. \<forall>r\<in>set (turn_results t). rows_ok (fst r)"
    and "server_eworker_async_run env web ts (st, s) = Inr (st', s')"
  shows "server_ok s'"
  by (rule worker_steps_keep [OF async_run_steps [OF assms(4,3)] assms(1,2)])

definition demo_web :: "chat_server res http_env" where
  "demo_web =
     \<lparr>root_dir = ''/srv'', isdir = (\<lambda>p. 0), read_file = (\<lambda>p. Some ''x''), mime_type = (\<lambda>c. None),
      sha1_base64 = (\<lambda>t. t), user_upload = (\<lambda>s c h. (s, c))\<rparr>"

definition demo_listen :: server_event where
  "demo_listen =
     \<lparr>ev_fd = 3, ev_err = 0, ep_events = 0, listen_events = DEFAULT_EPEV, ev_data = None,
      keep_data = False, ev_read = se_accept_conn_cb, ev_close = None\<rparr>"

definition demo_listen_server :: chat_server where
  "demo_listen_server =
     server_start\<lparr>events := [0 \<mapsto> demo_listen], epoll := [3 \<mapsto> 0], next_addr := 1\<rparr>"

definition demo_turn :: turn where
  "demo_turn =
     \<lparr>turn_shutdown = False, turn_poll = 1, turn_results = [([], PGRES_PIPELINE_SYNC)],
      turn_reports = [\<lparr>rep_event = 0, rep_bits = EPOLLIN, rep_sockerr = 0, rep_input = []\<rparr>]\<rparr>"

lemma demo_listen_sel:
  "next_addr demo_listen_server = 1" "os_calls demo_listen_server = 0"
  "clients demo_listen_server = Map.empty" "client_ht demo_listen_server = empty_table 10"
  "events demo_listen_server = [0 \<mapsto> demo_listen]" "epoll demo_listen_server = [3 \<mapsto> 0]"
  "event_ht demo_listen_server = empty_table 10"
  by (simp_all add: demo_listen_server_def server_start_def)

lemma demo_accept:
  "\<exists>s'. eworker_prep_event chat_demo_env demo_web
      \<lparr>rep_event = 0, rep_bits = EPOLLIN, rep_sockerr = 0, rep_input = []\<rparr> demo_listen_server = Inr s' \<and>
    clients s' 1 \<noteq> None"
proof -
  let ?env = chat_demo_env
  have env: "os_accept ?env k = 7" "os_ssl_new ?env k" "os_ssl_accept ?env k = 1" "os_epoll_add ?env k = 0" for k
    by (simp_all add: demo_env_def)
  define s where "s = demo_listen_server\<lparr>events := [0 \<mapsto> demo_listen\<lparr>ep_events := EPOLLIN\<rparr>]\<rparr>"
  define c where "c = client_zero 7 (os_ssl_write ?env 1)"
  define t where "t = (put_client 1 c (s\<lparr>next_addr := Suc (Suc 0), os_calls := Suc (Suc (Suc 0))\<rparr>))
      \<lparr>client_ht := fst (server_ght_insert (empty_table 10) (fd_key 7) (Some 1))\<rparr>"
  have "fd_key 7 \<noteq> 0" by (simp add: fd_key_def)
  then have free: "fd_free t 7"
    by (simp add: t_def s_def fd_free_def demo_listen_sel empty_table_ok server_get_event_def put_client_def
        del: One_nat_def)
  obtain t' where e: "server_new_event ?env t 7 (Some 1) se_read_client_cb (Some se_close_client_cb) = Inr (t', Some 2)"
    and t': "clients t' = clients t" "events t' 0 = events t 0" "epoll t' 3 = epoll t 3"
    using new_event_ok [OF free, of ?env 1 se_read_client_cb se_close_client_cb] env
    by (auto simp: t_def put_client_def)
  have "server_accept_client ?env s = Inr (t', Some 1)"
    using e by (simp add: server_accept_client_def server_client_ssl_handsake_def os_call_def env Let_def
        s_def demo_listen_sel t_def c_def put_client_def)
  then have "se_accept_conn ?env s = Inr (t', SE_OK)" by (simp add: se_accept_conn_def)
  then show ?thesis
    using t' by (simp add: eworker_prep_event_def server_process_event_def run_read_def demo_listen_sel
        s_def put_event_def demo_listen_def epoll_consts t_def put_client_def server_event_rearm_def set_db_def
        del: One_nat_def)
qed

lemma worker_keeps_server_ok_witness:
  "\<exists>s'. server_eworker_async_run chat_demo_env demo_web [demo_turn] (TM_STATE_INIT, demo_listen_server) =
      Inr (TM_STATE_INIT, s') \<and> clients s' 1 \<noteq> None \<and> server_ok s'"
proof -
  obtain s' where e: "eworker_prep_event chat_demo_env demo_web
      \<lparr>rep_event = 0, rep_bits = EPOLLIN, rep_sockerr = 0, rep_input = []\<rparr> demo_listen_server = Inr s'"
    "clients s' 1 \<noteq> None" using demo_accept by blast
  have r: "worker_result chat_demo_env ([], PGRES_PIPELINE_SYNC) demo_listen_server = Inr demo_listen_server"
    by (simp add: worker_result_def process_result_def set_db_def)
  have run: "server_eworker_async_run chat_demo_env demo_web [demo_turn] (TM_STATE_INIT, demo_listen_server) =
      Inr (TM_STATE_INIT, s')"
    using e r by (simp add: demo_turn_def TM_STATE_INIT_def TM_STATE_SHUTDOWN_def)
  have "server_ok demo_listen_server" by (simp add: server_ok_def demo_listen_server_def server_start_def)
  moreover have "env_ok chat_demo_env" by (simp add: env_ok_def demo_env_def SERVER_HASH_SIZE_def SERVER_SALT_SIZE_def)
  moreover have "\<forall>t\<in>set [demo_turn]. \<forall>r\<in>set (turn_results t). rows_ok (fst r)"
    by (simp add: demo_turn_def rows_ok_def hex_fits_def PQgetvalue_def)
  ultimately have "server_ok s'" using run by (rule worker_keeps_server_ok)
  with run e(2) show ?thesis by blast
qed

end
