(* ===== verification/Worker_Behaviour.thy ===== *)
theory Worker_Behaviour
  imports Server_Invariant
begin

text \<open>
  What the composition of the components gives: a request body that arrives in pieces is handled
  when it is complete, deleting an event ends, and a result that arrives for a connection that is
  gone is a fault.
\<close>

section \<open>Bodies in pieces\<close>

text \<open>The reads of one connection until one of them ends it.\<close>

fun deliver ::
  "chat_env \<Rightarrow> chat_server res http_env \<Rightarrow> u8 list list \<Rightarrow> chat_server \<Rightarrow> nat \<Rightarrow> (chat_server \<times> se_status) res" where
  "deliver env web [] s ev = Inr (s, SE_OK)"
| "deliver env web (b # bs) s ev =
     bindR (se_read_client env web b s ev) (\<lambda>(s1, st).
       if st = SE_OK then deliver env web bs s1 ev else Inr (s1, st))"

definition waiting_for :: "http \<Rightarrow> client \<Rightarrow> client" where
  "waiting_for h c = c\<lparr>recv := recv_zero\<lparr>recv_http := Some h\<rparr>\<rparr>"

definition body_text :: "http \<Rightarrow> string" where
  "body_text h = (case body h of None \<Rightarrow> [] | Some b \<Rightarrow> b)"

definition received :: "http \<Rightarrow> u8 list \<Rightarrow> http" where
  "received h bs = h\<lparr>body := Some (memcpy_at (body_text h) (total_recv h) (bytes_text bs)),
     total_recv := total_recv h + length bs\<rparr>"

lemma length_bytes_text [simp]: "length (bytes_text bs) = length bs"
  by (simp add: bytes_text_def)

lemma memcpy_at_twice:
  "p \<le> length d \<Longrightarrow> memcpy_at (memcpy_at d p xs) (p + length xs) ys = memcpy_at d p (xs @ ys)"
  by (simp add: memcpy_at_def ac_simps)

lemma received_twice:
  assumes "total_recv h \<le> length (body_text h)"
  shows "received (received h xs) ys = received h (xs @ ys)"
proof -
  have "bytes_text (xs @ ys) = bytes_text xs @ bytes_text ys" by (simp add: bytes_text_def)
  then show ?thesis using assms memcpy_at_twice [of "total_recv h" "body_text h" "bytes_text xs" "bytes_text ys"]
    by (simp add: received_def body_text_def add.assoc)
qed

lemma received_sel [simp]:
  "total_recv (received h bs) = total_recv h + length bs" "body_len (received h bs) = body_len h"
  "body_text (received h bs) = memcpy_at (body_text h) (total_recv h) (bytes_text bs)"
  by (simp_all add: received_def body_text_def)

text \<open>The state in which the request is handled, and what is left of it.\<close>

definition handled ::
  "chat_env \<Rightarrow> chat_server res http_env \<Rightarrow> nat \<Rightarrow> chat_server \<Rightarrow> client \<Rightarrow> (chat_server \<times> se_status) res" where
  "handled env web a s c =
     (case server_handle_http (http_at env web a) (Inr s) c (the (recv_http (recv c))) of
        (r, c2, st) \<Rightarrow> bindR r (\<lambda>s2.
          Inr (put_client a (recv_done RECV_OK (set_recv (\<lambda>r. r\<lparr>recv_http := None\<rparr>) c2)) s2, SE_OK)))"

definition reading :: "nat \<Rightarrow> chat_server \<Rightarrow> chat_server" where
  "reading a s = set_db (db_pipeline_set_ctx (ew_db s) (Some a)) s"

lemma reading_put [simp]: "reading a (put_client a c (reading a s)) = put_client a c (reading a s)"
  by (simp add: reading_def set_db_def db_pipeline_set_ctx_def put_client_def)

lemma read_piece:
  assumes "events s ev = Some e" "ev_data e = Some a" "clients s a = Some (waiting_for h c)"
    and "cerr c \<noteq> CLIENT_ERR_SSL" "bs \<noteq> []" "length bs \<le> body_len h - total_recv h"
  shows "se_read_client env web bs s ev =
    (if length bs < body_len h - total_recv h
     then Inr (put_client a (waiting_for (received h bs) c) (reading a s), SE_OK)
     else handled env web a (reading a s) (waiting_for (received h bs) c))"
proof -
  have r: "server_recv (waiting_for h c) (body_len h - total_recv h) bs = (waiting_for h c, bs)"
    using assms(4,5,6) by (simp add: server_recv_def waiting_for_def)
  have http1: "set_recv (\<lambda>r. r\<lparr>recv_http := Some (received h bs)\<rparr>) (waiting_for h c) = waiting_for (received h bs) c"
    by (simp add: set_recv_def waiting_for_def)
  have d: "recv_done RECV_OK (waiting_for x c) = waiting_for x c" for x
    by (simp add: recv_done_def set_recv_def waiting_for_def recv_zero_def)
  have b: "recv_body env web a (reading a s) (waiting_for h c) h bs =
    (if body_len h - total_recv h \<le> length bs then
       (case server_handle_http (http_at env web a) (Inr (reading a s)) (waiting_for (received h bs) c) (received h bs) of
          (s2, c2, st) \<Rightarrow> (s2, set_recv (\<lambda>r. r\<lparr>recv_http := None\<rparr>) c2))
     else (Inr (reading a s), waiting_for (received h bs) c))"
    unfolding recv_body_def Let_def body_text_def [symmetric] received_def [symmetric] http1 ..
  have w: "recv_http (recv (waiting_for x c)) = Some x" for x by (simp add: waiting_for_def)
  show ?thesis
    using assms(1-3,5) r b d w
    by (auto simp: se_read_client_def reading_def [symmetric] handled_def Let_def split: prod.split)
qed

text \<open>
  C4. The missing part of a request's body may arrive in any number of pieces: with the last one
  the request is handled, exactly once, and with the whole body in place behind the part that
  came with the header.
\<close>

theorem body_completes:
  assumes "events s ev = Some e" and "ev_data e = Some a" and "clients s a = Some (waiting_for h c)"
    and "cerr c \<noteq> CLIENT_ERR_SSL" and "total_recv h \<le> length (body_text h)"
    and "bs \<noteq> []" and "\<forall>b\<in>set bs. b \<noteq> []" and "total_recv h + length (concat bs) = body_len h"
  shows "\<exists>c0. deliver env web bs s ev =
    handled env web a (put_client a c0 (reading a s)) (waiting_for (received h (concat bs)) c)"
  using assms
proof (induction bs arbitrary: s h)
  case Nil
  then show ?case by simp
next
  case (Cons b bs)
  note piece = read_piece [OF Cons.prems(1-4), of b env web]
  show ?case
  proof (cases "bs = []")
    case True
    have "clients (reading a s) a = Some (waiting_for h c)"
      using Cons.prems(3) by (simp add: reading_def set_db_def)
    then have p: "put_client a (waiting_for h c) (reading a s) = reading a s"
      by (simp add: put_client_def fun_upd_idem)
    have "length b = body_len h - total_recv h" using Cons.prems(8) True by simp
    then have "se_read_client env web b s ev = handled env web a (reading a s) (waiting_for (received h b) c)"
      using piece Cons.prems(7) by simp
    moreover have "bindR r (\<lambda>(s1, st). if st = SE_OK then deliver env web [] s1 ev else Inr (s1, st)) = r"
      for r :: "(chat_server \<times> se_status) res" by (cases r) auto
    ultimately show ?thesis using True p by (intro exI [of _ "waiting_for h c"]) simp
  next
    case False
    let ?s = "put_client a (waiting_for (received h b) c) (reading a s)"
    have lt: "length b < body_len h - total_recv h"
      using Cons.prems(7,8) False by (cases bs) (auto simp: neq_Nil_conv)
    then have st: "se_read_client env web b s ev = Inr (?s, SE_OK)" using piece Cons.prems(7) by simp
    have "events ?s ev = Some e" using Cons.prems(1) by (simp add: reading_def set_db_def)
    moreover have "total_recv (received h b) \<le> length (body_text (received h b))"
      using Cons.prems(5) by (simp add: memcpy_at_def)
    ultimately obtain c0 where "deliver env web bs ?s ev = handled env web a (put_client a c0 (reading a ?s))
        (waiting_for (received (received h b) (concat bs)) c)"
      using Cons.IH [of ?s "received h b"] Cons.prems(2,4,7,8) False by auto
    moreover have "put_client a c0 (reading a ?s) = put_client a c0 (reading a s)"
      by (subst reading_put) (simp add: put_client_def)
    ultimately show ?thesis using st received_twice [OF Cons.prems(5), of b "concat bs"]
      by (intro exI [of _ c0]) simp
  qed
qed

section \<open>Deleting an event ends\<close>

definition has_fuel :: "'a res \<Rightarrow> bool" where
  "has_fuel r \<longleftrightarrow> r \<noteq> Inl Out_of_fuel"

lemma has_fuel_simps [simp]: "has_fuel (Inr x)" "has_fuel (Inl e) = (e \<noteq> Out_of_fuel)"
  by (simp_all add: has_fuel_def)

lemma has_fuel_bind [intro!]: "\<lbrakk>has_fuel r; \<And>x. r = Inr x \<Longrightarrow> has_fuel (f x)\<rbrakk> \<Longrightarrow> has_fuel (bindR r f)"
  by (cases r) (auto simp: has_fuel_def)

lemma has_fuel_deref [simp]: "has_fuel (deref m a)" "has_fuel (the_ptr p)"
  by (simp_all add: has_fuel_def deref_def the_ptr_def split: option.split)

definition no_del :: del_fun where
  "no_del p s = Inr s"

lemma has_fuel_events [simp]:
  "has_fuel (server_event_remove s a)" "has_fuel (server_event_add env s a)" "has_fuel (new_event_err s a fd)"
  by (auto simp: server_event_remove_def server_event_add_def new_event_err_def Let_def os_call_def)

lemma has_fuel_new_event [simp]: "has_fuel (server_new_event env s fd d rd cl)"
  by (auto simp: server_new_event_def Let_def os_call_def case_prod_beta)

lemma has_fuel_timer_exp [simp]: "has_fuel (server_timer_exp del s t)"
  by (auto simp: server_timer_exp_def timer_user_session_def server_del_user_session_def timer_ut_eq
      split: timer_type.split option.split)

lemma has_fuel_close_timer [simp]: "has_fuel (server_close_timer del s p k)"
  by (auto simp: server_close_timer_def split: option.split)

lemma has_fuel_addtimer [simp]: "has_fuel (server_addtimer env del s sec fl ty d)"
  by (auto simp: server_addtimer_def set_timerfd_def Let_def os_call_def case_prod_beta
      split: option.split timer_type.split)

lemma has_fuel_free_client [simp]: "has_fuel (server_free_client env del s p)"
  by (auto simp: server_free_client_def expire_session_def free_dbuser_def Let_def case_prod_beta
      split: option.split)

lemma has_fuel_run_close [simp]: "has_fuel (run_close env del cb s e)"
  by (auto simp: run_close_def se_close_client_def se_timer_close_def server_rtusm_user_disconnect_def
      rtusm_broadcast_def Let_def split: se_close_callback.split option.split)

text \<open>
  C27. Deleting an event calls its close callback, which may free a connection, a session or an
  upload token and cancel a timer, and these delete events again: one level of calls is always
  enough, the deletion ends, and more would not change its result.
\<close>

theorem server_del_event_ends:
  "server_del_event env (Suc n) p s \<noteq> Inl Out_of_fuel \<and>
   server_del_event env (Suc n) p s = server_del_event env 1 p s"
proof -
  have "has_fuel (server_del_event env (Suc n) p s)"
    by (auto simp: case_prod_beta split: option.split)
  then show ?thesis using del_event_fuel [of env n p s] by (simp add: has_fuel_def)
qed

section \<open>Results for connections that are gone\<close>

text \<open>The callbacks that answer a failed query with an error message to the client.\<close>

definition reports_failure :: "db_exec \<Rightarrow> bool" where
  "reports_failure e \<longleftrightarrow>
     e \<in> {do_client_login_cb, do_client_register_cb, do_get_users_cb, do_client_groups_cb,
          get_all_groups_result_cb, join_group_result_cb, do_group_msg_cb, do_get_group_msgs_cb,
          create_group_code_result_cb, join_group_code_result_cb, get_group_codes_result_cb,
          delete_group_code_result_cb, delete_msg_result_cb, get_group_owner_cb, do_get_group_member_ids_cb}"

lemma failed_exec:
  assumes "reports_failure e" "cmd_ret ctx = DB_ASYNC_ERROR"
  obtains msg where "\<And>s. run_db_exec env e s ctx rest = Inr (s, ctx, Some msg)"
  using assms by (cases e)
    (auto simp: reports_failure_def do_client_login_def do_client_register_def do_get_users_def
      do_client_groups_def get_all_groups_result_def join_group_result_def do_group_msg_def
      do_get_group_msgs_def create_group_code_result_def join_group_code_result_def
      get_group_codes_result_def delete_group_code_result_def delete_msg_result_def get_group_owner_def
      do_get_group_member_ids_def)

lemma failed_result:
  assumes "r \<noteq> userfile_refcount_result_cb"
  obtains ctx' where "\<And>s. run_db_exec_res env r s rows PGRES_FATAL_ERROR ctx = Inr (s, ctx')"
    "cmd_ret ctx' = DB_ASYNC_ERROR" "cmd_client ctx' = cmd_client ctx" "cmd_exec ctx' = cmd_exec ctx"
    "cmd_flags ctx' = cmd_flags ctx"
  using assms by (cases r)
    (auto simp: begin_result_def db_get_user_result_def db_insert_user_result_def db_get_user_json_result_def
      get_connected_users_result_def update_user_result_def db_get_groups_result_def
      db_get_group_member_ids_result_def db_get_group_msgs_result_def insert_group_msg_result_def
      db_delete_msg_result_def get_public_groups_result_def join_pub_group_result_def create_group_result_def
      db_create_group_code_result_def db_get_group_codes_result_def user_join_group_code_result_def
      db_delete_group_code_result_def del_group_result_def get_all_attachs_result_def get_group_owner_result_def
      insert_userfiles_result_def delete_userfile_result_def cmd_status_def Let_def)

text \<open>
  C34. A pending command keeps the address of its client and nobody takes it away: when the
  connection is closed before the result of the query arrives, a failed query makes the callback's
  error message go to the freed client.
\<close>

theorem result_after_disconnect:
  assumes "db_pipeline_peek (db_queue (ew_db s)) = Some (cmd, [])"
    and "plq_read (db_queue (ew_db s)) < length (plq_slots (db_queue (ew_db s)))"
    and "cmd_exec cmd = Some e" and "reports_failure e"
    and "cmd_exec_res cmd = Some r" and "r \<noteq> userfile_refcount_result_cb"
    and "cmd_client cmd = Some a" and "clients s a = None"
  shows "worker_result env (rows, PGRES_FATAL_ERROR) s = Inl Use_after_free"
proof -
  let ?q = "db_queue (ew_db s)"
  obtain ctx where ctx: "\<And>s. run_db_exec_res env r s rows PGRES_FATAL_ERROR cmd = Inr (s, ctx)"
    "cmd_ret ctx = DB_ASYNC_ERROR" "cmd_client ctx = cmd_client cmd" "cmd_exec ctx = cmd_exec cmd"
    by (rule failed_result [OF assms(6), of env rows cmd]) blast
  obtain msg where msg: "\<And>s. run_db_exec env e s ctx [] = Inr (s, ctx, Some msg)"
    by (rule failed_exec [OF assms(4) ctx(2), where env = env and rest = "[]"]) blast
  have run: "run_res (chat_callbacks env) r (Inr s) rows PGRES_FATAL_ERROR cmd = (Inr s, ctx)"
    by (simp add: chat_callbacks_def ctx(1))
  have deq: "db_pipeline_dequeue (with_head ?q [ctx]) =
      Some ((ctx, []), dequeued (with_head ?q [ctx]))"
    using assms(2,3) ctx(4) by (simp add: db_pipeline_dequeue_def with_head_def dequeued_def)
  have ex: "snd (fst (db_exec_cmd_chain (chat_callbacks env) (db, Inr s) (ctx, []))) = Inl Use_after_free" for db
    using assms(3,7,8) ctx(3,4) msg
    by (simp add: db_exec_cmd_chain_def db_exec_cmd_def chat_callbacks_def ws_json_send_def set_db_def)
  have "process_result (chat_callbacks env) (rows, PGRES_FATAL_ERROR) ((ew_db s, Inr s), []) =
      (let (ew, fr) = db_exec_cmd_chain (chat_callbacks env)
          ((ew_db s)\<lparr>db_queue := dequeued (with_head ?q [ctx])\<rparr>, Inr s) (ctx, []) in (ew, [] @ fr))"
    using process_result_peek [OF _ assms(1) refl refl refl, of PGRES_FATAL_ERROR r "chat_callbacks env" "Inr s"
        rows "Inr s" ctx "[]"] assms(5) run deq by simp
  then show ?thesis using ex [of "(ew_db s)\<lparr>db_queue := dequeued (with_head ?q [ctx])\<rparr>"]
    by (simp add: worker_result_def case_prod_beta)
qed

section \<open>Examples\<close>

definition demo_body_http :: http where
  "demo_body_http = http_zero\<lparr>body := Some (''ab'' @ [NUL, NUL]), body_len := 4, total_recv := 2\<rparr>"

definition demo_body_client :: client where
  "demo_body_client = waiting_for demo_body_http (client_zero 7 (\<lambda>k. 1))"

definition demo_client_event :: server_event where
  "demo_client_event =
     \<lparr>ev_fd = 7, ev_err = 0, ep_events = EPOLLIN, listen_events = DEFAULT_EPEV, ev_data = Some 1,
      keep_data = False, ev_read = se_read_client_cb, ev_close = Some se_close_client_cb\<rparr>"

definition demo_body_server :: chat_server where
  "demo_body_server = server_start\<lparr>clients := [1 \<mapsto> demo_body_client], events := [2 \<mapsto> demo_client_event]\<rparr>"

lemma body_completes_witness:
  "\<exists>c0. deliver chat_demo_env demo_web [[99], [100]] demo_body_server 2 =
      handled chat_demo_env demo_web 1 (put_client 1 c0 (reading 1 demo_body_server))
        (waiting_for (received demo_body_http [99, 100]) (client_zero 7 (\<lambda>k. 1))) \<and>
    body (received demo_body_http [99, 100]) = Some ''abcd''"
proof -
  have "body (received demo_body_http [99, 100]) = Some ''abcd''"
    by (simp add: received_def demo_body_http_def body_text_def memcpy_at_def bytes_text_def) code_simp
  moreover have "\<exists>c0. deliver chat_demo_env demo_web [[99], [100]] demo_body_server 2 =
      handled chat_demo_env demo_web 1 (put_client 1 c0 (reading 1 demo_body_server))
        (waiting_for (received demo_body_http (concat [[99], [100]])) (client_zero 7 (\<lambda>k. 1)))"
    by (rule body_completes [where e = demo_client_event and h = demo_body_http and c = "client_zero 7 (\<lambda>k. 1)"])
      (simp_all add: demo_body_server_def demo_client_event_def demo_body_client_def client_zero_def
        CLIENT_ERR_NONE_def CLIENT_ERR_SSL_def demo_body_http_def body_text_def)
  ultimately show ?thesis by simp
qed

definition demo_pending :: chat_server where
  "demo_pending =
     server_start\<lparr>ew_db := demo_server_db\<lparr>db_queue := fst (db_pipeline_enqueue (db_init_queue 128)
       (cmd_zero\<lparr>cmd_client := Some 4, cmd_exec := Some do_client_groups_cb,
                 cmd_exec_res := Some db_get_groups_result_cb\<rparr>, []))\<rparr>\<rparr>"

lemma result_after_disconnect_witness:
  "worker_result chat_demo_env ([], PGRES_FATAL_ERROR) demo_pending = Inl Use_after_free"
  by (rule result_after_disconnect [where e = do_client_groups_cb and r = db_get_groups_result_cb and a = 4
        and cmd = "cmd_zero\<lparr>cmd_client := Some 4, cmd_exec := Some do_client_groups_cb,
                 cmd_exec_res := Some db_get_groups_result_cb\<rparr>"])
    (simp_all add: demo_pending_def db_pipeline_enqueue_def db_init_queue_def db_pipeline_peek_def cmd_zero_def
      reports_failure_def server_start_def)

end
