(* ===== verification/Server_Log.thy ===== *)
theory Server_Log
  imports Http_Msg
begin

text \<open>
  The log (\<^verbatim>\<open>server/src/server_log.c\<close>): the levels in the order of the enumeration, and what
  a message writes to which stream. The variable arguments are formatted by the caller, so a
  message is its text; a stream is everything written to it.
\<close>

section \<open>Levels\<close>

datatype server_log_level = SERVER_FATAL | SERVER_ERROR | SERVER_WARN | SERVER_INFO | SERVER_DEBUG
  | SERVER_VERBOSE

fun log_level_num :: "server_log_level \<Rightarrow> nat" where
  "log_level_num SERVER_FATAL = 0"
| "log_level_num SERVER_ERROR = 1"
| "log_level_num SERVER_WARN = 2"
| "log_level_num SERVER_INFO = 3"
| "log_level_num SERVER_DEBUG = 4"
| "log_level_num SERVER_VERBOSE = 5"

lemma log_level_num_inj: "log_level_num l = log_level_num k \<longleftrightarrow> l = k"
  by (cases l; cases k) simp_all

text \<open>The comparison of two levels is the one of their numbers.\<close>

instantiation server_log_level :: linorder
begin

definition less_eq_server_log_level :: "server_log_level \<Rightarrow> server_log_level \<Rightarrow> bool" where
  "less_eq_server_log_level l k \<longleftrightarrow> log_level_num l \<le> log_level_num k"

definition less_server_log_level :: "server_log_level \<Rightarrow> server_log_level \<Rightarrow> bool" where
  "less_server_log_level l k \<longleftrightarrow> log_level_num l < log_level_num k"

instance
  by standard (auto simp: less_eq_server_log_level_def less_server_log_level_def log_level_num_inj)

end

section \<open>Messages\<close>

definition SERVER_LOG_MAX :: nat where "SERVER_LOG_MAX = 4096"

definition FG_RED :: string where "FG_RED = CHR 0x1B # ''[91m''"
definition BG_RED :: string where "BG_RED = CHR 0x1B # ''[101m''"
definition FG_GREEN :: string where "FG_GREEN = CHR 0x1B # ''[92m''"
definition FG_ORANGE :: string where "FG_ORANGE = CHR 0x1B # ''[93m''"
definition FG_DEFAULT :: string where "FG_DEFAULT = CHR 0x1B # ''[39m''"
definition BG_DEFAULT :: string where "BG_DEFAULT = CHR 0x1B # ''[49m''"
definition FG_BLACK :: string where "FG_BLACK = CHR 0x1B # ''[30m''"
definition C_DEFAULT :: string where "C_DEFAULT = FG_DEFAULT @ BG_DEFAULT"
definition C_FATAL :: string where "C_FATAL = BG_RED @ FG_BLACK"

fun wa_log_str :: "server_log_level \<Rightarrow> string" where
  "wa_log_str SERVER_FATAL = ''['' @ FG_RED @ ''FF'' @ FG_DEFAULT @ '']''"
| "wa_log_str SERVER_ERROR = ''['' @ FG_RED @ ''EE'' @ FG_DEFAULT @ '']''"
| "wa_log_str SERVER_WARN = ''['' @ FG_ORANGE @ ''WW'' @ FG_DEFAULT @ '']''"
| "wa_log_str SERVER_INFO = ''['' @ FG_GREEN @ ''II'' @ FG_DEFAULT @ '']''"
| "wa_log_str SERVER_DEBUG = ''[DD]''"
| "wa_log_str SERVER_VERBOSE = ''[VV]''"

fun wa_log_color :: "server_log_level \<Rightarrow> string" where
  "wa_log_color SERVER_FATAL = C_FATAL"
| "wa_log_color SERVER_ERROR = FG_RED"
| "wa_log_color _ = FG_DEFAULT"

record log_state =
  log_level :: server_log_level
  log_stdout :: string
  log_stderr :: string

definition log_start :: log_state where
  "log_start = \<lparr>log_level = SERVER_DEBUG, log_stdout = [], log_stderr = []\<rparr>"

definition server_set_loglevel :: "server_log_level \<Rightarrow> log_state \<Rightarrow> log_state" where
  "server_set_loglevel level g = g\<lparr>log_level := level\<rparr>"

definition server_get_loglevel :: "log_state \<Rightarrow> server_log_level" where
  "server_get_loglevel g = log_level g"

definition log_prefix :: "server_log_level \<Rightarrow> string option \<Rightarrow> nat \<Rightarrow> string" where
  "log_prefix level filename line =
     wa_log_str level @
     (case filename of
        Some f \<Rightarrow> '' ['' @ f @ '':'' @ dec_digits line @ '']: ''
      | None \<Rightarrow> '': '') @ wa_log_color level"

definition server_log :: "server_log_level \<Rightarrow> string option \<Rightarrow> nat \<Rightarrow> string \<Rightarrow> log_state \<Rightarrow> log_state" where
  "server_log level filename line text g =
     (if log_level g < level then g
      else
        (let output = snprintf SERVER_LOG_MAX text;
             written = log_prefix level filename line @ wa_log_color level @ output @ C_DEFAULT
         in if level \<le> SERVER_WARN then g\<lparr>log_stderr := log_stderr g @ written\<rparr>
            else g\<lparr>log_stdout := log_stdout g @ written\<rparr>))"

section \<open>What is visible\<close>

text \<open>
  A message is written once, to one stream, when its level is at most the level of the log, and
  otherwise nothing changes; errors and warnings go to the error stream.
\<close>

lemma server_log_stderr:
  "log_stderr (server_log level f n text g) \<noteq> log_stderr g \<longleftrightarrow>
    level \<le> server_get_loglevel g \<and> level \<in> {SERVER_FATAL, SERVER_ERROR, SERVER_WARN}"
  by (cases level)
    (auto simp: server_log_def server_get_loglevel_def Let_def less_eq_server_log_level_def
      less_server_log_level_def log_prefix_def)

lemma server_log_stdout:
  "log_stdout (server_log level f n text g) \<noteq> log_stdout g \<longleftrightarrow>
    level \<le> server_get_loglevel g \<and> level \<in> {SERVER_INFO, SERVER_DEBUG, SERVER_VERBOSE}"
  by (cases level)
    (auto simp: server_log_def server_get_loglevel_def Let_def less_eq_server_log_level_def
      less_server_log_level_def log_prefix_def)

lemma server_log_level_kept [simp]:
  "server_get_loglevel (server_log level f n text g) = server_get_loglevel g"
  by (simp add: server_log_def server_get_loglevel_def Let_def)

text \<open>A text of at least \<open>SERVER_LOG_MAX\<close> characters is cut; what follows it is written anyway.\<close>

lemma server_log_cut: "server_log level f n text g = server_log level f n (take 4095 text) g"
  by (simp add: server_log_def snprintf_def SERVER_LOG_MAX_def Let_def)

end
