(* ===== verification/Server_Config.thy ===== *)
theory Server_Config
  imports Server_State Server_Log
begin

text \<open>
  The configuration of the server (the first half of \<^verbatim>\<open>server/src/server_init.c\<close> and
  \<^verbatim>\<open>server_config_t\<close> of \<^verbatim>\<open>server/include/server.h\<close>): the file \<^verbatim>\<open>config.json\<close>, or the
  default written in its place, then the options of the command line, which override it. What
  \<^verbatim>\<open>getopt_long\<close> makes of the arguments is modelled too. Messages to the log are left out, the
  level they are filtered by is not.
\<close>

section \<open>Data\<close>

datatype ip_version = IPv4 | IPv6

definition CONFIG_PATH_LEN :: nat where "CONFIG_PATH_LEN = 512"
definition INET6_ADDRSTRLEN :: nat where "INET6_ADDRSTRLEN = 46"
definition NAME_MAX :: nat where "NAME_MAX = 255"

lemmas conf_sizes = CONFIG_PATH_LEN_def INET6_ADDRSTRLEN_def NAME_MAX_def

text \<open>The pointers to the names of the SQL files are by the name of their member.\<close>

record server_config =
  conf_root_dir :: string
  conf_img_dir :: string
  conf_vid_dir :: string
  conf_file_dir :: string
  conf_addr_ip :: string
  conf_addr_port :: u16
  conf_addr_version :: ip_version
  conf_database :: string
  conf_fork :: bool
  conf_thread_pool :: i32
  conf_sql :: "string \<rightharpoonup> string"

definition config_zero :: server_config where
  "config_zero =
     \<lparr>conf_root_dir = replicate CONFIG_PATH_LEN NUL, conf_img_dir = replicate CONFIG_PATH_LEN NUL,
      conf_vid_dir = replicate CONFIG_PATH_LEN NUL, conf_file_dir = replicate CONFIG_PATH_LEN NUL,
      conf_addr_ip = replicate INET6_ADDRSTRLEN NUL, conf_addr_port = 0, conf_addr_version = IPv4,
      conf_database = replicate CONFIG_PATH_LEN NUL, conf_fork = False, conf_thread_pool = 0,
      conf_sql = Map.empty\<rparr>"

definition server_default_config :: json where
  "server_default_config =
     JObject
       [(''root_dir'', JString ''client/public''), (''img_dir'', JString ''client/public/upload/imgs''),
        (''vid_dir'', JString ''client/public/upload/vids''),
        (''file_dir'', JString ''client/public/upload/files''), (''addr_ip'', JString ''any''),
        (''addr_port'', JInt 8080), (''addr_version'', JString ''ipv6''), (''log_level'', JString ''debug''),
        (''database_name'', JString ''chitychat''), (''thread_pool'', JInt (-1))]"

section \<open>Command line\<close>

definition optstring :: string where "optstring = ''T:p:d:v46hf''"

text \<open>Name, whether an argument is required, and the value.\<close>

definition long_opts :: "(string \<times> bool \<times> char) list" where
  "long_opts =
     [(''port'', True, CHR ''p''), (''verbose'', False, CHR ''v''), (''database-name'', True, CHR ''d''),
      (''ipv6'', False, CHR ''6''), (''ipv4'', False, CHR ''4''), (''fork'', False, CHR ''f''),
      (''help'', False, CHR ''h''), (''thread-pool'', True, CHR ''T'')]"

text \<open>A character of the option string, and whether a colon follows it.\<close>

fun short_opt :: "string \<Rightarrow> char \<Rightarrow> bool option" where
  "short_opt [] c = None"
| "short_opt (x # xs) c =
     (if c = CHR '':'' then None
      else if x = c then Some (xs \<noteq> [] \<and> hd xs = CHR '':'')
      else short_opt xs c)"

text \<open>
  The options of one argument \<open>-abc\<close>, with what is left of the arguments behind it: an option
  with an argument takes the rest of its own or else the next one. A result is the option and
  \<^verbatim>\<open>optarg\<close>, which is empty where there is none; an unknown option or a missing argument is \<open>?\<close>.
\<close>

fun short_cluster :: "string \<Rightarrow> string list \<Rightarrow> (char \<times> string) list \<times> string list" where
  "short_cluster [] args = ([], args)"
| "short_cluster (c # cs) args =
     (case short_opt optstring c of
        None \<Rightarrow> (let (r, rest) = short_cluster cs args in ((CHR ''?'', []) # r, rest))
      | Some False \<Rightarrow> (let (r, rest) = short_cluster cs args in ((c, []) # r, rest))
      | Some True \<Rightarrow>
          if cs \<noteq> [] then ([(c, cs)], args)
          else (case args of
                  [] \<Rightarrow> ([(CHR ''?'', [])], [])
                | a # rest \<Rightarrow> ([(c, a)], rest)))"

lemma short_cluster_shorter [termination_simp]:
  "(r, rest) = short_cluster cs args \<Longrightarrow> length rest \<le> length args"
  by (induction cs args arbitrary: r rest rule: short_cluster.induct)
    (auto split: option.splits bool.splits if_splits list.splits prod.splits)

text \<open>A long option may be abbreviated to any prefix that only one option has.\<close>

definition find_long :: "string \<Rightarrow> (string \<times> bool \<times> char) option" where
  "find_long name =
     (case filter (\<lambda>(n, _). n = name) long_opts of
        o1 # _ \<Rightarrow> Some o1
      | [] \<Rightarrow>
          (case filter (\<lambda>(n, _). take (length name) n = name) long_opts of
             [o1] \<Rightarrow> Some o1
           | _ \<Rightarrow> None))"

text \<open>
  The results of \<^verbatim>\<open>getopt_long\<close> until it returns -1: \<open>--\<close> ends the options, and arguments
  that are not options are passed over.
\<close>

fun getopt_long :: "string list \<Rightarrow> (char \<times> string) list" where
  "getopt_long [] = []"
| "getopt_long (a # args) =
     (if a = ''--'' then []
      else if take 2 a = ''--'' then
        (let name = takeWhile (\<lambda>c. c \<noteq> CHR ''='') (drop 2 a);
             rest = drop (length name) (drop 2 a)
         in case find_long name of
              None \<Rightarrow> (CHR ''?'', []) # getopt_long args
            | Some (_, False, c) \<Rightarrow> (if rest = [] then c else CHR ''?'', []) # getopt_long args
            | Some (_, True, c) \<Rightarrow>
                if rest \<noteq> [] then (c, tl rest) # getopt_long args
                else (case args of
                        [] \<Rightarrow> [(CHR ''?'', [])]
                      | b # bs \<Rightarrow> (c, b) # getopt_long bs))
      else if take 1 a = ''-'' \<and> 1 < length a then
        (let (r, rest) = short_cluster (tl a) args in r @ getopt_long rest)
      else getopt_long args)"

text \<open>The loop of \<^verbatim>\<open>server_argv\<close> over these results; the level is the one of the log.\<close>

fun argv_options ::
  "(char \<times> string) list \<Rightarrow> server_config \<Rightarrow> server_log_level \<Rightarrow> server_config \<times> server_log_level \<times> bool" where
  "argv_options [] conf level = (conf, level, True)"
| "argv_options ((opt, optarg) # opts) conf level =
     (if opt = CHR ''p'' then
        (let port = (ucast (strtoul 10 optarg) :: u32)
         in if port = 0 then (conf, level, False)
            else if 65535 < port then (conf, level, False)
            else argv_options opts (conf\<lparr>conf_addr_port := ucast port\<rparr>) level)
      else if opt = CHR ''v'' then argv_options opts conf SERVER_VERBOSE
      else if opt = CHR ''d'' then
        argv_options opts (conf\<lparr>conf_database := strncpy (conf_database conf) optarg NAME_MAX\<rparr>) level
      else if opt = CHR ''4'' then argv_options opts (conf\<lparr>conf_addr_version := IPv4\<rparr>) level
      else if opt = CHR ''6'' then argv_options opts (conf\<lparr>conf_addr_version := IPv6\<rparr>) level
      else if opt = CHR ''h'' then (conf, level, False)
      else if opt = CHR ''f'' then argv_options opts (conf\<lparr>conf_fork := True\<rparr>) level
      else if opt = CHR ''T'' then argv_options opts (conf\<lparr>conf_thread_pool := atoi optarg\<rparr>) level
      else if opt = CHR ''?'' then (conf, level, False)
      else argv_options opts conf level)"

fun_cases argv_options_NilE: "argv_options [] conf level = (conf', level', True)"
  and argv_options_ConsE: "argv_options ((opt, optarg) # opts) conf level = (conf', level', True)"

text \<open>The options never set the port 0, which is left for a configuration that has it.\<close>

lemma port_in_range:
  fixes port :: u32
  assumes "port \<noteq> 0" "\<not> 65535 < port"
  shows "(ucast port :: u16) \<noteq> 0"
proof -
  have "unat (ucast port :: u16) = unat port"
    using assms(2) by (simp add: word_less_nat_alt unsigned_ucast_eq take_bit_nat_eq_self)
  then show ?thesis using assms(1) by (metis unat_eq_0 unat_0)
qed

lemma argv_options_port:
  "argv_options opts conf level = (conf', level', True) \<Longrightarrow>
    conf_addr_port conf' \<in> {conf_addr_port conf} \<union> - {0}"
proof (induction opts arbitrary: conf level)
  case Nil
  then show ?case by (elim argv_options_NilE) simp
next
  case (Cons x opts)
  obtain opt optarg where x: "x = (opt, optarg)" by fastforce
  from Cons.prems [unfolded x] show ?case
    by (elim argv_options_ConsE) (auto simp: Let_def dest!: Cons.IH [OF sym] port_in_range split: if_splits)
qed

text \<open>The first argument is the name of the program.\<close>

definition server_argv ::
  "string list \<Rightarrow> server_config \<Rightarrow> server_log_level \<Rightarrow> server_config \<times> server_log_level \<times> bool" where
  "server_argv argv conf level = argv_options (getopt_long (tl argv)) conf level"

section \<open>The configuration file\<close>

text \<open>
  What opening \<^verbatim>\<open>server/config.json\<close> gives: its text, or that there is none, with whether
  creating and writing the default succeeds, or another error. The result is the JSON value that
  is used; a \<^verbatim>\<open>null\<close> is a NULL pointer.
\<close>

datatype config_file = Config_text string | Config_absent bool bool | Config_unreadable

definition config_json :: "chat_env \<Rightarrow> config_file \<Rightarrow> json option" where
  "config_json env f =
     (case f of
        Config_text t \<Rightarrow> (case json_parse env t of Some JNull \<Rightarrow> None | j \<Rightarrow> j)
      | Config_absent created written \<Rightarrow> if created \<and> written then Some server_default_config else None
      | Config_unreadable \<Rightarrow> None)"

text \<open>A member that is missing gives \<^verbatim>\<open>strncpy\<close>, \<^verbatim>\<open>strcmp\<close> or \<^verbatim>\<open>atoi\<close> a NULL pointer.\<close>

definition conf_string :: "chat_env \<Rightarrow> json \<Rightarrow> string \<Rightarrow> string res" where
  "conf_string env config key =
     (case json_cstring env (json_object_object_get config key) of
        None \<Rightarrow> Inl Null_dereference
      | Some x \<Rightarrow> Inr x)"

definition config_level :: "string \<Rightarrow> server_log_level option" where
  "config_level x =
     (if x = ''fatal'' then Some SERVER_FATAL
      else if x = ''error'' then Some SERVER_ERROR
      else if x = ''warn'' \<or> x = ''warning'' then Some SERVER_WARN
      else if x = ''info'' then Some SERVER_INFO
      else if x = ''debug'' then Some SERVER_DEBUG
      else if x = ''verbose'' then Some SERVER_VERBOSE
      else None)"

definition config_version :: "string \<Rightarrow> ip_version \<Rightarrow> ip_version" where
  "config_version x old = (if x = ''ipv4'' then IPv4 else if x = ''ipv6'' then IPv6 else old)"

text \<open>The members in the order in which they are read, up to the level of the log.\<close>

definition read_config :: "chat_env \<Rightarrow> json \<Rightarrow> server_config \<Rightarrow> server_config res" where
  "read_config env config conf0 =
     bindR (conf_string env config ''root_dir'') (\<lambda>root.
     bindR (conf_string env config ''img_dir'') (\<lambda>img.
     bindR (conf_string env config ''vid_dir'') (\<lambda>vid.
     bindR (conf_string env config ''file_dir'') (\<lambda>filed.
     bindR (conf_string env config ''addr_ip'') (\<lambda>ip.
     bindR (conf_string env config ''addr_version'') (\<lambda>version.
     bindR (conf_string env config ''database_name'') (\<lambda>database.
     bindR (conf_string env config ''thread_pool'') (\<lambda>pool.
       (let port = (case json_object_object_get config ''addr_port'' of
                      None \<Rightarrow> 0 | Some j \<Rightarrow> word_of_int (json_get_int env j))
        in Inr (conf0
             \<lparr>conf_root_dir := strncpy (conf_root_dir conf0) root CONFIG_PATH_LEN,
              conf_img_dir := strncpy (conf_img_dir conf0) img CONFIG_PATH_LEN,
              conf_vid_dir := strncpy (conf_vid_dir conf0) vid CONFIG_PATH_LEN,
              conf_file_dir := strncpy (conf_file_dir conf0) filed CONFIG_PATH_LEN,
              conf_addr_ip := strncpy (conf_addr_ip conf0) ip INET6_ADDRSTRLEN,
              conf_addr_port := port,
              conf_addr_version := config_version version (conf_addr_version conf0),
              conf_database := strncpy (conf_database conf0) database CONFIG_PATH_LEN,
              conf_thread_pool := atoi pool\<rparr>))))))))))"

definition sql_paths :: "string \<rightharpoonup> string" where
  "sql_paths = map_of
     [(''schema'', ''server/sql/schema.sql''), (''insert_user'', ''server/sql/insert_user.sql''),
      (''select_user'', ''server/sql/select_user.sql''), (''insert_group'', ''server/sql/insert_group.sql''),
      (''select_group'', ''server/sql/select_group.sql''),
      (''insert_groupmember_code'', ''server/sql/insert_groupmember_code.sql''),
      (''select_groupmember'', ''server/sql/select_groupmember.sql''),
      (''insert_msg'', ''server/sql/insert_msg.sql''), (''select_msg'', ''server/sql/select_msg.sql''),
      (''update_user'', ''server/sql/update_user.sql''),
      (''insert_userfiles'', ''server/sql/insert_userfiles.sql'')]"

text \<open>
  \<^verbatim>\<open>server_load_config\<close> on a zeroed configuration. \<open>threads\<close> is what
  \<^verbatim>\<open>server_tm_system_threads\<close> returns.
\<close>

definition server_load_config ::
  "chat_env \<Rightarrow> config_file \<Rightarrow> i32 \<Rightarrow> string list \<Rightarrow> server_config \<Rightarrow> server_log_level \<Rightarrow>
    (server_config \<times> server_log_level \<times> bool) res" where
  "server_load_config env f threads argv conf0 level0 =
     (case config_json env f of
        None \<Rightarrow> Inr (conf0, level0, False)
      | Some config \<Rightarrow>
          bindR (read_config env config conf0) (\<lambda>conf.
            (case (case json_cstring env (json_object_object_get config ''log_level'') of
                     None \<Rightarrow> Some SERVER_DEBUG | Some x \<Rightarrow> config_level x) of
               None \<Rightarrow> Inr (conf, level0, False)
             | Some level \<Rightarrow>
                 (case server_argv argv conf level of
                    (conf1, level1, ok) \<Rightarrow>
                      if \<not> ok then Inr (conf1, level1, False)
                      else
                        (let conf2 = conf1\<lparr>conf_sql := sql_paths\<rparr>
                         in Inr (if conf_thread_pool conf2 = -1 then conf2\<lparr>conf_thread_pool := threads\<rparr>
                                 else conf2, level1, True))))))"

section \<open>A missing member\<close>

definition required_keys :: "string list" where
  "required_keys =
     [''root_dir'', ''img_dir'', ''vid_dir'', ''file_dir'', ''addr_ip'', ''addr_version'', ''database_name'',
      ''thread_pool'']"

lemma conf_string_missing:
  "conf_string env config k = Inl e \<longleftrightarrow> e = Null_dereference \<and> json_object_object_get config k = None"
  by (auto simp: conf_string_def json_cstring_def split: option.split json.split)

lemma bindR_Inl: "bindR r f = Inl e \<longleftrightarrow> r = Inl e \<or> (\<exists>x. r = Inr x \<and> f x = Inl e)"
  by (cases r) auto

lemma conf_string_found:
  "(\<exists>x. conf_string env config k = Inr x) \<longleftrightarrow> json_object_object_get config k \<noteq> None"
  using conf_string_missing [of env config k] by (cases "conf_string env config k") auto

lemma read_config_missing:
  "read_config env config conf0 = Inl e \<longleftrightarrow>
    e = Null_dereference \<and> (\<exists>k\<in>set required_keys. json_object_object_get config k = None)"
proof -
  let ?c = "conf_string env config"
  have r: "read_config env config conf0 = Inl e \<longleftrightarrow> e = Null_dereference \<and>
      (\<exists>k\<in>set required_keys. json_object_object_get config k = None)"
    if "\<And>k. ?c k = (case json_object_object_get config k of None \<Rightarrow> Inl Null_dereference | Some j \<Rightarrow> Inr (t j))" for t
    unfolding read_config_def required_keys_def
    by (auto simp: that Let_def split: option.splits)
  show ?thesis
    by (rule r [where t = "\<lambda>j. the (json_cstring env (Some j))"])
      (auto simp: conf_string_def json_cstring_def split: option.split json.split)
qed

text \<open>
  C37. Loading the configuration crashes exactly when the file holds a JSON value without one of
  eight members, which is then read through a NULL pointer; a file that is not JSON and every
  bad option are errors that are reported.
\<close>

theorem load_config_crashes:
  "server_load_config env f threads argv conf0 level0 = Inl e \<longleftrightarrow>
    e = Null_dereference \<and>
    (\<exists>config. config_json env f = Some config \<and>
       (\<exists>k\<in>set required_keys. json_object_object_get config k = None))"
  by (auto simp: server_load_config_def bindR_Inl read_config_missing Let_def case_prod_unfold
      split: option.splits if_splits)

section \<open>The port option\<close>

text \<open>
  A port on the command line, in any of its four forms, is taken modulo \<open>2 ^ 32\<close> before
  the check that it is between 1 and 65535; a port that fails the check ends the program.
\<close>

theorem port_option_checked:
  assumes "n < 2 ^ 64"
    and "args \<in> {[''-p'' @ dec_digits n], [''-p'', dec_digits n], [''--port='' @ dec_digits n],
                  [''--port'', dec_digits n]}"
  shows "server_argv (exe # args) conf level =
    (if n mod 2 ^ 32 \<in> {1..65535}
     then (conf\<lparr>conf_addr_port := of_nat (n mod 2 ^ 32)\<rparr>, level, True) else (conf, level, False))"
proof -
  have opts: "getopt_long args = [(CHR ''p'', dec_digits n)]"
    using assms(2) by (auto simp: optstring_def long_opts_def find_long_def dec_digits_ne Let_def)
  let ?p = "ucast (of_nat n :: u64) :: u32"
  have p: "?p = of_nat n" using assms(1) by (simp add: unsigned_of_nat take_bit_nat_eq_self)
  have u: "unat ?p = n mod 2 ^ 32" by (simp add: p unat_of_nat)
  have "?p = 0 \<longleftrightarrow> n mod 2 ^ 32 = 0" using u unat_eq_0 by metis
  moreover have "65535 < ?p \<longleftrightarrow> 65535 < n mod 2 ^ 32" using u by (simp add: word_less_nat_alt)
  moreover have "(ucast ?p :: u16) = of_nat (n mod 2 ^ 32)"
    by (simp only: u [symmetric] of_nat_unat)
  ultimately show ?thesis
    using strtoul_dec_digits [OF assms(1)] by (auto simp: server_argv_def opts Let_def)
qed

section \<open>Examples\<close>

definition demo_conf_env :: "json option \<Rightarrow> chat_env" where
  "demo_conf_env j =
     \<lparr>json_print = (\<lambda>j. ''-1''), json_parse = (\<lambda>t. j), json_get_uint64 = (\<lambda>j. 0), json_get_int = (\<lambda>j. 8080),
      sha512 = (\<lambda>t x. x), os_random = (\<lambda>k. 0), os_salt = (\<lambda>k. []), os_timerfd_create = (\<lambda>k. -1),
      os_timerfd_settime = (\<lambda>k. -1), os_timer_read = (\<lambda>k. None), os_epoll_add = (\<lambda>k. 0),
      os_accept = (\<lambda>k. -1), os_ssl_new = (\<lambda>k. False), os_ssl_accept = (\<lambda>k. -1), os_ssl_write = (\<lambda>k n. -1),
      os_file = (\<lambda>k. False), os_errno = (\<lambda>k. False), mime_of = (\<lambda>d. None), sha256_hex = (\<lambda>d. d),
      img_dir = [], vid_dir = [], file_dir = []\<rparr>"

text \<open>Without a file the default is used; without arguments nothing overrides it.\<close>

lemma default_config_strings:
  "conf_string (demo_conf_env j) server_default_config ''root_dir'' = Inr ''client/public''"
  "conf_string (demo_conf_env j) server_default_config ''img_dir'' = Inr ''client/public/upload/imgs''"
  "conf_string (demo_conf_env j) server_default_config ''vid_dir'' = Inr ''client/public/upload/vids''"
  "conf_string (demo_conf_env j) server_default_config ''file_dir'' = Inr ''client/public/upload/files''"
  "conf_string (demo_conf_env j) server_default_config ''addr_ip'' = Inr ''any''"
  "conf_string (demo_conf_env j) server_default_config ''addr_version'' = Inr ''ipv6''"
  "conf_string (demo_conf_env j) server_default_config ''database_name'' = Inr ''chitychat''"
  "conf_string (demo_conf_env j) server_default_config ''thread_pool'' = Inr ''-1''"
  by (simp_all add: conf_string_def json_cstring_def server_default_config_def demo_conf_env_def cstr_def NUL_def)

lemma default_config_others:
  "json_object_object_get server_default_config ''addr_port'' = Some (JInt 8080)"
  "json_cstring (demo_conf_env j) (json_object_object_get server_default_config ''log_level'') = Some ''debug''"
  by (simp_all add: json_cstring_def server_default_config_def cstr_def NUL_def)

lemma default_config_loads:
  "\<exists>conf. server_load_config (demo_conf_env None) (Config_absent True True) 4 [''chitychat''] config_zero
       SERVER_DEBUG = Inr (conf, SERVER_DEBUG, True) \<and>
     conf_addr_port conf = 8080 \<and> conf_addr_version conf = IPv6 \<and> conf_thread_pool conf = 4 \<and>
     \<not> conf_fork conf \<and> conf_sql conf = sql_paths \<and> cstr (conf_database conf) 0 = ''chitychat''"
proof -
  have "cstr (strncpy (replicate CONFIG_PATH_LEN NUL) ''chitychat'' CONFIG_PATH_LEN) 0 = ''chitychat''"
    by (rule cstr_strncpy) (simp_all add: NUL_def CONFIG_PATH_LEN_def)
  moreover have "atoi ''-1'' = -1"
    by (simp add: atoi_def is_space_def digits_of_def digit_val_def digits_value_def Let_def)
  moreover have "json_get_int (demo_conf_env None) x = 8080" for x by (simp add: demo_conf_env_def)
  moreover have "server_argv [''chitychat''] conf level = (conf, level, True)" for conf level
    by (simp add: server_argv_def)
  moreover have "config_level ''debug'' = Some SERVER_DEBUG" "config_version ''ipv6'' v = IPv6" for v
    by (simp_all add: config_level_def config_version_def)
  moreover have "conf_database config_zero = replicate CONFIG_PATH_LEN NUL" "\<not> conf_fork config_zero"
    by (simp_all add: config_zero_def)
  ultimately show ?thesis
    by (simp add: server_load_config_def config_json_def read_config_def default_config_strings
        default_config_others)
qed

lemma load_config_crashes_witness:
  "server_load_config (demo_conf_env (Some (JObject [(''root_dir'', JString ''www'')]))) (Config_text ''{}'') 4
     [''chitychat''] config_zero SERVER_DEBUG = Inl Null_dereference"
  by (rule load_config_crashes [THEN iffD2]) (simp add: config_json_def demo_conf_env_def required_keys_def)

lemma port_option_checked_witness:
  "server_argv [''chitychat'', ''-p'', ''4294967376''] config_zero SERVER_DEBUG =
     (config_zero\<lparr>conf_addr_port := 80\<rparr>, SERVER_DEBUG, True)"
proof -
  have "dec_digits 4294967376 = ''4294967376''" by (simp add: dec_digits.simps) code_simp
  then show ?thesis
    using port_option_checked [of 4294967376 "[''-p'', ''4294967376'']" "''chitychat''" config_zero SERVER_DEBUG]
    by simp
qed

end
