(* ===== verification/Server_Crypt.thy ===== *)
theory Server_Crypt
  imports Server_Util
begin

text \<open>
  The digests of \<^verbatim>\<open>server/src/server_crypt.c\<close>: what is fed into OpenSSL's SHA-512 and SHA-256,
  which are parameters, and the hexadecimal text of the latter. The WebSocket key is with the
  HTTP part.
\<close>

definition SALT_SIZE :: nat where "SALT_SIZE = 16"
definition SHA256_DIGEST_LENGTH :: nat where "SHA256_DIGEST_LENGTH = 32"
definition SERVER_HASH256_STR_SIZE :: nat where "SERVER_HASH256_STR_SIZE = SHA256_DIGEST_LENGTH * 2 + 1"

text \<open>The salt comes before the characters of the secret up to its NUL; it may be missing.\<close>

definition server_sha512 :: "(u8 list \<Rightarrow> u8 list) \<Rightarrow> string \<Rightarrow> u8 list option \<Rightarrow> u8 list" where
  "server_sha512 digest secret salt =
     digest ((case salt of None \<Rightarrow> [] | Some x \<Rightarrow> take SALT_SIZE x) @ map of_char (cstr secret 0))"

text \<open>\<^verbatim>\<open>sprintf (dst, "%02x", b)\<close>\<close>

definition hex_digit :: "nat \<Rightarrow> char" where
  "hex_digit d = char_of (if d < 10 then 48 + d else 87 + d)"

definition hex2 :: "u8 \<Rightarrow> string" where
  "hex2 b = [hex_digit (unat b div 16), hex_digit (unat b mod 16)]"

text \<open>The array behind \<^verbatim>\<open>output\<close>, of which the last character is set to NUL.\<close>

definition server_sha256_str :: "(u8 list \<Rightarrow> u8 list) \<Rightarrow> u8 list \<Rightarrow> nat \<Rightarrow> string" where
  "server_sha256_str digest data n =
     concat (map hex2 (take SHA256_DIGEST_LENGTH (digest (take n data)))) @ [NUL]"

section \<open>The text determines the digest\<close>

lemma hex_digit_facts:
  assumes "d < 16"
  shows "digit_val (hex_digit d) = d" "\<not> is_space (hex_digit d)" "hex_digit d \<noteq> CHR ''-''"
    "hex_digit d \<noteq> CHR ''+''" "hex_digit d \<noteq> NUL" "hex_digit d \<noteq> CHR ''x''" "hex_digit d \<noteq> CHR ''X''"
    "hex_digit d \<noteq> CHR 0x5C"
proof -
  define v where "v = (if d < 10 then 48 + d else 87 + d)"
  have v: "48 \<le> v \<and> v \<le> 57 \<or> 97 \<le> v \<and> v \<le> 102" using assms by (simp add: v_def)
  have h: "hex_digit d = char_of v" by (simp add: hex_digit_def v_def)
  have o: "of_char (char_of v :: char) = (v :: nat)" using v by auto
  have ne: "hex_digit d \<noteq> c" if "of_char c < (48::nat) \<or> (57::nat) < of_char c \<and> of_char c < (97::nat) \<or>
      (102::nat) < of_char c" for c
    using that o v unfolding h by auto
  show "digit_val (hex_digit d) = d" using assms unfolding h digit_val_def o by (auto simp: v_def)
  show "hex_digit d \<noteq> CHR ''-''" "hex_digit d \<noteq> CHR ''+''" "hex_digit d \<noteq> NUL" "hex_digit d \<noteq> CHR ''x''"
    "hex_digit d \<noteq> CHR ''X''" "hex_digit d \<noteq> CHR 0x5C"
    by (rule ne; simp add: NUL_def)+
  have "hex_digit d \<noteq> CHR '' ''" by (rule ne) simp
  then show "\<not> is_space (hex_digit d)" using v by (simp add: is_space_def h o) auto
qed

lemma unat_byte: "unat (b :: u8) < 256"
  using unsigned_less [of b, where 'a = nat] by simp

lemma strtoul_hex2:
  fixes b :: u8
  shows "strtoul 16 (cstr [hex_digit (unat b div 16), hex_digit (unat b mod 16), NUL] 0) = ucast b"
proof -
  have b: "unat b div 16 < 16" "unat b mod 16 < 16" using unat_byte [of b] by auto
  note h = hex_digit_facts [OF b(1)] hex_digit_facts [OF b(2)]
  have "digits_of 16 [hex_digit (unat b div 16), hex_digit (unat b mod 16)] =
      [hex_digit (unat b div 16), hex_digit (unat b mod 16)]"
    using b h by (simp add: digits_of_def)
  then have "strtoul 16 [hex_digit (unat b div 16), hex_digit (unat b mod 16)] =
      of_nat (unat b div 16 * 16 + unat b mod 16)"
    using b h unat_byte [of b] by (simp add: strtoul_def strtoul_prefix_def digits_value_def)
  also have "unat b div 16 * 16 + unat b mod 16 = unat b" by simp
  finally show ?thesis using h by (simp add: cstr_def)
qed

lemma hex_pairs_hex2:
  "hex_pairs (pre @ concat (map hex2 bs) @ rest) (length pre + 2 * length bs) (length pre) = bs"
proof (induction bs arbitrary: pre)
  case Nil
  show ?case by (simp add: hex_pairs.simps)
next
  case (Cons b bs)
  let ?s = "pre @ concat (map hex2 (b # bs)) @ rest"
  have s: "?s ! length pre = hex_digit (unat b div 16)" "?s ! Suc (length pre) = hex_digit (unat b mod 16)"
    by (simp_all add: hex2_def nth_append)
  have two: "length (hex2 b) = 2" for b by (simp add: hex2_def)
  have "hex_pairs ?s (length pre + 2 * length (b # bs)) (length pre + 2) = bs"
    using Cons.IH [of "pre @ hex2 b"] two [of b] by (simp add: add.commute)
  moreover have "ucast (ucast b :: u64) = b" by (rule bit_word_eqI) (simp add: bit_simps)
  ultimately show ?case
    by (subst hex_pairs.simps) (simp add: s strtoul_hex2 del: concat.simps list.map)
qed

text \<open>
  The hexadecimal text of a digest is read back by \<^verbatim>\<open>hexstr_to_u8\<close>: the name of a stored file
  determines the digest of its content.
\<close>

theorem sha256_str_roundtrip:
  assumes "length (digest (take n data)) = SHA256_DIGEST_LENGTH"
  shows "length (server_sha256_str digest data n) = SERVER_HASH256_STR_SIZE"
    and "hexstr_to_u8 (server_sha256_str digest data n) 64 = digest (take n data)"
proof -
  let ?d = "digest (take n data)"
  have len: "length (concat (map hex2 bs)) = 2 * length bs" for bs by (induction bs) (simp_all add: hex2_def)
  show "length (server_sha256_str digest data n) = SERVER_HASH256_STR_SIZE"
    using assms by (simp add: server_sha256_str_def len SERVER_HASH256_STR_SIZE_def)
  obtain b bs where d: "?d = b # bs" using assms by (cases ?d) (simp_all add: SHA256_DIGEST_LENGTH_def)
  have "hex_digit (unat b div 16) \<noteq> CHR 0x5C"
    using unat_byte [of b] by (intro hex_digit_facts) auto
  then have "server_sha256_str digest data n ! 0 \<noteq> CHR 0x5C"
    using assms d by (simp add: server_sha256_str_def hex2_def SHA256_DIGEST_LENGTH_def)
  moreover have "hex_pairs (concat (map hex2 ?d) @ [NUL]) 64 0 = ?d"
    using hex_pairs_hex2 [of "[]" ?d "[NUL]"] assms by (simp add: SHA256_DIGEST_LENGTH_def)
  ultimately show "hexstr_to_u8 (server_sha256_str digest data n) 64 = digest (take n data)"
    using assms by (simp add: hexstr_to_u8_def server_sha256_str_def)
qed

end
