(* ===== verification/Server_Diag.thy ===== *)
theory Server_Diag
  imports Server_State Server_Log Server_Crypt
begin

text \<open>
  What the server prints and asks the system about: the dump of bytes, \<^verbatim>\<open>fdsize\<close> and
  \<^verbatim>\<open>file_isdir\<close> of \<^verbatim>\<open>server/src/server_util.c\<close>, the log of a parsed message of
  \<^verbatim>\<open>server/src/server_http.c\<close> and the error of a socket of \<^verbatim>\<open>server/src/server.c\<close>.
\<close>

section \<open>Dump of bytes\<close>

definition per_line :: nat where "per_line = 20"

definition shown :: "u8 \<Rightarrow> char" where
  "shown b = (if 32 \<le> b \<and> b \<le> 126 then char_of (unat b) else CHR ''.'')"

definition print_hex_char :: "u8 list \<Rightarrow> nat \<Rightarrow> nat \<Rightarrow> string" where
  "print_hex_char str len start = map shown (take per_line (drop start (take len str)))"

definition upper_hex :: "nat \<Rightarrow> char" where
  "upper_hex d = char_of (if d < 10 then 48 + d else 55 + d)"

definition hex_cell :: "u8 \<Rightarrow> string" where
  "hex_cell b = [upper_hex (unat b div 16), upper_hex (unat b mod 16), CHR '' '']"

text \<open>The loop from index \<open>i\<close>, with what it has printed and the two counters at its end.\<close>

fun print_hex_loop :: "u8 list \<Rightarrow> nat \<Rightarrow> nat \<Rightarrow> nat \<Rightarrow> nat \<Rightarrow> u8 list \<Rightarrow> string \<times> nat \<times> nat" where
  "print_hex_loop str len i line_i ci [] = ([], line_i, ci)"
| "print_hex_loop str len i line_i ci (b # bs) =
     (if per_line \<le> Suc line_i then
        (let (out, r) = print_hex_loop str len (Suc i) 0 i bs
         in (hex_cell b @ [CHR 0x09] @ print_hex_char str len ci @ [CHR 0x0A] @ out, r))
      else
        (let (out, r) = print_hex_loop str len (Suc i) (Suc line_i) ci bs in (hex_cell b @ out, r)))"

text \<open>A length beyond the bytes that are there is a read behind them.\<close>

definition print_hex :: "u8 list \<Rightarrow> nat \<Rightarrow> string res" where
  "print_hex str len =
     (if length str < len then Inl Out_of_bounds
      else
        (let (out, line_i, ci) = print_hex_loop str len 0 0 0 (take len str)
         in Inr (out @ concat (replicate (per_line - line_i) ''   '') @ [CHR 0x09] @
                 print_hex_char str len ci @ [CHR 0x0A])))"

lemma print_hex_short:
  assumes "line_i + length bs < per_line"
  shows "print_hex_loop str len i line_i ci bs = (concat (map hex_cell bs), line_i + length bs, ci)"
  using assms by (induction bs arbitrary: i line_i) (auto simp: Let_def)

text \<open>
  After a full line the column of characters goes on with the last byte of it again: the counter
  gets the index of that byte and not of the next one.
\<close>

lemma print_hex_repeats:
  assumes "length bs = 19" "length cs < per_line"
  shows "print_hex_loop (bs @ [b] @ cs) (20 + length cs) 0 0 0 (bs @ [b] @ cs) =
    (concat (map hex_cell (bs @ [b])) @ [CHR 0x09] @ map shown (bs @ [b]) @ [CHR 0x0A] @
       concat (map hex_cell cs), length cs, 19)"
proof -
  let ?str = "bs @ [b] @ cs" and ?n = "20 + length cs"
  have line: "print_hex_loop ?str ?n i line_i 0 (xs @ [b] @ cs) =
      (concat (map hex_cell (xs @ [b])) @ [CHR 0x09] @ map shown (bs @ [b]) @ [CHR 0x0A] @
         concat (map hex_cell cs), length cs, i + length xs)" if "line_i + length xs = 19" for i line_i xs
    using that
  proof (induction xs arbitrary: i line_i)
    case Nil
    then show ?case using assms print_hex_short [of 0 cs] by (simp add: per_line_def print_hex_char_def)
  next
    case (Cons x xs)
    then show ?case using Cons.IH [of "Suc line_i" "Suc i"] by (simp add: per_line_def)
  qed
  show ?thesis using line [of 0 bs 0] assms(1) by simp
qed

section \<open>Files and sockets\<close>

text \<open>\<^verbatim>\<open>fstat\<close> and \<^verbatim>\<open>stat\<close> are parameters: their result, \<open>None\<close> when they fail.\<close>

definition fdsize :: "nat option \<Rightarrow> nat res" where
  "fdsize st = (case st of None \<Rightarrow> Inl Uninitialised | Some n \<Rightarrow> Inr n)"

definition file_isdir :: "(string \<Rightarrow> u32 option) \<Rightarrow> string option \<Rightarrow> int" where
  "file_isdir st path =
     (case path of
        None \<Rightarrow> -1
      | Some p \<Rightarrow>
          (case st p of
             None \<Rightarrow> -1
           | Some mode \<Rightarrow> if mode AND 0xF000 = 0x4000 then 1 else 0))"

text \<open>
  \<^verbatim>\<open>getsockopt\<close> writes the error of the socket, which the test then replaces by
  \<^verbatim>\<open>errno\<close>; when it fails there is nothing to return.
\<close>

definition server_print_sockerr :: "int option \<Rightarrow> int \<Rightarrow> int res" where
  "server_print_sockerr so_error errno = (case so_error of None \<Rightarrow> Inl Uninitialised | Some e \<Rightarrow> Inr errno)"

section \<open>The log of a message\<close>

definition verbose :: "string \<Rightarrow> log_state \<Rightarrow> log_state" where
  "verbose text = server_log SERVER_VERBOSE None 0 text"

definition quoted :: "string \<Rightarrow> string" where
  "quoted x = CHR 0x27 # x @ [CHR 0x27]"

definition indent :: string where
  "indent = [CHR 0x0A, CHR 0x09, CHR 0x09, CHR 0x09]"

text \<open>Text runs on into the next array where an array is full, as in the printed message.\<close>

definition log_pair :: "string \<Rightarrow> string \<Rightarrow> string \<Rightarrow> log_state \<Rightarrow> log_state" where
  "log_pair pre name val = verbose (pre @ quoted name @ '' = '' @ quoted val @ [CHR 0x0A])"

definition params_from :: "http \<Rightarrow> nat \<Rightarrow> (nat \<times> string) list" where
  "params_from h i = concat (map header_fields (drop i (params h))) @ [(8, le_chars 8 (n_params h))]"

definition log_request :: "http \<Rightarrow> log_state \<Rightarrow> log_state" where
  "log_request h g =
     fold (\<lambda>i. log_pair [CHR 0x09] (cstr_fields (params_from h i)) (cstr_fields (tl (params_from h i))))
       [0..<n_params h]
       (verbose ([CHR 0x09] @ ''Method: '' @ quoted (cstr_fields (req_fields h)) @ indent @ ''URL: '' @
          quoted (cstr_fields (tl (req_fields h))) @ indent @ ''Version: '' @
          quoted (cstr_fields (tl (tl (req_fields h)))) @ [CHR 0x0A]) g)"

definition log_respond :: "http \<Rightarrow> log_state \<Rightarrow> log_state" where
  "log_respond h =
     verbose ([CHR 0x09] @ ''Version: '' @
       quoted (cstr_fields [(HTTP_VERSION_LEN, resp_version h), (2, le_chars 2 (unat (resp_code h))),
                            (HTTP_STATUS_MSG_LEN, resp_msg h)]) @ indent @ ''Code: '' @
       dec_digits (unat (resp_code h)) @ indent @ ''Status: '' @ quoted (resp_msg h) @ [CHR 0x0A])"

definition print_parsed_http :: "http \<Rightarrow> log_state \<Rightarrow> log_state" where
  "print_parsed_http h g =
     (if server_get_loglevel g \<noteq> SERVER_VERBOSE then g
      else
        (let g1 = verbose (''Parsed HTTP: '' @ (if htype h = HTTP_REQUEST then ''Request'' else ''Respond'') @
                    [CHR 0x0A]) g;
             g2 = (if htype h = HTTP_REQUEST then log_request h g1 else log_respond h g1);
             g3 = fold (\<lambda>i. log_pair (''H:'' @ [CHR 0x09]) (header_name h i) (header_val h i))
                    [0..<n_headers h] g2
         in case body h of
              None \<Rightarrow> g3
            | Some b \<Rightarrow>
                verbose (''BODY (strlen: '' @ dec_digits (length (cstr b 0)) @ '', http: '' @
                  dec_digits (body_len h) @ ''):'' @ [CHR 0x09] @ quoted (cstr b 0) @ [CHR 0x0A]) g3))"

text \<open>Nothing of a message reaches the log but at the highest level, and never the error stream.\<close>

lemma verbose_stderr [simp]: "log_stderr (verbose t g) = log_stderr g"
  using server_log_stderr [of SERVER_VERBOSE None 0 t g] by (auto simp: verbose_def)

lemma log_pairs_stderr [simp]: "log_stderr (fold (\<lambda>i. log_pair pre (n i) (v i)) hs g) = log_stderr g"
  by (induction hs arbitrary: g) (simp_all add: log_pair_def)

lemma print_parsed_http_quiet:
  "log_stderr (print_parsed_http h g) = log_stderr g"
  "server_get_loglevel g < SERVER_VERBOSE \<Longrightarrow> print_parsed_http h g = g"
  by (auto simp: print_parsed_http_def log_request_def log_respond_def Let_def split: option.split)

end
