(* ===== verification/Server_Db.thy ===== *)
theory Server_Db
  imports Server_Config Server_Diag
begin

text \<open>
  The SQL files and the connections to the database (\<^verbatim>\<open>server/src/chat/db.c\<close> without the rows of
  results): the texts of \<^verbatim>\<open>server_db_commands_t\<close>, and a connection's handle, flags and queue.
  What the files hold and what libpq answers are parameters.
\<close>

section \<open>SQL files\<close>

text \<open>The members of \<^verbatim>\<open>server_db_commands_t\<close>, each a text with a length.\<close>

datatype db_sql = Sql_schema | Sql_insert_user | Sql_select_user | Sql_select_connected_users
  | Sql_select_user_json | Sql_delete_user | Sql_insert_group | Sql_select_user_groups
  | Sql_select_pub_group | Sql_delete_group | Sql_select_groupmember | Sql_insert_pub_groupmember
  | Sql_delete_groupmember | Sql_insert_msg | Sql_select_msg | Sql_select_group_msgs_json
  | Sql_delete_msg | Sql_update_user | Sql_insert_userfiles | Sql_insert_groupmember_code
  | Sql_create_group_code | Sql_get_group_code | Sql_delete_group_code

record db_commands =
  sql_text :: "db_sql \<Rightarrow> string option"
  sql_len :: "db_sql \<Rightarrow> nat"

definition commands_zero :: db_commands where
  "commands_zero = \<lparr>sql_text = (\<lambda>m. None), sql_len = (\<lambda>m. 0)\<rparr>"

text \<open>
  A file of SQL cannot be opened, or is open and \<^verbatim>\<open>fstat\<close> fails, or has a size and cannot be
  read, or has a text, which one read gets as a whole. The size of \<^verbatim>\<open>fdsize\<close> is that of an unset structure when \<^verbatim>\<open>fstat\<close>
  fails. When reading fails the buffer is freed and set to NULL, and then written to.
\<close>

datatype sql_file = Sql_absent | Sql_nostat | Sql_unreadable nat | Sql_file string

fun sql_stat :: "sql_file \<Rightarrow> nat option" where
  "sql_stat (Sql_unreadable len) = Some len"
| "sql_stat (Sql_file t) = Some (length t)"
| "sql_stat _ = None"

definition server_db_load_sql :: "sql_file \<Rightarrow> (string \<times> nat) option res" where
  "server_db_load_sql f =
     (if f = Sql_absent then Inr None
      else bindR (fdsize (sql_stat f)) (\<lambda>len.
             if len = 0 then Inr None
             else (case f of
                     Sql_file t \<Rightarrow> Inr (Some (t, len))
                   | _ \<Rightarrow> Inl Null_dereference)))"

lemma load_sql_simps [simp]:
  "server_db_load_sql Sql_absent = Inr None"
  "server_db_load_sql Sql_nostat = Inl Uninitialised"
  "server_db_load_sql (Sql_unreadable len) = (if len = 0 then Inr None else Inl Null_dereference)"
  "server_db_load_sql (Sql_file t) = Inr (if t = [] then None else Some (t, length t))"
  by (simp_all add: server_db_load_sql_def fdsize_def bindR_def)

text \<open>
  The loads of \<^verbatim>\<open>server_init_db\<close> in order: the member for the text, the path, which is a member
  of the configuration or a literal, and the member whose length is set. The length of
  \<open>Sql_update_user\<close> goes to \<open>Sql_delete_msg\<close>.
\<close>

datatype sql_path = Conf_path string | Path string

definition sql_loads :: "(db_sql \<times> sql_path \<times> db_sql) list" where
  "sql_loads =
     [(Sql_schema, Conf_path ''schema'', Sql_schema),
      (Sql_insert_user, Conf_path ''insert_user'', Sql_insert_user),
      (Sql_select_user, Conf_path ''select_user'', Sql_select_user),
      (Sql_select_connected_users, Path ''server/sql/select_connected_users.sql'', Sql_select_connected_users),
      (Sql_select_user_json, Path ''server/sql/select_user_json.sql'', Sql_select_user_json),
      (Sql_insert_group, Conf_path ''insert_group'', Sql_insert_group),
      (Sql_select_user_groups, Path ''server/sql/select_user_groups.sql'', Sql_select_user_groups),
      (Sql_select_pub_group, Path ''server/sql/select_public_group.sql'', Sql_select_pub_group),
      (Sql_insert_groupmember_code, Conf_path ''insert_groupmember_code'', Sql_insert_groupmember_code),
      (Sql_select_groupmember, Conf_path ''select_groupmember'', Sql_select_groupmember),
      (Sql_insert_pub_groupmember, Path ''server/sql/join_pub_group.sql'', Sql_insert_pub_groupmember),
      (Sql_insert_msg, Conf_path ''insert_msg'', Sql_insert_msg),
      (Sql_select_msg, Conf_path ''select_msg'', Sql_select_msg),
      (Sql_select_group_msgs_json, Path ''server/sql/select_group_msgs_json.sql'', Sql_select_group_msgs_json),
      (Sql_delete_msg, Path ''server/sql/delete_msg.sql'', Sql_delete_msg),
      (Sql_update_user, Conf_path ''update_user'', Sql_delete_msg),
      (Sql_insert_userfiles, Conf_path ''insert_userfiles'', Sql_insert_userfiles),
      (Sql_create_group_code, Path ''server/sql/create_group_code.sql'', Sql_create_group_code),
      (Sql_get_group_code, Path ''server/sql/get_group_codes.sql'', Sql_get_group_code),
      (Sql_delete_group_code, Path ''server/sql/delete_group_code.sql'', Sql_delete_group_code)]"

text \<open>Opening a path that is NULL fails; a text that is not loaded is NULL and leaves the length.\<close>

definition open_sql :: "(string \<Rightarrow> sql_file) \<Rightarrow> server_config \<Rightarrow> sql_path \<Rightarrow> sql_file" where
  "open_sql fs conf p =
     (case p of
        Path x \<Rightarrow> fs x
      | Conf_path m \<Rightarrow> (case conf_sql conf m of None \<Rightarrow> Sql_absent | Some x \<Rightarrow> fs x))"

fun load_commands ::
  "(string \<Rightarrow> sql_file) \<Rightarrow> server_config \<Rightarrow> (db_sql \<times> sql_path \<times> db_sql) list \<Rightarrow> db_commands \<Rightarrow>
    db_commands res" where
  "load_commands fs conf [] cmds = Inr cmds"
| "load_commands fs conf ((m, p, l) # loads) cmds =
     bindR (server_db_load_sql (open_sql fs conf p)) (\<lambda>r.
       load_commands fs conf loads
         (case r of
            None \<Rightarrow> cmds\<lparr>sql_text := (sql_text cmds)(m := None)\<rparr>
          | Some (t, n) \<Rightarrow>
              cmds\<lparr>sql_text := (sql_text cmds)(m := Some t), sql_len := (sql_len cmds)(l := n)\<rparr>))"

text \<open>What is freed at the end: the address of every text, a NULL pointer being ignored.\<close>

definition freed_commands :: "db_sql list" where
  "freed_commands =
     [Sql_schema, Sql_insert_user, Sql_select_user, Sql_select_user_json, Sql_select_connected_users,
      Sql_delete_user, Sql_insert_group, Sql_select_user_groups, Sql_select_pub_group, Sql_delete_group,
      Sql_insert_groupmember_code, Sql_insert_pub_groupmember, Sql_select_groupmember,
      Sql_delete_groupmember, Sql_insert_msg, Sql_select_msg, Sql_select_group_msgs_json, Sql_delete_msg,
      Sql_update_user, Sql_insert_userfiles, Sql_create_group_code, Sql_get_group_code,
      Sql_delete_group_code]"

definition server_db_free :: "db_commands \<Rightarrow> db_commands" where
  "server_db_free cmds =
     cmds\<lparr>sql_text := (\<lambda>m. if m \<in> set freed_commands then None else sql_text cmds m)\<rparr>"

section \<open>Connections\<close>

definition DB_DEFAULT :: u32 where "DB_DEFAULT = 0x00"
definition DB_PIPELINE :: u32 where "DB_PIPELINE = 0x01"
definition DB_NONBLOCK :: u32 where "DB_NONBLOCK = 0x02"
definition DB_PIPELINE_QUEUE_SIZE :: nat where "DB_PIPELINE_QUEUE_SIZE = 128"
definition DB_CONNINTO_LEN :: nat where "DB_CONNINTO_LEN = 256"

lemmas db_flags = DB_DEFAULT_def DB_PIPELINE_def DB_NONBLOCK_def

text \<open>
  A connection that was never opened, is open, or was finished; flags and the queue that were
  never written have no value.
\<close>

datatype db_handle = Conn_null | Conn_open string | Conn_finished

record db_link =
  link_conn :: db_handle
  link_flags :: "u32 option"
  link_queue :: "(db_exec, db_exec_res, db_data) plq option"

definition link_zero :: db_link where
  "link_zero = \<lparr>link_conn = Conn_null, link_flags = Some 0, link_queue = None\<rparr>"

definition link_local :: db_link where
  "link_local = \<lparr>link_conn = Conn_null, link_flags = None, link_queue = None\<rparr>"

text \<open>What libpq answers: the connection is made, pipeline mode entered, and non-blocking set.\<close>

record pq_answers =
  pq_connects :: bool
  pq_pipelines :: bool
  pq_nonblocks :: bool

definition server_db_close :: "db_link \<Rightarrow> db_link res" where
  "server_db_close db =
     (case link_flags db of
        None \<Rightarrow> Inl Uninitialised
      | Some flags \<Rightarrow>
          (let db1 = (if flags AND DB_PIPELINE \<noteq> 0 then db\<lparr>link_queue := None\<rparr> else db)
           in case link_conn db1 of
                Conn_finished \<Rightarrow> Inl Use_after_free
              | Conn_null \<Rightarrow> Inr db1
              | Conn_open _ \<Rightarrow> Inr (db1\<lparr>link_conn := Conn_finished\<rparr>)))"

definition conninfo :: "string \<Rightarrow> string \<Rightarrow> string" where
  "conninfo dbname user = snprintf DB_CONNINTO_LEN (''dbname='' @ dbname @ '' user='' @ user)"

text \<open>
  \<open>login\<close> is what \<^verbatim>\<open>getlogin_r\<close> writes, \<open>None\<close> when it fails: nobody checks it, and the
  unset array is then printed into the connection string.
\<close>

definition server_db_open ::
  "pq_answers \<Rightarrow> string option \<Rightarrow> db_link \<Rightarrow> string \<Rightarrow> u32 \<Rightarrow> (db_link \<times> bool) res" where
  "server_db_open pq login db dbname flags =
     (case login of None \<Rightarrow> Inl Uninitialised | Some user \<Rightarrow>
     (let db1 = db\<lparr>link_conn := Conn_open (conninfo dbname user)\<rparr>
      in if \<not> pq_connects pq then Inr (db1, False)
         else
           (let db2 = db1\<lparr>link_flags := Some flags\<rparr>;
                err = (\<lambda>d. bindR (server_db_close d) (\<lambda>d1. Inr (d1, False)))
            in if flags AND DB_PIPELINE \<noteq> 0 \<and> \<not> pq_pipelines pq then err db2
               else
                 (let db3 = (if flags AND DB_PIPELINE \<noteq> 0
                             then db2\<lparr>link_queue := Some (db_init_queue DB_PIPELINE_QUEUE_SIZE)\<rparr> else db2)
                  in if flags AND DB_NONBLOCK \<noteq> 0 \<and> \<not> pq_nonblocks pq then err db3
                     else Inr (db3, True)))))"

text \<open>The status of the statement is a parameter; a text that is NULL is refused.\<close>

definition db_exec_sql :: "pg_status \<Rightarrow> string option \<Rightarrow> bool" where
  "db_exec_sql status sql = (case sql of None \<Rightarrow> False | Some t \<Rightarrow> status = PGRES_COMMAND_OK)"

text \<open>The connection is a local variable, which is closed however opening it went.\<close>

definition db_exec_schema ::
  "pq_answers \<Rightarrow> pg_status \<Rightarrow> string option \<Rightarrow> server_config \<Rightarrow> db_commands \<Rightarrow> bool res" where
  "db_exec_schema pq status login conf cmds =
     bindR (server_db_open pq login link_local (cstr (conf_database conf) 0) DB_DEFAULT) (\<lambda>(db, ok).
     bindR (server_db_close db) (\<lambda>db1. Inr (ok \<and> db_exec_sql status (sql_text cmds Sql_schema))))"

definition server_init_db ::
  "(string \<Rightarrow> sql_file) \<Rightarrow> pq_answers \<Rightarrow> pg_status \<Rightarrow> string option \<Rightarrow> server_config \<Rightarrow> db_commands \<Rightarrow>
    (db_commands \<times> bool) res" where
  "server_init_db fs pq status login conf cmds =
     bindR (load_commands fs conf sql_loads cmds) (\<lambda>cmds1.
     bindR (db_exec_schema pq status login conf cmds1) (\<lambda>ok. Inr (cmds1, ok)))"

section \<open>Loading\<close>

lemma load_commands_text:
  assumes "load_commands fs conf loads cmds = Inr cmds'" "distinct (map fst loads)" "(m, p, l) \<in> set loads"
  shows "sql_text cmds' m = (case open_sql fs conf p of Sql_file t \<Rightarrow> if t = [] then None else Some t | _ \<Rightarrow> None)"
proof -
  have other: "sql_text cmds' x = sql_text cmds x"
    if "load_commands fs conf loads cmds = Inr cmds'" "x \<notin> fst ` set loads" for loads cmds x
    using that by (induction loads arbitrary: cmds) (auto simp: bindR_Inr split: option.splits)
  show ?thesis
    using assms
  proof (induction loads arbitrary: cmds)
    case (Cons load loads)
    obtain m' p' l' where load: "load = (m', p', l')" by (cases load) auto
    define upd where "upd r = (case r of None \<Rightarrow> cmds\<lparr>sql_text := (sql_text cmds)(m' := None)\<rparr>
      | Some (t, n) \<Rightarrow> cmds\<lparr>sql_text := (sql_text cmds)(m' := Some t), sql_len := (sql_len cmds)(l' := n)\<rparr>)" for r
    obtain r where r: "server_db_load_sql (open_sql fs conf p') = Inr r"
      and rest: "load_commands fs conf loads (upd r) = Inr cmds'"
      using Cons.prems(1) by (auto simp: load upd_def bindR_Inr)
    have tx: "sql_text (upd r) m' = map_option fst r" by (simp add: upd_def split: option.split)
    show ?case
    proof (cases "m = m'")
      case True
      then have "(m, p, l) = load" using Cons.prems(2,3) load by (force simp: image_iff)
      moreover have "m' \<notin> fst ` set loads" using Cons.prems(2) load by simp
      ultimately show ?thesis using other [OF rest, of m'] r tx load
        by (cases "open_sql fs conf p") (auto split: if_splits)
    next
      case False
      then show ?thesis using Cons.IH [OF rest] Cons.prems(2,3) load by auto
    qed
  qed simp
qed

text \<open>The first file that cannot be loaded decides how the loading ends.\<close>

definition first_bad_sql :: "(string \<Rightarrow> sql_file) \<Rightarrow> server_config \<Rightarrow> sql_file option" where
  "first_bad_sql fs conf =
     find (\<lambda>f. isl (server_db_load_sql f)) (map (\<lambda>(m, p, l). open_sql fs conf p) sql_loads)"

lemma load_commands_first_bad:
  "(case find (\<lambda>f. isl (server_db_load_sql f)) (map (\<lambda>(m, p, l). open_sql fs conf p) loads) of
      None \<Rightarrow> \<exists>cmds1. load_commands fs conf loads cmds = Inr cmds1
    | Some f \<Rightarrow> \<exists>e. server_db_load_sql f = Inl e \<and> load_commands fs conf loads cmds = Inl e)"
proof (induction loads arbitrary: cmds)
  case (Cons load loads)
  obtain m p l where load: "load = (m, p, l)" by (cases load) auto
  show ?case
  proof (cases "server_db_load_sql (open_sql fs conf p)")
    case (Inr r)
    then obtain cmds' where same: "load_commands fs conf (load # loads) cmds = load_commands fs conf loads cmds'"
      by (simp add: load)
    show ?thesis unfolding same using Cons.IH [of cmds'] Inr by (simp add: load)
  next
    case (Inl e)
    then have same: "load_commands fs conf (load # loads) cmds = Inl e" by (simp add: load bindR_def)
    show ?thesis unfolding same using Inl by (simp add: load)
  qed
qed simp

lemma load_sql_uninitialised: "server_db_load_sql f = Inl Uninitialised \<longleftrightarrow> f = Sql_nostat"
  by (cases f) auto



end
