(* ===== verification/Table_Walk.thy ===== *)
theory Table_Walk
  imports Server_Events
begin

text \<open>
  The loops of \<^verbatim>\<open>GHT_FOREACH\<close> (\<^verbatim>\<open>server/include/server_ht.h\<close>) whose body deletes what it
  visits, which is how \<^verbatim>\<open>server/src/server.c\<close> empties its tables at the end. The loop goes on
  with the \<^verbatim>\<open>next\<close> of the bucket it was at, after the body: deleting the bucket of the array
  has copied its successor over it, and deleting a bucket of the heap may have freed it.
\<close>

section \<open>The loop\<close>

definition slot_at :: "('s \<Rightarrow> 'v server_ght) \<Rightarrow> nat \<Rightarrow> 's \<Rightarrow> 'v ght_slot" where
  "slot_at tb i s = ght_table (tb s) ! i"

definition in_chain :: "('s \<Rightarrow> 'v server_ght) \<Rightarrow> nat \<Rightarrow> u64 \<Rightarrow> 's \<Rightarrow> bool" where
  "in_chain tb i k s \<longleftrightarrow> list_ex (\<lambda>b. bkey b = k) (snd (slot_at tb i s))"

text \<open>
  The buckets of the heap from the current one on. A body deletes from this chain the bucket it
  is called for, or nothing. When the bucket is deleted and has a successor, that is moved into
  it, so that the loop goes on behind the successor; without one it is freed. A bucket that was
  cut off from the table by such a deletion is not found and stays.
\<close>

fun walk_heap ::
  "('s \<Rightarrow> 'v server_ght) \<Rightarrow> ('v \<Rightarrow> 's \<Rightarrow> 's res) \<Rightarrow> nat \<Rightarrow> 'v ght_bucket list \<Rightarrow> 's \<Rightarrow> 's res" where
  "walk_heap tb f i [] s = Inr s"
| "walk_heap tb f i (b # bs) s =
     (case bdata b of
        None \<Rightarrow> Inr s
      | Some d \<Rightarrow> bindR (f d s) (\<lambda>s1.
          if in_chain tb i (bkey b) s \<and> \<not> in_chain tb i (bkey b) s1
          then (if bs = [] then Inl Use_after_free else walk_heap tb f i (tl bs) s1)
          else walk_heap tb f i bs s1))"

text \<open>After the bucket of the array the loop goes on with the chain the array has then.\<close>

definition walk_slot ::
  "('s \<Rightarrow> 'v server_ght) \<Rightarrow> ('v \<Rightarrow> 's \<Rightarrow> 's res) \<Rightarrow> nat \<Rightarrow> 's \<Rightarrow> 's res" where
  "walk_slot tb f i s =
     (case bdata (fst (slot_at tb i s)) of
        None \<Rightarrow> Inr s
      | Some d \<Rightarrow> bindR (f d s) (\<lambda>s1. walk_heap tb f i (snd (slot_at tb i s1)) s1))"

fun ght_walk ::
  "('s \<Rightarrow> 'v server_ght) \<Rightarrow> ('v \<Rightarrow> 's \<Rightarrow> 's res) \<Rightarrow> nat list \<Rightarrow> 's \<Rightarrow> 's res" where
  "ght_walk tb f [] s = Inr s"
| "ght_walk tb f (i # is) s = bindR (walk_slot tb f i s) (ght_walk tb f is)"

definition ght_foreach_do :: "('s \<Rightarrow> 'v server_ght) \<Rightarrow> ('v \<Rightarrow> 's \<Rightarrow> 's res) \<Rightarrow> 's \<Rightarrow> 's res" where
  "ght_foreach_do tb f s = ght_walk tb f [0..<ght_size (tb s)] s"

section \<open>Emptying the tables\<close>

text \<open>
  None of the tables here has a free callback, so that destroying one has no effect on the
  objects. The body for events does not change the table of events, because it is only called
  when the server is not running.
\<close>

definition server_del_all_events :: "chat_env \<Rightarrow> chat_server \<Rightarrow> chat_server res" where
  "server_del_all_events env s =
     ght_foreach_do event_ht (\<lambda>a. del_event env (Some a))
       (s\<lparr>event_ht := (event_ht s)\<lparr>ignore_resize := True\<rparr>\<rparr>)"

definition server_del_all_clients :: "chat_env \<Rightarrow> chat_server \<Rightarrow> chat_server res" where
  "server_del_all_clients env s =
     ght_foreach_do client_ht (\<lambda>a s1. server_free_client env (del_event env) s1 (Some a))
       (s\<lparr>client_ht := (client_ht s)\<lparr>ignore_resize := True\<rparr>\<rparr>)"

definition server_del_all_sessions :: "chat_server \<Rightarrow> chat_server res" where
  "server_del_all_sessions s =
     ght_foreach_do session_ht (\<lambda>a s1. server_del_user_session s1 (Some a))
       (s\<lparr>session_ht := (session_ht s)\<lparr>ignore_resize := True\<rparr>\<rparr>)"

text \<open>
  The table of events is destroyed before the upload tokens are deleted, so that looking for the
  event of a token's timer is a use of freed memory.
\<close>

definition server_del_all_upload_tokens :: "chat_server \<Rightarrow> chat_server res" where
  "server_del_all_upload_tokens s =
     ght_foreach_do upload_token_ht
       (\<lambda>a s1. bindR (deref (tokens s1) a) (\<lambda>ut.
          if ut_timerfd ut \<noteq> 0 then Inl Use_after_free
          else server_del_upload_token (\<lambda>p s2. Inr s2) s1 (Some a)))
       (s\<lparr>upload_token_ht := (upload_token_ht s)\<lparr>ignore_resize := True\<rparr>\<rparr>)"

section \<open>The sessions at the end\<close>

definition slot_sessions :: "chat_server \<Rightarrow> nat \<Rightarrow> bool" where
  "slot_sessions s i \<longleftrightarrow>
     slot_ok (ght_size (session_ht s)) i (slot_at session_ht i s) \<and>
     (\<forall>(k, a)\<in>set (pairs (slot_buckets (slot_at session_ht i s))).
        \<exists>x. sessions s a = Some x \<and> id_key (session_id x) = k)"

definition table_sessions :: "chat_server \<Rightarrow> bool" where
  "table_sessions s \<longleftrightarrow>
     length (ght_table (session_ht s)) = ght_size (session_ht s) \<and>
     (\<forall>i<ght_size (session_ht s). slot_sessions s i)"

lemma del_array_bucket:
  assumes "ignore_resize ht" "ght_table ht ! i = (b, c)" "unat (bkey b) mod ght_size ht = i" "inheap b = 0"
  shows "ght_table (fst (server_ght_del ht (bkey b))) =
      (ght_table ht)[i := case c of [] \<Rightarrow> empty_slot | n # r \<Rightarrow> (n\<lparr>inheap := 0\<rparr>, r)]"
    and "ignore_resize (fst (server_ght_del ht (bkey b)))"
    and "ght_size (fst (server_ght_del ht (bkey b))) = ght_size ht"
  using assms
  by (auto simp: server_ght_del_def ght_hash_def ght_del_bucket_def ght_check_load_def ght_resize_def
      ght_dec_def ght_calc_load_def Let_def split: list.split)

lemma del_heap_bucket:
  assumes "ignore_resize ht" "ght_table ht ! i = (b, [m])" "unat (bkey m) mod ght_size ht = i"
    "bkey b \<noteq> bkey m"
  shows "ght_table (fst (server_ght_del ht (bkey m))) = (ght_table ht)[i := (b, [])]"
  using assms
  by (auto simp: server_ght_del_def ght_hash_def ght_del_bucket_def ght_check_load_def ght_resize_def
      ght_dec_def ght_calc_load_def Let_def)

text \<open>A slot of one or two sessions loses the first one; in a slot of three the third one is freed
  with the bucket the loop is at.\<close>

abbreviation del_session :: "nat \<Rightarrow> chat_server \<Rightarrow> chat_server res" where
  "del_session a s \<equiv> server_del_user_session s (Some a)"

lemma walk_session_slot:
  assumes "ignore_resize (session_ht s)" "slot_sessions s i"
    "i < length (ght_table (session_ht s))" "slot_at session_ht i s = (b, c)" "bdata b = Some a" "length c \<le> 2"
  shows "if length c = 2 then walk_slot session_ht del_session i s = Inl Use_after_free
    else \<exists>ht sl. walk_slot session_ht del_session i s =
           Inr (s\<lparr>session_ht := ht, sessions := (sessions s)(a := None)\<rparr>) \<and> ignore_resize ht \<and>
         ght_table ht = (ght_table (session_ht s))[i := sl] \<and> ght_size ht = ght_size (session_ht s)"
proof -
  let ?ht = "session_ht s" and ?n = "ght_size (session_ht s)"
  have slot: "ght_table ?ht ! i = (b, c)" using assms(4) by (simp add: slot_at_def)
  have ok: "slot_ok ?n i (b, c)" and
    live: "\<And>k d. (k, d) \<in> set (pairs (b # c)) \<Longrightarrow> \<exists>x. sessions s d = Some x \<and> id_key (session_id x) = k"
    using assms(2,4) by (auto simp: slot_sessions_def)
  have b: "inheap b = 0" "unat (bkey b) mod ?n = i" using ok assms(5) by (auto simp: slot_ok_def)
  obtain x where x: "sessions s a = Some x" "id_key (session_id x) = bkey b"
    using live [of "bkey b" a] assms(5) by auto
  define ht where "ht = fst (server_ght_del ?ht (bkey b))"
  note del = del_array_bucket [OF assms(1) slot b(2,1), folded ht_def]
  let ?s = "s\<lparr>session_ht := ht, sessions := (sessions s)(a := None)\<rparr>"
  have first: "del_session a s = Inr ?s"
    using x by (simp add: server_del_user_session_def ht_def)
  have w: "walk_slot session_ht del_session i s = walk_heap session_ht del_session i (snd (slot_at session_ht i ?s)) ?s"
    using assms(4,5) first by (simp add: walk_slot_def)
  show ?thesis
  proof (cases "length c = 2")
    case False
    then have "snd (slot_at session_ht i ?s) = []"
      using assms(3,6) del(1) by (cases c) (auto simp: slot_at_def empty_slot_def le_Suc_eq)
    then have "walk_slot session_ht del_session i s = Inr ?s" using w by simp
    then show ?thesis unfolding if_not_P [OF False] using del by blast
  next
    case True
    then obtain n m where c: "c = [n, m]" by (cases c) (auto simp: length_Suc_conv numeral_2_eq_2)
    then obtain d where d: "bdata m = Some d" using ok by (auto simp: slot_ok_def)
    obtain d' where d': "bdata n = Some d'" using ok c by (auto simp: slot_ok_def)
    have keys: "bkey m \<noteq> bkey b" "bkey n \<noteq> bkey m" "unat (bkey m) mod ?n = i"
      using ok c d d' assms(5) by (auto simp: slot_ok_def)
    obtain y where y: "sessions s d = Some y" "id_key (session_id y) = bkey m"
      using live [of "bkey m" d] c d d' assms(5) by auto
    then have "d \<noteq> a" using x keys(1) by auto
    have slot1: "ght_table ht ! i = (n\<lparr>inheap := 0\<rparr>, [m])" using del(1) c assms(3) by simp
    define ht2 where "ht2 = fst (server_ght_del ht (bkey m))"
    have del2: "ght_table ht2 ! i = (n\<lparr>inheap := 0\<rparr>, [])"
      using del_heap_bucket [OF del(2) slot1] keys del(1,3) assms(3) by (simp add: ht2_def)
    have "del_session d ?s = Inr (?s\<lparr>session_ht := ht2, sessions := (sessions ?s)(d := None)\<rparr>)"
      using y \<open>d \<noteq> a\<close> by (simp add: server_del_user_session_def ht2_def)
    then show ?thesis using True w d slot1 del2 by (simp add: slot_at_def in_chain_def)
  qed
qed

text \<open>The sessions of the buckets in the array, for a list of slots.\<close>

definition first_sessions :: "chat_server \<Rightarrow> nat list \<Rightarrow> nat set" where
  "first_sessions s is = {a. \<exists>i\<in>set is. bdata (fst (slot_at session_ht i s)) = Some a}"

lemma slot_sessions_elsewhere:
  assumes "slot_sessions s j" "slot_sessions s i" "i \<noteq> j" "slot_at session_ht i s = (b, c)" "bdata b = Some a"
    "slot_at session_ht j s' = slot_at session_ht j s" "ght_size (session_ht s') = ght_size (session_ht s)"
    "sessions s' = (sessions s)(a := None)"
  shows "slot_sessions s' j"
proof -
  let ?n = "ght_size (session_ht s)"
  obtain x where x: "sessions s a = Some x" "unat (id_key (session_id x)) mod ?n = i"
    using assms(2,4,5) by (auto simp: slot_sessions_def slot_ok_def)
  show ?thesis
    unfolding slot_sessions_def assms(6,7)
  proof (intro conjI ballI)
    show "slot_ok ?n j (slot_at session_ht j s)" using assms(1) by (simp add: slot_sessions_def)
    fix p assume p: "p \<in> set (pairs (slot_buckets (slot_at session_ht j s)))"
    obtain k d where kd: "p = (k, d)" by fastforce
    with p assms(1) obtain y where y: "sessions s d = Some y" "id_key (session_id y) = k"
      by (auto simp: slot_sessions_def)
    have "unat k mod ?n = j" using p kd assms(1) by (auto simp: slot_sessions_def slot_ok_def list_all_iff)
    then have "d \<noteq> a" using x y assms(3) by auto
    then show "case p of (k, a) \<Rightarrow> \<exists>x. sessions s' a = Some x \<and> id_key (session_id x) = k"
      using kd y assms(8) by simp
  qed
qed

lemma walk_sessions:
  assumes "ignore_resize (session_ht s)" "\<forall>i\<in>set is. i < length (ght_table (session_ht s)) \<and> slot_sessions s i \<and>
      length (snd (slot_at session_ht i s)) \<le> 2" "distinct is"
  shows "if \<exists>i\<in>set is. length (snd (slot_at session_ht i s)) = 2
    then ght_walk session_ht del_session is s = Inl Use_after_free
    else \<exists>s'. ght_walk session_ht del_session is s = Inr s' \<and>
           (\<forall>a. sessions s' a = (if a \<in> first_sessions s is then None else sessions s a))"
  using assms
proof (induction "is" arbitrary: s)
  case Nil
  then show ?case by (simp add: first_sessions_def)
next
  case (Cons i "is")
  obtain b c where bc: "slot_at session_ht i s = (b, c)" by fastforce
  have i: "i < length (ght_table (session_ht s))" "slot_sessions s i" "length c \<le> 2" "i \<notin> set is"
    using Cons.prems(2,3) bc by auto
  show ?case
  proof (cases "bdata b")
    case None
    then have "slot_at session_ht i s = empty_slot" using i(2) bc by (auto simp: slot_sessions_def slot_ok_def)
    moreover have "walk_slot session_ht del_session i s = Inr s" using None bc by (simp add: walk_slot_def)
    moreover have "first_sessions s (i # is) = first_sessions s is"
      using None bc by (auto simp: first_sessions_def)
    ultimately show ?thesis using Cons.IH [of s] Cons.prems by simp
  next
    case (Some a)
    note slot = walk_session_slot [OF Cons.prems(1) i(2,1) bc Some i(3)]
    show ?thesis
    proof (cases "length c = 2")
      case True
      then show ?thesis using slot bc by auto
    next
      case False
      then obtain ht sl where s1: "walk_slot session_ht del_session i s =
          Inr (s\<lparr>session_ht := ht, sessions := (sessions s)(a := None)\<rparr>)" and ht: "ignore_resize ht"
          "ght_table ht = (ght_table (session_ht s))[i := sl]" "ght_size ht = ght_size (session_ht s)"
        using slot by auto
      let ?s = "s\<lparr>session_ht := ht, sessions := (sessions s)(a := None)\<rparr>"
      have same: "slot_at session_ht j ?s = slot_at session_ht j s" if "j \<in> set is" for j
        using that ht(2) i(4) nth_list_update_neq [of i j _ sl] by (cases "i = j") (simp_all add: slot_at_def)
      have "slot_sessions ?s j" if "j \<in> set is" for j
        by (rule slot_sessions_elsewhere [OF _ i(2) _ bc Some same [OF that]])
          (use that Cons.prems(2) i(4) ht(3) in auto)
      then have IH: "if \<exists>i\<in>set is. length (snd (slot_at session_ht i s)) = 2
        then ght_walk session_ht del_session is ?s = Inl Use_after_free
        else \<exists>s'. ght_walk session_ht del_session is ?s = Inr s' \<and>
               (\<forall>a. sessions s' a = (if a \<in> first_sessions ?s is then None else sessions ?s a))"
        using Cons.IH [of ?s] Cons.prems ht same by auto
      have "first_sessions s (i # is) = insert a (first_sessions ?s is)"
        using bc Some same by (auto simp: first_sessions_def)
      then show ?thesis using IH s1 False bc by auto
    qed
  qed
qed

text \<open>
  C31. At the end the server frees the sessions of a slot of the table as long as the slot has only
  one: of two sessions the second one is skipped and kept, and with three the loop reads the
  bucket it has just freed.
\<close>

theorem del_all_sessions_by_slot:
  assumes "table_sessions s" and "\<forall>sl\<in>set (ght_table (session_ht s)). length (snd sl) \<le> 2"
  shows "if \<exists>sl\<in>set (ght_table (session_ht s)). length (snd sl) = 2
    then server_del_all_sessions s = Inl Use_after_free
    else \<exists>s'. server_del_all_sessions s = Inr s' \<and>
           (\<forall>a. sessions s' a = (if \<exists>sl\<in>set (ght_table (session_ht s)). bdata (fst sl) = Some a
                                then None else sessions s a))"
proof -
  let ?s = "s\<lparr>session_ht := (session_ht s)\<lparr>ignore_resize := True\<rparr>\<rparr>"
  let ?n = "ght_size (session_ht s)" and ?t = "ght_table (session_ht s)"
  have len: "length ?t = ?n" using assms(1) by (simp add: table_sessions_def)
  have at: "slot_at session_ht i ?s = ?t ! i" for i by (simp add: slot_at_def)
  have "slot_sessions ?s i" if "i < ?n" for i
    using assms(1) that by (simp add: table_sessions_def slot_sessions_def slot_at_def)
  moreover have ex: "(\<exists>i\<in>set [0..<?n]. P (?t ! i)) \<longleftrightarrow> (\<exists>sl\<in>set ?t. P sl)" for P
    using len by (metis (no_types) atLeastLessThan_iff in_set_conv_nth le0 set_upt)
  ultimately have w: "if \<exists>sl\<in>set ?t. length (snd sl) = 2
    then ght_walk session_ht del_session [0..<?n] ?s = Inl Use_after_free
    else \<exists>s'. ght_walk session_ht del_session [0..<?n] ?s = Inr s' \<and>
           (\<forall>a. sessions s' a = (if a \<in> first_sessions ?s [0..<?n] then None else sessions ?s a))"
    using walk_sessions [of ?s "[0..<?n]"] assms(2) len ex [of "\<lambda>sl. length (snd sl) = 2"]
    by (simp add: at)
  have f: "a \<in> first_sessions ?s [0..<?n] \<longleftrightarrow> (\<exists>sl\<in>set ?t. bdata (fst sl) = Some a)" for a
    using ex [of "\<lambda>sl. bdata (fst sl) = Some a"] by (simp add: first_sessions_def at)
  have all: "server_del_all_sessions s = ght_walk session_ht del_session [0..<?n] ?s"
    by (simp add: server_del_all_sessions_def ght_foreach_do_def)
  have same: "sessions ?s = sessions s" by simp
  show ?thesis using w unfolding f all same .
qed

section \<open>Example\<close>

text \<open>Sessions whose ids have the same slot of ten.\<close>

definition demo_slot :: "u32 list \<Rightarrow> nat ght_slot" where
  "demo_slot ids =
     (\<lparr>bkey = 5, bdata = Some 5, inheap = 0\<rparr>,
      map (\<lambda>i. \<lparr>bkey = id_key i, bdata = Some (unat i), inheap = -1\<rparr>) ids)"

definition demo_sessions :: "u32 list \<Rightarrow> chat_server" where
  "demo_sessions ids =
     server_start
       \<lparr>session_ht := (empty_table 10)\<lparr>ght_table := (replicate 10 empty_slot)[5 := demo_slot ids]\<rparr>,
        sessions := (\<lambda>a. Some \<lparr>session_id = of_nat a, ses_user_id = 1, ses_timerfd = 0\<rparr>)\<rparr>"

lemma demo_sessions_sel:
  "ght_table (session_ht (demo_sessions ids)) = (replicate 10 empty_slot)[5 := demo_slot ids]"
  "ght_size (session_ht (demo_sessions ids)) = 10"
  "sessions (demo_sessions ids) = (\<lambda>a. Some \<lparr>session_id = of_nat a, ses_user_id = 1, ses_timerfd = 0\<rparr>)"
  by (simp_all add: demo_sessions_def empty_table_def server_ght_init_def)

lemma demo_table_sessions:
  assumes "ids = [15] \<or> ids = [15, 25]"
  shows "table_sessions (demo_sessions ids)"
proof -
  have "slot_sessions (demo_sessions ids) i" if "i < 10" for i
  proof (cases "i = 5")
    case True
    have "unat (id_key 15) = 15" "unat (id_key 25) = 25" by (simp_all add: id_key_def)
    then show ?thesis
      using assms True
      by (auto simp: slot_sessions_def slot_at_def demo_sessions_sel demo_slot_def slot_ok_def id_key_def)
  qed (use that in \<open>simp add: slot_sessions_def slot_at_def demo_sessions_sel\<close>)
  then show ?thesis by (simp add: table_sessions_def demo_sessions_sel)
qed

lemma demo_slots:
  "set ((replicate 10 empty_slot)[5 := demo_slot ids]) = {empty_slot, demo_slot ids}"
  by (simp add: numeral_nat insert_commute)

text \<open>Of two sessions in a slot one is kept, and with a third one the loop fails.\<close>

lemma del_all_sessions_by_slot_witness:
  "(\<exists>s'. server_del_all_sessions (demo_sessions [15]) = Inr s' \<and> sessions s' 5 = None \<and> sessions s' 15 \<noteq> None) \<and>
   server_del_all_sessions (demo_sessions [15, 25]) = Inl Use_after_free"
proof
  have "\<exists>s'. server_del_all_sessions (demo_sessions [15]) = Inr s' \<and>
      (\<forall>a. sessions s' a = (if \<exists>sl\<in>{empty_slot, demo_slot [15]}. bdata (fst sl) = Some a then None
                           else sessions (demo_sessions [15]) a))"
    using del_all_sessions_by_slot [of "demo_sessions [15]"] demo_table_sessions [of "[15]"]
    unfolding demo_sessions_sel(1) demo_slots by (simp add: demo_slot_def)
  then show "\<exists>s'. server_del_all_sessions (demo_sessions [15]) = Inr s' \<and> sessions s' 5 = None \<and> sessions s' 15 \<noteq> None"
    by (auto simp: demo_slot_def demo_sessions_sel)
  show "server_del_all_sessions (demo_sessions [15, 25]) = Inl Use_after_free"
    using del_all_sessions_by_slot [of "demo_sessions [15, 25]"] demo_table_sessions [of "[15, 25]"]
    unfolding demo_sessions_sel(1) demo_slots by (simp add: demo_slot_def)
qed

end
