(* ===== verification/Server_Boot.thy ===== *)
theory Server_Boot
  imports Server_Worker Server_Db Table_Walk
begin

text \<open>
  Starting and ending the server: the second half of \<^verbatim>\<open>server/src/server_init.c\<close>,
  \<^verbatim>\<open>server/src/server_tm.c\<close>, \<^verbatim>\<open>server/src/server_signal.c\<close>, the clean-up of
  \<^verbatim>\<open>server/src/server.c\<close> and \<^verbatim>\<open>server/src/main.c\<close>. The process is the server of the other
  theories with the descriptors, the configuration, the thread manager and the connection of the
  main thread; the answers of the kernel and the libraries are one record of parameters. The
  workers are counted, and what they do is the theory of the event worker.
\<close>

section \<open>The process\<close>

text \<open>An address to bind: the family, the port in network order and the bytes of the address.\<close>

record sock_addr =
  sa_version :: ip_version
  sa_port :: "u8 list"
  sa_bytes :: "u8 list"

record server_proc =
  core :: chat_server
  conf :: server_config
  level :: server_log_level
  commands :: db_commands
  main_db :: db_link
  listen_sock :: int
  epfd :: int
  event_fd :: int
  sigfd :: int
  addr :: sock_addr
  addr_len :: nat
  magic_loaded :: bool
  ssl_ctx :: bool
  tm_state :: u8
  n_workers :: nat
  created :: nat

record os_answers =
  ans_config :: config_file
  ans_threads :: i32
  ans_fork :: int
  ans_inet_addr :: "string \<Rightarrow> u8 list option"
  ans_inet_pton :: "string \<Rightarrow> u8 list option"
  ans_socket :: int
  ans_bind :: bool
  ans_listen :: bool
  ans_epoll_create :: int
  ans_sql :: "string \<Rightarrow> sql_file"
  ans_login :: "string option"
  ans_schema_db :: pq_answers
  ans_schema :: pg_status
  ans_magic_open :: bool
  ans_magic_load :: bool
  ans_ssl_ctx :: bool
  ans_ssl_cert :: bool
  ans_ssl_key :: bool
  ans_eventfd :: int
  ans_signalfd :: int
  ans_main_db :: pq_answers
  ans_pthread :: "nat \<Rightarrow> bool"
  ans_worker_db :: "nat \<Rightarrow> pq_answers"

definition ght_zero :: "'v server_ght" where
  "ght_zero = \<lparr>ght_table = [], ght_size = 0, min_size = 0, ght_count = 0, ignore_resize = False,
     has_free = False, load = 0, max_load = 0, min_load = 0\<rparr>"

text \<open>\<open>db\<close> is the connection the worker would use; \<open>fs\<close> are the files of the disk.\<close>

definition proc_zero :: "chat_db \<Rightarrow> (string \<rightharpoonup> string) \<Rightarrow> server_proc" where
  "proc_zero db fs =
     \<lparr>core = \<lparr>clients = Map.empty, users = Map.empty, sessions = Map.empty, tokens = Map.empty,
              timers = Map.empty, events = Map.empty, next_addr = 0, event_ht = ght_zero,
              client_ht = ght_zero, user_ht = ght_zero, session_ht = ght_zero, upload_token_ht = ght_zero,
              chat_cmd_ht = ght_zero, running = False, epoll = Map.empty, closed = [], os_calls = 0,
              files = fs, ew_db = db\<rparr>,
      conf = config_zero, level = SERVER_DEBUG, commands = commands_zero, main_db = link_zero,
      listen_sock = 0, epfd = 0, event_fd = 0, sigfd = 0,
      addr = \<lparr>sa_version = IPv4, sa_port = [0, 0], sa_bytes = []\<rparr>, addr_len = 0, magic_loaded = False,
      ssl_ctx = False, tm_state = 0, n_workers = 0, created = 0\<rparr>"

type_synonym init_step = "server_proc \<Rightarrow> (server_proc \<times> bool) res"

section \<open>The steps of the start\<close>

definition htons :: "u16 \<Rightarrow> u8 list" where
  "htons p = [ucast (drop_bit 8 p), ucast p]"

definition is_any :: "string \<Rightarrow> bool" where
  "is_any ip \<longleftrightarrow> strncmp_eq ip ''any'' 3"

text \<open>The socket, also when it is -1, is kept; a failed \<^verbatim>\<open>setsockopt\<close> is only logged.\<close>

definition server_init_socket :: "os_answers \<Rightarrow> init_step" where
  "server_init_socket os p =
     (let ip = cstr (conf_addr_ip (conf p)) 0;
          port = htons (conf_addr_port (conf p));
          (sa, len) =
            (if conf_addr_version (conf p) = IPv4
             then (if is_any ip then Some [0, 0, 0, 0] else ans_inet_addr os ip, 16)
             else (if is_any ip then Some (replicate 16 0) else ans_inet_pton os ip, 28))
      in case sa of
           None \<Rightarrow> Inr (p\<lparr>addr_len := len\<rparr>, False)
         | Some bytes \<Rightarrow>
             (let p1 = p\<lparr>addr_len := len, listen_sock := ans_socket os,
                         addr := \<lparr>sa_version = conf_addr_version (conf p), sa_port = port, sa_bytes = bytes\<rparr>\<rparr>
              in Inr (p1, listen_sock p1 \<noteq> -1 \<and> ans_bind os \<and> ans_listen os)))"

text \<open>The tables in order; none of them is refused, as the sizes are not 0.\<close>

definition server_init_ht :: init_step where
  "server_init_ht p =
     (case server_ght_init 10 False of
        None \<Rightarrow> Inr (p, False)
      | Some ht \<Rightarrow>
          (let (s1, ok) = server_init_chatcmd ((core p)\<lparr>event_ht := ht, client_ht := ht, user_ht := ht,
                            session_ht := ht, upload_token_ht := ht\<rparr>)
           in Inr (p\<lparr>core := s1\<rparr>, ok)))"

definition server_init_epoll :: "chat_env \<Rightarrow> os_answers \<Rightarrow> init_step" where
  "server_init_epoll env os p =
     (let p1 = p\<lparr>epfd := ans_epoll_create os\<rparr>
      in if epfd p1 = -1 then Inr (p1, False)
         else bindR (server_new_event env (core p1) (listen_sock p1) None se_accept_conn_cb None) (\<lambda>(s1, ev).
                Inr (p1\<lparr>core := s1\<rparr>, ev \<noteq> None)))"

definition init_database :: "os_answers \<Rightarrow> init_step" where
  "init_database os p =
     bindR (server_init_db (ans_sql os) (ans_schema_db os) (ans_schema os) (ans_login os) (conf p) (commands p))
       (\<lambda>(cmds, ok). Inr (p\<lparr>commands := cmds\<rparr>, ok))"

definition server_init_magic :: "os_answers \<Rightarrow> init_step" where
  "server_init_magic os p =
     (if \<not> ans_magic_open os then Inr (p, False)
      else Inr (p\<lparr>magic_loaded := True\<rparr>, ans_magic_load os))"

definition server_init_ssl :: "os_answers \<Rightarrow> init_step" where
  "server_init_ssl os p =
     (if \<not> ans_ssl_ctx os then Inr (p, False)
      else Inr (p\<lparr>ssl_ctx := True\<rparr>, ans_ssl_cert os \<and> ans_ssl_key os))"

text \<open>All threads are to see the event of this descriptor, so it is armed without \<open>EPOLLONESHOT\<close>.\<close>

definition server_init_eventfd :: "chat_env \<Rightarrow> os_answers \<Rightarrow> init_step" where
  "server_init_eventfd env os p =
     (let p1 = p\<lparr>event_fd := ans_eventfd os\<rparr>
      in if event_fd p1 = -1 then Inr (p1, False)
         else
           bindR (server_new_event env (core p1) (event_fd p1) None eventfd_dummy_read_cb None) (\<lambda>(s1, ev).
             case ev of
               None \<Rightarrow> Inr (p1\<lparr>core := s1\<rparr>, False)
             | Some a \<Rightarrow>
                 bindR (deref (events s1) a) (\<lambda>se.
                 bindR (server_event_rearm (put_event a (se\<lparr>listen_events := EPOLLIN\<rparr>) s1) a) (\<lambda>(s2, ret).
                   Inr (p1\<lparr>core := s2\<rparr>, ret \<noteq> -1)))))"

definition server_init_signal :: "os_answers \<Rightarrow> init_step" where
  "server_init_signal os p =
     (let p1 = p\<lparr>sigfd := ans_signalfd os\<rparr> in Inr (p1, sigfd p1 \<noteq> -1))"

section \<open>The thread manager\<close>

text \<open>The workers in order; \<open>server_create_eworker\<close> fails with \<^verbatim>\<open>pthread_create\<close>.\<close>

definition server_create_eworker :: "os_answers \<Rightarrow> init_step" where
  "server_create_eworker os p =
     Inr (if ans_pthread os (created p) then (p\<lparr>created := Suc (created p)\<rparr>, True) else (p, False))"

fun create_workers :: "os_answers \<Rightarrow> nat \<Rightarrow> init_step" where
  "create_workers os 0 p = Inr (p, True)"
| "create_workers os (Suc n) p =
     bindR (server_create_eworker os p) (\<lambda>(p1, ok). if ok then create_workers os n p1 else Inr (p1, False))"

definition server_init_tm :: "os_answers \<Rightarrow> i32 \<Rightarrow> init_step" where
  "server_init_tm os n p =
     (if sint n \<le> 0 then Inr (p, False)
      else
        (let p1 = p\<lparr>n_workers := nat (sint n), tm_state := tm_state p OR TM_STATE_INIT\<rparr>;
             err = (\<lambda>q. Inr (q\<lparr>tm_state := tm_state q OR TM_STATE_SHUTDOWN\<rparr>, False))
         in bindR (server_db_open (ans_main_db os) (ans_login os) (main_db p1)
                     (cstr (conf_database (conf p1)) 0) DB_DEFAULT) (\<lambda>(db, ok).
              if \<not> ok then err (p1\<lparr>main_db := db\<rparr>)
              else bindR (create_workers os (n_workers p1) (p1\<lparr>main_db := db\<rparr>)) (\<lambda>(p2, ok2).
                     if \<not> ok2 then err p2 else Inr (p2, True)))))"

text \<open>
  The connection a worker opens for itself when its thread starts; its structure is zeroed. The
  first results are then processed.
\<close>

definition server_eworker_init ::
  "chat_env \<Rightarrow> os_answers \<Rightarrow> nat \<Rightarrow> server_config \<Rightarrow> (string list list \<times> pg_status) list \<Rightarrow>
    db_link \<times> chat_server \<Rightarrow> ((db_link \<times> chat_server) \<times> bool) res" where
  "server_eworker_init env os i c results w =
     bindR (server_db_open (ans_worker_db os i) (ans_login os) (fst w) (cstr (conf_database c) 0)
              (DB_PIPELINE OR DB_NONBLOCK)) (\<lambda>(db, ok).
       if \<not> ok then Inr ((db, snd w), False)
       else bindR (worker_results env results (snd w)) (\<lambda>s1. Inr ((db, s1), True)))"

definition server_eworker_cleanup :: "db_link \<times> chat_server \<Rightarrow> (db_link \<times> chat_server) res" where
  "server_eworker_cleanup w = bindR (server_db_close (fst w)) (\<lambda>db. Inr (db, snd w))"

text \<open>The life of a thread: nothing but the start when that fails.\<close>

definition eworker_main ::
  "chat_env \<Rightarrow> chat_server res http_env \<Rightarrow> os_answers \<Rightarrow> nat \<Rightarrow> server_config \<Rightarrow>
    (string list list \<times> pg_status) list \<Rightarrow> turn list \<Rightarrow> u8 \<Rightarrow> db_link \<times> chat_server \<Rightarrow>
    (db_link \<times> chat_server) res" where
  "eworker_main env web os i c results turns st w =
     bindR (server_eworker_init env os i c results w) (\<lambda>(w1, ok).
       if \<not> ok then Inr w1
       else bindR (server_eworker_async_run env web turns (st, snd w1)) (\<lambda>(st1, s1).
              server_eworker_cleanup (fst w1, s1)))"

text \<open>
  Every worker of the array is joined. The handle of one whose thread was not created is zero,
  which on Linux is a NULL pointer.
\<close>

definition server_tm_shutdown_threads :: "server_proc \<Rightarrow> server_proc res" where
  "server_tm_shutdown_threads p =
     (let p1 = p\<lparr>tm_state := tm_state p OR TM_STATE_SHUTDOWN\<rparr>
      in if created p1 < n_workers p1 then Inl Null_dereference else Inr p1)"

definition server_tm_shutdown :: "server_proc \<Rightarrow> server_proc res" where
  "server_tm_shutdown p =
     (if tm_state p AND TM_STATE_INIT = 0 then Inr p
      else if event_fd p = 0 then Inr p
      else bindR (server_tm_shutdown_threads p) (\<lambda>p1.
           bindR (server_db_close (main_db p1)) (\<lambda>db. Inr (p1\<lparr>main_db := db\<rparr>))))"

section \<open>The end\<close>

definition on_core :: "(chat_server \<Rightarrow> chat_server res) \<Rightarrow> server_proc \<Rightarrow> server_proc res" where
  "on_core f p = bindR (f (core p)) (\<lambda>s. Inr (p\<lparr>core := s\<rparr>))"

definition close_if :: "int \<Rightarrow> server_proc \<Rightarrow> server_proc" where
  "close_if fd p = (if fd \<noteq> 0 then p\<lparr>core := close_fd fd (core p)\<rparr> else p)"

text \<open>
  \<open>core p\<close> has no running workers here: they were joined. Destroying the tables frees no object
  that is in the model. The server itself is freed last.
\<close>

definition server_cleanup :: "chat_env \<Rightarrow> server_proc \<Rightarrow> server_proc res" where
  "server_cleanup env p =
     bindR (server_tm_shutdown p) (\<lambda>p1.
     bindR (on_core (server_del_all_events env) p1) (\<lambda>p2.
     bindR (on_core (server_del_all_clients env) p2) (\<lambda>p3.
     bindR (on_core server_del_all_sessions p3) (\<lambda>p4.
     bindR (on_core server_del_all_upload_tokens p4) (\<lambda>p5.
       (let p6 = p5\<lparr>commands := server_db_free (commands p5), magic_loaded := False, ssl_ctx := False\<rparr>
        in Inr (close_if (listen_sock p6) (close_if (epfd p6) (close_if (sigfd p6) p6)))))))))"

section \<open>Signals\<close>

definition SIGINT :: int where "SIGINT = 2"
definition SIGPIPE :: int where "SIGPIPE = 13"
definition SIGTERM :: int where "SIGTERM = 15"

lemmas signals = SIGINT_def SIGPIPE_def SIGTERM_def

definition server_handle_signal :: "int \<Rightarrow> server_proc \<Rightarrow> server_proc" where
  "server_handle_signal sig p =
     (if sig = SIGINT \<or> sig = SIGTERM then p\<lparr>core := (core p)\<lparr>running := False\<rparr>\<rparr> else p)"

text \<open>
  The reads of the signal descriptor, of which \<open>None\<close> is one that fails. The result is
  \<open>None\<close> while the main thread still waits for the next one.
\<close>

fun server_wait_for_signals :: "int option list \<Rightarrow> server_proc \<Rightarrow> server_proc option" where
  "server_wait_for_signals [] p = (if running (core p) then None else Some p)"
| "server_wait_for_signals (r # rs) p =
     (if \<not> running (core p) then Some p
      else (case r of
              None \<Rightarrow> Some (p\<lparr>core := (core p)\<lparr>running := False\<rparr>\<rparr>)
            | Some sig \<Rightarrow> server_wait_for_signals rs (server_handle_signal sig p)))"

definition server_run :: "int option list \<Rightarrow> server_proc \<Rightarrow> server_proc option" where
  "server_run reads p = server_wait_for_signals reads p"

section \<open>The whole program\<close>

text \<open>A sequence of steps, of which the first that fails ends the rest.\<close>

fun init_steps :: "init_step list \<Rightarrow> init_step" where
  "init_steps [] p = Inr (p, True)"
| "init_steps (f # fs) p = bindR (f p) (\<lambda>(p1, ok). if ok then init_steps fs p1 else Inr (p1, False))"

definition load_step :: "chat_env \<Rightarrow> os_answers \<Rightarrow> string list \<Rightarrow> init_step" where
  "load_step env os argv p =
     bindR (server_load_config env (ans_config os) (ans_threads os) argv (conf p) (level p)) (\<lambda>(c, l, ok).
       Inr (p\<lparr>conf := c, level := l\<rparr>, ok))"

definition start_steps :: "chat_env \<Rightarrow> os_answers \<Rightarrow> init_step list" where
  "start_steps env os =
     [server_init_socket os, server_init_ht, server_init_epoll env os, init_database os,
      server_init_magic os, server_init_ssl os, server_init_eventfd env os, server_init_signal os,
      (\<lambda>p. server_init_tm os (conf_thread_pool (conf p)) p)]"

text \<open>
  The start is over with a running server, with a failure after which everything is cleaned up,
  or in the parent process of a fork.
\<close>

datatype init_outcome = Started server_proc | Init_failed server_proc | Parent_exit

definition server_init :: "chat_env \<Rightarrow> os_answers \<Rightarrow> string list \<Rightarrow> server_proc \<Rightarrow> init_outcome res" where
  "server_init env os argv p =
     (let error = (\<lambda>q. bindR (server_cleanup env q) (\<lambda>q1. Inr (Init_failed q1)))
      in bindR (load_step env os argv p) (\<lambda>(p1, ok).
           if \<not> ok then error p1
           else if conf_fork (conf p1) \<and> ans_fork os \<noteq> 0 then Inr Parent_exit
           else bindR (init_steps (start_steps env os) p1) (\<lambda>(p2, ok2).
                  if \<not> ok2 then error p2
                  else Inr (Started (p2\<lparr>core := (core p2)\<lparr>running := True\<rparr>\<rparr>)))))"

text \<open>
  The exit code with the process at the end, \<open>None\<close> while the server still runs. \<open>work\<close> is what
  the workers have done to the server by the time the main thread ends them.
\<close>

definition main ::
  "chat_env \<Rightarrow> os_answers \<Rightarrow> string list \<Rightarrow> int option list \<Rightarrow> (server_proc \<Rightarrow> server_proc) \<Rightarrow> server_proc \<Rightarrow>
    (int \<times> server_proc) option res" where
  "main env os argv reads work p =
     bindR (server_init env os argv p) (\<lambda>r.
       case r of
         Init_failed q \<Rightarrow> Inr (Some (1, q))
       | Parent_exit \<Rightarrow> Inr (Some (0, p))
       | Started q \<Rightarrow>
           (case server_run reads (work q) of
              None \<Rightarrow> Inr None
            | Some q1 \<Rightarrow> bindR (server_cleanup env q1) (\<lambda>q2. Inr (Some (0, q2)))))"

section \<open>Ending by a signal\<close>

text \<open>
  C33. The main thread ends the server with the first SIGINT or SIGTERM, or when reading the
  signals fails, and waits through every other signal; nothing but \<^verbatim>\<open>running\<close> changes.
\<close>

theorem server_run_until_signal:
  assumes "running (core p)"
  shows "server_run reads p =
    (if \<exists>r\<in>set reads. r \<in> {None, Some SIGINT, Some SIGTERM}
     then Some (p\<lparr>core := (core p)\<lparr>running := False\<rparr>\<rparr>) else None)"
proof -
  have ended: "server_wait_for_signals rs (p\<lparr>core := (core p)\<lparr>running := False\<rparr>\<rparr>) =
      Some (p\<lparr>core := (core p)\<lparr>running := False\<rparr>\<rparr>)" for rs
    by (cases rs) simp_all
  show ?thesis
    unfolding server_run_def
  proof (induction reads)
    case (Cons r rs)
    show ?case
    proof (cases "r \<in> {None, Some SIGINT, Some SIGTERM}")
      case True
      then have "server_wait_for_signals (r # rs) p = Some (p\<lparr>core := (core p)\<lparr>running := False\<rparr>\<rparr>)"
        using assms ended [of rs] by (cases r) (auto simp only: server_wait_for_signals.simps server_handle_signal_def
            option.simps insert_iff empty_iff if_True if_False simp_thms)
      with True show ?thesis by simp
    next
      case False
      then obtain sig where "r = Some sig" "sig \<noteq> SIGINT" "sig \<noteq> SIGTERM" by (cases r) auto
      then have "server_wait_for_signals (r # rs) p = server_wait_for_signals rs p"
        using assms by (simp add: server_handle_signal_def)
      with False Cons.IH show ?thesis by simp
    qed
  qed (use assms in simp)
qed

section \<open>Workers that are missing\<close>

lemma create_workers_Suc:
  "create_workers os (Suc n) p =
     (if ans_pthread os (created p) then create_workers os n (p\<lparr>created := Suc (created p)\<rparr>) else Inr (p, False))"
  by (simp add: server_create_eworker_def)

lemmas create_workers_simps = create_workers.simps(1) create_workers_Suc

lemma create_workers_failed:
  assumes "create_workers os n p = Inr (q, False)"
  shows "created q < created p + n \<and> n_workers q = n_workers p \<and> tm_state q = tm_state p \<and> event_fd q = event_fd p"
  using assms
proof (induction n arbitrary: p)
  case (Suc n)
  show ?case
  proof (cases "ans_pthread os (created p)")
    case True
    then have "create_workers os n (p\<lparr>created := Suc (created p)\<rparr>) = Inr (q, False)"
      using Suc.prems by (simp only: create_workers_Suc if_True)
    from Suc.IH [OF this] show ?thesis by simp
  next
    case False
    then show ?thesis using Suc.prems by (simp only: create_workers_Suc if_False sum.inject prod.inject) simp
  qed
qed simp

lemma create_workers_done:
  assumes "create_workers os n p = Inr (q, True)"
  shows "\<exists>k. q = p\<lparr>created := k\<rparr> \<and> k = created p + n"
  using assms
proof (induction n arbitrary: p)
  case (Suc n)
  then have "ans_pthread os (created p)" by (cases "ans_pthread os (created p)") (simp_all only: create_workers_Suc if_False sum.inject prod.inject simp_thms)
  then have "create_workers os n (p\<lparr>created := Suc (created p)\<rparr>) = Inr (q, True)"
    using Suc.prems by (simp only: create_workers_Suc if_True)
  from Suc.IH [OF this] show ?case by simp
qed auto

text \<open>
  C30. When the connection of the main thread or one of the threads cannot be made, the clean-up
  after the failed start joins threads that do not exist: the start does not fail, it crashes.
\<close>

theorem missing_worker_crashes:
  assumes "server_init_tm os n p = Inr (q, False)" and "0 < sint n" and "created p = 0" and "event_fd p \<noteq> 0"
  shows "server_cleanup env q = Inl Null_dereference"
proof -
  have "created q < n_workers q \<and> event_fd q = event_fd p \<and>
      tm_state q = (tm_state p OR TM_STATE_INIT) OR TM_STATE_SHUTDOWN"
    using assms(1-3)
    by (auto simp: server_init_tm_def Let_def bindR_Inr dest!: create_workers_failed split: if_splits)
  moreover have "((st OR TM_STATE_INIT) OR TM_STATE_SHUTDOWN) AND TM_STATE_INIT \<noteq> 0" for st :: u8
  proof -
    have "bit (((st OR TM_STATE_INIT) OR TM_STATE_SHUTDOWN) AND TM_STATE_INIT) 0"
      by (simp add: bit_simps TM_STATE_INIT_def)
    then show ?thesis by force
  qed
  ultimately show ?thesis
    using assms(4) by (auto simp: server_cleanup_def server_tm_shutdown_def server_tm_shutdown_threads_def Let_def)
qed

section \<open>The started server\<close>

text \<open>An event in the store that the kernel reports for a descriptor.\<close>

definition registered :: "chat_server \<Rightarrow> int \<Rightarrow> se_read_callback \<Rightarrow> u32 \<Rightarrow> bool" where
  "registered s fd cb ev \<longleftrightarrow>
     (\<exists>a e. epoll s fd = Some a \<and> events s a = Some e \<and> ev_fd e = fd \<and> ev_read e = cb \<and>
        ev_data e = None \<and> listen_events e = ev \<and> a < next_addr s)"

lemma new_event_registered:
  assumes "server_new_event env s fd None rd None = Inr (s', Some a)"
  shows "epoll s fd = None" and "a = next_addr s" and "next_addr s' = Suc (next_addr s)"
    and "epoll s' = (epoll s)(fd \<mapsto> a)"
    and "\<exists>e. events s' = (events s)(a \<mapsto> e) \<and> ev_fd e = fd \<and> ev_read e = rd \<and> ev_data e = None \<and>
           listen_events e = DEFAULT_EPEV"
proof -
  have "DEFAULT_EPEV \<noteq> 0" by (simp add: epoll_consts)
  then show "epoll s fd = None" "a = next_addr s" "next_addr s' = Suc (next_addr s)"
    "epoll s' = (epoll s)(fd \<mapsto> a)"
    "\<exists>e. events s' = (events s)(a \<mapsto> e) \<and> ev_fd e = fd \<and> ev_read e = rd \<and> ev_data e = None \<and>
           listen_events e = DEFAULT_EPEV"
    using assms
    by (auto simp: server_new_event_def server_event_add_def put_event_def os_call_def Let_def case_prod_beta
        new_event_err_def bindR_Inr deref_def split: if_splits option.splits)
qed

lemma registered_new:
  assumes "registered s fd cb ev" "server_new_event env s fd' None rd None = Inr (s', Some a)"
  shows "registered s' fd cb ev"
proof -
  note new = new_event_registered [OF assms(2)]
  obtain b e where b: "epoll s fd = Some b" "events s b = Some e" "b < next_addr s"
    "ev_fd e = fd" "ev_read e = cb" "ev_data e = None" "listen_events e = ev"
    using assms(1) by (auto simp: registered_def)
  then have "fd \<noteq> fd'" "b \<noteq> a" using new(1,2) by auto
  then show ?thesis using b new(3-5) by (auto simp: registered_def)
qed

lemma init_steps_Cons:
  "init_steps (f # fs) p = Inr (q, True) \<longleftrightarrow> (\<exists>p1. f p = Inr (p1, True) \<and> init_steps fs p1 = Inr (q, True))"
  by (auto simp: bindR_Inr split: if_splits)

lemma init_epoll_done:
  assumes "server_init_epoll env os p = Inr (q, True)"
  shows "registered (core q) (listen_sock q) se_accept_conn_cb DEFAULT_EPEV" and "created q = created p"
    and "tm_state q = tm_state p"
proof -
  obtain s a where s: "server_new_event env (core p) (listen_sock p) None se_accept_conn_cb None = Inr (s, Some a)"
    "q = p\<lparr>epfd := ans_epoll_create os, core := s\<rparr>"
    using assms by (auto simp: server_init_epoll_def Let_def bindR_Inr split: if_splits)
  with new_event_registered [OF s(1)]
  show "registered (core q) (listen_sock q) se_accept_conn_cb DEFAULT_EPEV" "created q = created p"
    "tm_state q = tm_state p"
    by (auto simp: registered_def)
qed

lemma init_eventfd_done:
  assumes "server_init_eventfd env os p = Inr (q, True)"
    and "registered (core p) (listen_sock p) se_accept_conn_cb DEFAULT_EPEV"
  shows "registered (core q) (listen_sock q) se_accept_conn_cb DEFAULT_EPEV"
    and "registered (core q) (event_fd q) eventfd_dummy_read_cb EPOLLIN" and "created q = created p"
    and "tm_state q = tm_state p"
proof -
  obtain s a se where s: "server_new_event env (core p) (ans_eventfd os) None eventfd_dummy_read_cb None = Inr (s, Some a)"
    and se: "events s a = Some se"
    and q: "q = p\<lparr>event_fd := ans_eventfd os, core := (put_event a (se\<lparr>listen_events := EPOLLIN\<rparr>) s)
              \<lparr>epoll := (epoll s)(ev_fd se \<mapsto> a)\<rparr>\<rparr>"
    using assms(1)
    by (auto simp: server_init_eventfd_def server_event_rearm_def Let_def bindR_Inr put_event_def deref_def
        split: if_splits option.splits)
  note new = new_event_registered [OF s]
  have fd: "ev_fd se = ans_eventfd os" using new(5) se by auto
  then have ep: "(epoll s)(ev_fd se \<mapsto> a) = epoll s" using new(4) by auto
  obtain b e where b: "epoll (core p) (listen_sock p) = Some b" "events (core p) b = Some e" "b < next_addr (core p)"
    "ev_fd e = listen_sock p" "ev_read e = se_accept_conn_cb" "ev_data e = None" "listen_events e = DEFAULT_EPEV"
    using assms(2) by (auto simp: registered_def)
  then have "listen_sock p \<noteq> ans_eventfd os" "b \<noteq> a" using new(1,2) by auto
  then show "registered (core q) (listen_sock q) se_accept_conn_cb DEFAULT_EPEV"
    using b new fd by (auto simp: q registered_def put_event_def)
  show "registered (core q) (event_fd q) eventfd_dummy_read_cb EPOLLIN"
    using new fd se by (auto simp: q registered_def put_event_def)
  show "created q = created p" "tm_state q = tm_state p" by (simp_all add: q)
qed

lemma init_tm_done:
  assumes "server_init_tm os n p = Inr (q, True)"
  shows "core q = core p" "listen_sock q = listen_sock p" "event_fd q = event_fd p" "conf q = conf p"
    "0 < sint n" "n_workers q = nat (sint n)" "created q = created p + nat (sint n)"
    "tm_state q = tm_state p OR TM_STATE_INIT"
proof -
  obtain db p2 where "create_workers os (nat (sint n)) (p\<lparr>n_workers := nat (sint n),
      tm_state := tm_state p OR TM_STATE_INIT, main_db := db\<rparr>) = Inr (q, True)" and n: "0 < sint n"
    using assms by (auto simp: server_init_tm_def Let_def bindR_Inr split: if_splits)
  from create_workers_done [OF this(1)] n
  show "core q = core p" "listen_sock q = listen_sock p" "event_fd q = event_fd p" "conf q = conf p"
    "0 < sint n" "n_workers q = nat (sint n)" "created q = created p + nat (sint n)"
    "tm_state q = tm_state p OR TM_STATE_INIT"
    by auto
qed

text \<open>
  C5. A start that succeeds leaves a running server with all its threads, at least one, whose
  listening socket and event descriptor are registered with the kernel: connections for one
  worker at a time, the wake-up at the end for all of them.
\<close>

theorem started_server:
  assumes "server_init env os argv (proc_zero db fs) = Inr (Started p)"
  shows "running (core p) \<and> created p = n_workers p \<and> 0 < n_workers p \<and>
    int (n_workers p) = sint (conf_thread_pool (conf p)) \<and> tm_state p = TM_STATE_INIT \<and>
    registered (core p) (listen_sock p) se_accept_conn_cb DEFAULT_EPEV \<and>
    registered (core p) (event_fd p) eventfd_dummy_read_cb EPOLLIN"
proof -
  obtain p0 q where p0: "load_step env os argv (proc_zero db fs) = Inr (p0, True)"
    and steps: "init_steps (start_steps env os) p0 = Inr (q, True)"
    and p: "p = q\<lparr>core := (core q)\<lparr>running := True\<rparr>\<rparr>"
    using assms by (auto simp: server_init_def Let_def bindR_Inr split: if_splits)
  have z: "created p0 = 0" "tm_state p0 = 0"
    using p0 by (auto simp: load_step_def bindR_Inr proc_zero_def)
  obtain p1 p2 p3 p4 p5 p6 p7 p8 where
    s: "server_init_socket os p0 = Inr (p1, True)" "server_init_ht p1 = Inr (p2, True)"
      "server_init_epoll env os p2 = Inr (p3, True)" "init_database os p3 = Inr (p4, True)"
      "server_init_magic os p4 = Inr (p5, True)" "server_init_ssl os p5 = Inr (p6, True)"
      "server_init_eventfd env os p6 = Inr (p7, True)" "server_init_signal os p7 = Inr (p8, True)"
      "server_init_tm os (conf_thread_pool (conf p8)) p8 = Inr (q, True)"
    using steps unfolding start_steps_def init_steps_Cons by auto
  have "created p1 = 0 \<and> tm_state p1 = 0"
    using s(1) z by (auto simp: server_init_socket_def Let_def split: if_splits option.splits)
  then have "created p2 = 0 \<and> tm_state p2 = 0"
    using s(2) by (auto simp: server_init_ht_def Let_def case_prod_beta split: option.splits)
  then have c3: "created p3 = 0 \<and> tm_state p3 = 0" using init_epoll_done [OF s(3)] by simp
  have "core p6 = core p3 \<and> listen_sock p6 = listen_sock p3 \<and> created p6 = created p3 \<and> tm_state p6 = tm_state p3"
    using s(4-6) by (auto simp: init_database_def server_init_magic_def server_init_ssl_def bindR_Inr split: if_splits)
  then have r6: "registered (core p6) (listen_sock p6) se_accept_conn_cb DEFAULT_EPEV" and
    c6: "created p6 = 0" "tm_state p6 = 0" using init_epoll_done(1) [OF s(3)] c3 by auto
  have 8: "core p8 = core p7 \<and> listen_sock p8 = listen_sock p7 \<and> event_fd p8 = event_fd p7 \<and>
      created p8 = created p7 \<and> tm_state p8 = tm_state p7"
    using s(8) by (auto simp: server_init_signal_def Let_def)
  have keep: "registered (s\<lparr>running := True\<rparr>) fd cb ev = registered s fd cb ev" for s fd cb ev
    by (simp add: registered_def)
  show ?thesis
    using init_eventfd_done [OF s(7) r6] init_tm_done [OF s(9)] 8 c6 by (simp add: p keep)
qed

section \<open>Examples\<close>

definition demo_pq :: pq_answers where
  "demo_pq = \<lparr>pq_connects = True, pq_pipelines = True, pq_nonblocks = True\<rparr>"

definition demo_answers :: os_answers where
  "demo_answers =
     \<lparr>ans_config = Config_absent True True, ans_threads = 4, ans_fork = 0, ans_inet_addr = (\<lambda>x. Some [0, 0, 0, 0]),
      ans_inet_pton = (\<lambda>x. Some (replicate 16 0)), ans_socket = 3, ans_bind = True, ans_listen = True,
      ans_epoll_create = 4, ans_sql = (\<lambda>p. Sql_file ''BEGIN;''), ans_login = Some ''chat'', ans_schema_db = demo_pq,
      ans_schema = PGRES_COMMAND_OK, ans_magic_open = True, ans_magic_load = True, ans_ssl_ctx = True,
      ans_ssl_cert = True, ans_ssl_key = True, ans_eventfd = 5, ans_signalfd = 6, ans_main_db = demo_pq,
      ans_pthread = (\<lambda>i. True), ans_worker_db = (\<lambda>i. demo_pq)\<rparr>"

lemma new_event_succeeds:
  assumes "ght_ok (event_ht s)" "ght_room_for (event_ht s) (Suc n)" "fd_key fd \<noteq> 0"
    "server_ght_get (event_ht s) (fd_key fd) = None" "epoll s fd = None" "os_epoll_add env (os_calls s) \<noteq> -1"
  obtains s' where "server_new_event env s fd None rd None = Inr (s', Some (next_addr s))" "ght_ok (event_ht s')"
    "ght_room_for (event_ht s') n" "server_ght_get (event_ht s') = (server_ght_get (event_ht s))(fd_key fd \<mapsto> next_addr s)"
    "epoll s' = (epoll s)(fd \<mapsto> next_addr s)" "events s' (next_addr s) \<noteq> None"
proof -
  obtain ht where ht: "server_ght_insert (event_ht s) (fd_key fd) (Some (next_addr s)) = (ht, True)" "ght_ok ht"
      "server_ght_get ht = (server_ght_get (event_ht s))(fd_key fd \<mapsto> next_addr s)" "ght_room_for ht n"
    using ght.insert_new [OF assms(1,3,4,2), of "next_addr s"] by auto
  have "DEFAULT_EPEV \<noteq> 0" by (simp add: epoll_consts)
  then show thesis using that ht assms(5,6)
    by (auto simp: server_new_event_def server_event_add_def put_event_def os_call_def Let_def)
qed

lemma demo_loads: "\<exists>cmds1. load_commands (\<lambda>p. Sql_file ''BEGIN;'') c loads cmds = Inr cmds1"
  by (induction loads arbitrary: cmds)
    (auto simp: open_sql_def split: sql_path.split option.split)

lemma demo_answers_sel [simp]:
  "ans_inet_addr demo_answers = (\<lambda>x. Some [0, 0, 0, 0])" "ans_inet_pton demo_answers = (\<lambda>x. Some (replicate 16 0))"
  "ans_socket demo_answers = 3" "ans_bind demo_answers" "ans_listen demo_answers" "ans_epoll_create demo_answers = 4"
  "ans_sql demo_answers = (\<lambda>p. Sql_file ''BEGIN;'')" "ans_schema_db demo_answers = demo_pq"
  "ans_schema demo_answers = PGRES_COMMAND_OK" "ans_magic_open demo_answers" "ans_magic_load demo_answers"
  "ans_ssl_ctx demo_answers" "ans_ssl_cert demo_answers" "ans_ssl_key demo_answers" "ans_eventfd demo_answers = 5"
  "ans_signalfd demo_answers = 6" "ans_main_db demo_answers = demo_pq" "ans_pthread demo_answers = (\<lambda>i. True)"
  "ans_login demo_answers = Some ''chat''" "ans_config demo_answers = Config_absent True True" "ans_threads demo_answers = 4"
  "pq_connects demo_pq" "pq_pipelines demo_pq" "pq_nonblocks demo_pq"
  by (simp_all add: demo_answers_def demo_pq_def)

lemma demo_socket:
  assumes "conf p = c"
  obtains p1 where "server_init_socket demo_answers p = Inr (p1, True)" "core p1 = core p" "conf p1 = c"
    "listen_sock p1 = 3"
  using assms that
  by (cases "conf_addr_version c"; cases "is_any (cstr (conf_addr_ip c) 0)") (auto simp: server_init_socket_def Let_def)

lemma demo_workers: "create_workers demo_answers n p = Inr (p\<lparr>created := created p + n\<rparr>, True)"
proof (induction n arbitrary: p)
  case (Suc n)
  show ?case by (simp only: create_workers_Suc demo_answers_sel if_True Suc.IH) simp
qed simp

lemma demo_start:
  "\<exists>p. server_init (demo_conf_env None) demo_answers [''chitychat''] (proc_zero demo_server_db Map.empty) =
     Inr (Started p)"
proof -
  let ?env = "demo_conf_env None" and ?os = demo_answers
  obtain c where c: "server_load_config ?env (Config_absent True True) 4 [''chitychat''] config_zero SERVER_DEBUG =
      Inr (c, SERVER_DEBUG, True)" and fork: "\<not> conf_fork c" and threads: "conf_thread_pool c = 4" and paths: "conf_sql c = sql_paths"
    using default_config_loads by blast
  define p0 where "p0 = (proc_zero demo_server_db Map.empty)\<lparr>conf := c, level := SERVER_DEBUG\<rparr>"
  have p0: "conf p0 = c" "epoll (core p0) = Map.empty" by (simp_all add: p0_def proc_zero_def)
  have step0: "load_step ?env ?os [''chitychat''] (proc_zero demo_server_db Map.empty) = Inr (p0, True)"
    using c by (simp add: load_step_def p0_def proc_zero_def)
  obtain p1 where p1: "server_init_socket ?os p0 = Inr (p1, True)" "core p1 = core p0" "conf p1 = c" "listen_sock p1 = 3"
    using p0(1) by (rule demo_socket)
  have init: "server_ght_init 10 False = Some (empty_table 10)" by (simp add: empty_table_def server_ght_init_def)
  obtain ht where ht: "server_init_chatcmd ((core p1)\<lparr>event_ht := empty_table 10, client_ht := empty_table 10,
      user_ht := empty_table 10, session_ht := empty_table 10, upload_token_ht := empty_table 10\<rparr>) =
      (((core p1)\<lparr>event_ht := empty_table 10, client_ht := empty_table 10,
      user_ht := empty_table 10, session_ht := empty_table 10, upload_token_ht := empty_table 10\<rparr>)\<lparr>chat_cmd_ht := ht\<rparr>, True)"
    by (rule init_chatcmd_table)
  obtain p2 where p2: "server_init_ht p1 = Inr (p2, True)" "event_ht (core p2) = empty_table 10" "conf p2 = c"
      "epoll (core p2) = Map.empty" "listen_sock p2 = 3"
    using ht p1 p0 by (simp add: server_init_ht_def init)
  have add: "os_epoll_add ?env k = 0" for k by (simp add: demo_conf_env_def)
  have keys: "fd_key 3 = 3" "fd_key 5 = 5" by (simp_all add: fd_key_def)
  have k0: "(3::u64) \<noteq> 0" "(5::u64) \<noteq> 0" "(5::u64) \<noteq> 3" by simp_all
  have et: "ght_ok (empty_table 10 :: nat server_ght)" "server_ght_get (empty_table 10 :: nat server_ght) k = None"
    "ght_room_for (empty_table 10 :: nat server_ght) (Suc (Suc 0))" for k
    by (simp_all add: empty_table_ok)
  obtain s3 where s3: "server_new_event ?env (core p2) 3 None se_accept_conn_cb None = Inr (s3, Some (next_addr (core p2)))"
      "ght_ok (event_ht s3)" "ght_room_for (event_ht s3) 1" "server_ght_get (event_ht s3) 5 = None" "epoll s3 5 = None"
    by (rule new_event_succeeds [of "core p2" 1 3 ?env se_accept_conn_cb])
      (use p2 et k0 in \<open>auto simp: keys add\<close>)
  define p3 where "p3 = p2\<lparr>epfd := 4, core := s3\<rparr>"
  have step3: "server_init_epoll ?env ?os p2 = Inr (p3, True)"
    using s3(1) p2(5) by (simp add: server_init_epoll_def p3_def)
  obtain cmds where cmds: "load_commands (\<lambda>p. Sql_file ''BEGIN;'') c sql_loads (commands p3) = Inr cmds"
    using demo_loads by blast
  have schema_path: "conf_sql c ''schema'' \<noteq> None"
    using paths by (simp add: sql_paths_def)
  have schema: "sql_text cmds Sql_schema \<noteq> None"
    using load_commands_text [OF cmds, of Sql_schema "Conf_path ''schema''" Sql_schema] schema_path
    by (auto simp: sql_loads_def open_sql_def)
  define p6 where "p6 = p3\<lparr>commands := cmds, magic_loaded := True, ssl_ctx := True\<rparr>"
  have step6: "init_database ?os p3 = Inr (p3\<lparr>commands := cmds\<rparr>, True)"
    "server_init_magic ?os (p3\<lparr>commands := cmds\<rparr>) = Inr (p3\<lparr>commands := cmds, magic_loaded := True\<rparr>, True)"
    "server_init_ssl ?os (p3\<lparr>commands := cmds, magic_loaded := True\<rparr>) = Inr (p6, True)"
    using cmds schema p2(3)
    by (auto simp: init_database_def server_init_db_def db_exec_schema_def server_db_open_def server_db_close_def
        link_local_def DB_DEFAULT_def Let_def db_exec_sql_def p3_def server_init_magic_def server_init_ssl_def p6_def)
  obtain s7 a where s7: "server_new_event ?env (core p6) 5 None eventfd_dummy_read_cb None = Inr (s7, Some a)"
      "epoll s7 5 = Some a" "events s7 a \<noteq> None"
    by (rule new_event_succeeds [of "core p6" 0 5 ?env eventfd_dummy_read_cb])
      (use s3 in \<open>auto simp: keys add p6_def p3_def\<close>)
  note new = new_event_registered(5) [OF s7(1)]
  obtain p7 where p7: "server_init_eventfd ?env ?os p6 = Inr (p7, True)" "conf p7 = c" "created p7 = created p6"
    "main_db p7 = main_db p6"
    using s7 new p2(3)
    by (auto simp: server_init_eventfd_def Let_def server_event_rearm_def put_event_def p6_def p3_def)
  have step8: "server_init_signal ?os p7 = Inr (p7\<lparr>sigfd := 6\<rparr>, True)" by (simp add: server_init_signal_def)
  have step9: "\<exists>q. server_init_tm ?os (conf_thread_pool (conf (p7\<lparr>sigfd := 6\<rparr>))) (p7\<lparr>sigfd := 6\<rparr>) = Inr (q, True)"
    using threads p7(2) by (simp add: server_init_tm_def server_db_open_def DB_DEFAULT_def Let_def demo_workers)
  then have "\<exists>q. init_steps (start_steps ?env ?os) p0 = Inr (q, True)"
    unfolding start_steps_def init_steps_Cons using p1(1) p2(1) step3 step6 p7(1) step8 by auto
  then show ?thesis using step0 fork by (auto simp: server_init_def p0_def Let_def)
qed

lemma started_server_witness:
  "\<exists>p. server_init (demo_conf_env None) demo_answers [''chitychat''] (proc_zero demo_server_db Map.empty) =
       Inr (Started p) \<and> running (core p) \<and> created p = n_workers p \<and> 0 < n_workers p \<and>
     registered (core p) (event_fd p) eventfd_dummy_read_cb EPOLLIN"
proof -
  obtain p where p: "server_init (demo_conf_env None) demo_answers [''chitychat''] (proc_zero demo_server_db Map.empty) =
      Inr (Started p)"
    using demo_start by blast
  from started_server [OF p] p show ?thesis by blast
qed

lemma server_run_until_signal_witness:
  "server_run [Some SIGPIPE, Some SIGTERM, None] ((proc_zero demo_server_db Map.empty)\<lparr>core := server_start\<rparr>) =
     Some ((proc_zero demo_server_db Map.empty)\<lparr>core := server_start\<lparr>running := False\<rparr>\<rparr>)"
  by (subst server_run_until_signal) (simp_all add: server_start_def)

definition db_down :: os_answers where
  "db_down = demo_answers\<lparr>ans_main_db := demo_pq\<lparr>pq_connects := False\<rparr>\<rparr>"

lemma missing_worker_crashes_witness:
  "\<exists>q. server_init_tm db_down 2 ((proc_zero demo_server_db Map.empty)\<lparr>event_fd := 5\<rparr>) = Inr (q, False) \<and>
     server_cleanup (demo_conf_env None) q = Inl Null_dereference"
proof -
  let ?p = "(proc_zero demo_server_db Map.empty)\<lparr>event_fd := 5\<rparr>"
  obtain q where q: "server_init_tm db_down 2 ?p = Inr (q, False)"
    by (simp add: server_init_tm_def db_down_def server_db_open_def Let_def)
  have "created ?p = 0" "event_fd ?p \<noteq> 0" by (simp_all add: proc_zero_def)
  from missing_worker_crashes [OF q _ this] q show ?thesis by auto
qed

end
