(* ===== verification/Spec2Isabelle.thy ===== *)
theory Spec2Isabelle
  imports Server_Ht Server_Websocket Server_Http Server_Events User_Login User_File User_Upload Chat_Cmd Worker_Behaviour Server_Boot Server_Diag
begin

text \<open>
  Verification library of the chat server ChityChat (\<^verbatim>\<open>server/\<close>, written in C).

  \<^bold>\<open>The program.\<close> The main thread loads a configuration, opens a TLS socket, creates the
  hash tables, the SQL commands and a pool of event workers, and then waits for signals
  (\<^verbatim>\<open>main.c\<close>, \<^verbatim>\<open>server_init.c\<close>, \<^verbatim>\<open>server_tm.c\<close>). A worker (\<^verbatim>\<open>server_eworker.c\<close>) handles the
  results of its database connection, which works in pipeline mode, and the events of epoll. A
  client's bytes are HTTP requests: files are served, images are uploaded with a token, and an
  upgrade turns the connection into a WebSocket. Its text frames are JSON commands: registration
  and login first, then groups, messages, invite codes and users. A command sends SQL and leaves a
  callback in the pipeline, which answers the client and the other members when the result is
  there.

  \<^bold>\<open>Theories and sources\<close> (below \<^verbatim>\<open>server/src\<close>, with the headers of \<^verbatim>\<open>server/include\<close>):

    \<^item> \<open>Chity_Base\<close>: the prelude; machine integers and single-precision quotients.
    \<^item> \<open>Keyed_Table\<close>, \<open>Bounded_Queue\<close>: the interfaces of a table and of a queue as locales, with
      the laws about sequences of operations proved once.
    \<^item> \<open>Server_Ht\<close>: \<^verbatim>\<open>server_ht.c\<close>; interprets the table locales. \<open>Table_Walk\<close>: the loop
      \<^verbatim>\<open>GHT_FOREACH\<close> with a body that deletes, and the loops of \<^verbatim>\<open>server.c\<close> that empty the tables.
    \<^item> \<open>Server_Util\<close>, \<open>Server_Crypt\<close>, \<open>Server_Log\<close>, \<open>Server_Diag\<close>: \<^verbatim>\<open>server_util.c\<close>,
      \<^verbatim>\<open>server_crypt.c\<close>, \<^verbatim>\<open>server_log.c\<close> and what is printed.
    \<^item> \<open>Http_Msg\<close>, \<open>Server_Client\<close>, \<open>Server_Http\<close>, \<open>Server_Websocket\<close>: \<^verbatim>\<open>server_http.c\<close>,
      \<^verbatim>\<open>server_http_get.c\<close>, the connection and its receive buffer, \<^verbatim>\<open>server_websocket.c\<close>.
    \<^item> \<open>Db_Pipeline\<close>: \<^verbatim>\<open>chat/db_pipeline.c\<close>; interprets the queue locale. \<open>Db_User\<close>,
      \<open>Db_Group\<close>: the queries of \<^verbatim>\<open>chat/db_user.c\<close> and \<^verbatim>\<open>chat/db_group.c\<close> and the rows of
      \<^verbatim>\<open>chat/db.c\<close>. \<open>Server_Db\<close>: SQL files and connections of \<^verbatim>\<open>chat/db.c\<close>.
    \<^item> \<open>Server_State\<close>: the objects and the server that the following theories share.
      \<open>Server_Events\<close>: \<^verbatim>\<open>server_events.c\<close>, \<^verbatim>\<open>server_timer.c\<close>, \<^verbatim>\<open>server_client.c\<close>,
      \<^verbatim>\<open>chat/user_session.c\<close>, \<^verbatim>\<open>chat/upload_token.c\<close>.
    \<^item> \<open>Chat_Rtusm\<close>, \<open>User_Login\<close>, \<open>User_File\<close>, \<open>Chat_Group\<close>, \<open>User_Upload\<close>,
      \<open>Chat_User\<close>, \<open>Chat_Cmd\<close>: the files of \<^verbatim>\<open>chat/\<close> with these names, the file queries of
      \<^verbatim>\<open>chat/db_userfile.c\<close> and the frames of \<^verbatim>\<open>chat/ws_text_frame.c\<close>.
    \<^item> \<open>Server_Worker\<close>: \<^verbatim>\<open>server_eworker.c\<close>, \<^verbatim>\<open>se_read_client\<close> and the dispatch of the
      callbacks, which tie everything together. \<open>Server_Invariant\<close> and \<open>Worker_Behaviour\<close>: what
      holds of the composition.
    \<^item> \<open>Server_Config\<close>, \<open>Server_Boot\<close>: \<^verbatim>\<open>server_init.c\<close>, \<^verbatim>\<open>server_tm.c\<close>, \<^verbatim>\<open>server_signal.c\<close>,
      the clean-up of \<^verbatim>\<open>server.c\<close> and \<^verbatim>\<open>main.c\<close>.
\<close>

text \<open>
  \<^bold>\<open>How state and operations correspond.\<close> Functions keep the names of the code; a suffix
  \<open>_cb\<close> is a function pointer to the function without it, and a part of a function that has a
  definition of its own has a name of its own. A structure is a record. Clients, users, sessions,
  tokens, timers and events are pointed to by tables, events and pending commands, so they live in
  an explicit store: a map from addresses that are never used twice. \<^verbatim>\<open>free\<close> removes an address.
  A computation returns \<open>Inr\<close> with the next state, or \<open>Inl\<close> with a fault: a dangling or NULL
  pointer, an access behind an array, a read of what was never written. Errors that the code
  handles are results and not faults. Integers have the width of the code; sizes are naturals where
  the code cannot make them wrap. A C string is the part of its array before the first NUL, and a
  full array runs on into the next member, as in memory.

  \<^bold>\<open>Parameters.\<close> json-c, libpq, OpenSSL, libmagic, the file system and the kernel are arguments:
  \<open>chat_env\<close> for the chat, \<open>http_env\<close> for HTTP, \<open>os_answers\<close> for the start. The \<open>k\<close>-th
  system call gets the \<open>k\<close>-th answer, so that every sequence of failures is covered. The results
  of queries are arguments too; the SQL of the files is not interpreted, apart from the reference
  counts of stored files in \<open>User_File\<close>.

  \<^bold>\<open>What the lemmas show.\<close>

    \<^item> Tables: insertion, lookup and resizing refine a partial map, deletion refines it but for the
      chains it cuts, and the load stays bounded.
    \<^item> Messages: responses fit their buffers and print as the reference text, the parser respects
      its arrays, frames are parsed to what was sent, the allocation of a receive buffer is left
      only where an unhandled frame is printed without a terminator, and a URL that passes the check
      has no inner \<open>..\<close> segment; with the inputs on which the parsers fail.
    \<^item> Pipeline: for chains with a client and a callback the ring refines a bounded list, and
      results reach the callbacks of their commands in order, in however many calls they are read.
    \<^item> Objects: a token with an armed timer is freed once when the event of its timer goes, a session
      outlives its client until its timer fires or a login takes it up; deleting an event ends.
    \<^item> Chat: commands need a login, a login needs the password, groups are deleted by their owner with
      the statements between \<^verbatim>\<open>BEGIN\<close> and \<^verbatim>\<open>COMMIT\<close>, files are kept exactly while they are
      referenced.
    \<^item> Worker: an invariant of clients, buffers and users that every operation keeps, collected in
      \<open>keeps\<close> and lifted to runs of one worker; bodies in pieces are handled once they are
      complete.
    \<^item> Start and end: a start that succeeds has everything registered, and which failures end in a
      crash instead of a clean exit.

  \<^bold>\<open>Bounds and fuel.\<close> \<open>server_del_event\<close> has fuel, because close callbacks delete events;
  \<open>server_del_event_ends\<close> shows that one unit is enough, and everything else uses
  \<open>del_event\<close> with that. The parsers of frames, headers and parameters end by a measure, so they
  are total. The loops that wait for the outside (events, results, signals) run over the list of
  what arrives.
\<close>

text \<open>
  \<^bold>\<open>Not modelled.\<close>

    \<^item> Concurrency: the theories are about one worker. The code shares users, clients and tables
      between threads with a lock per table only, so other workers may change them between and
      inside handlers, which is outside this development. Mutexes have no effect here.
    \<^item> The one-shot state of an armed descriptor: the kernel may report any registered event.
    \<^item> TLS records, name lookups of addresses (\<^verbatim>\<open>server_get_client_info\<close>), the text of log messages
      other than those of \<open>Server_Diag\<close> (of the others, only the read of a payload without a
      terminator is modelled, at a log level that prints warnings), the change of directory and the
      help text at the start.
    \<^item> Failing allocation, and who frees request bodies and the texts of query parameters; leaks are
      therefore only seen for objects of the store.
    \<^item> SQL and the schema of the database (\<^verbatim>\<open>server/sql\<close>), which run in PostgreSQL, and the web client
      (\<^verbatim>\<open>client/\<close>, JavaScript).
\<close>

end
